theory Spec2Isabelle
  imports
    Main
    "HOL-Library.Char_ord"
    "HOL-Library.List_Lexorder"
    "HOL-Library.Product_Lexorder"
    "HOL-Library.AList"
    "HOL-Library.Multiset"
    "HOL-Library.Word"
begin

section \<open>Strings\<close>

text \<open>
  A Go string is a sequence of bytes; it is modelled as a \<^typ>\<open>string\<close>, one \<^typ>\<open>char\<close> per
  byte.  Go compares strings bytewise, which is the lexicographic order on \<^typ>\<open>char list\<close>
  over the order of the byte values.

  The functions of package \<open>strings\<close> that the program calls are written out below on bytes.
\<close>

definition HasPrefix :: "string \<Rightarrow> string \<Rightarrow> bool" where
  "HasPrefix s pre = (take (length pre) s = pre)"

fun Contains :: "string \<Rightarrow> string \<Rightarrow> bool" where
  "Contains [] sub = (sub = [])"
| "Contains (c # s) sub = (HasPrefix (c # s) sub \<or> Contains s sub)"

text \<open>
  \<open>spaceRunes\<close> lists the UTF-8 encodings of the code points for which \<open>unicode.IsSpace\<close>
  holds: the six ASCII ones, U+0085, U+00A0, U+1680, U+2000 to U+200A, U+2028, U+2029, U+202F,
  U+205F and U+3000.  No encoding is a prefix of another, and a byte that starts one of them is
  never a continuation byte, so that removing leading (trailing) encodings is what
  \<open>strings.TrimSpace\<close> does when it decodes runes from the front (the back).
\<close>

definition spaceRunes :: "string list" where
  "spaceRunes =
     [[CHR 0x09], [CHR 0x0A], [CHR 0x0B], [CHR 0x0C], [CHR 0x0D], [CHR 0x20],
      [CHR 0xC2, CHR 0x85], [CHR 0xC2, CHR 0xA0],
      [CHR 0xE1, CHR 0x9A, CHR 0x80],
      [CHR 0xE2, CHR 0x80, CHR 0x80], [CHR 0xE2, CHR 0x80, CHR 0x81],
      [CHR 0xE2, CHR 0x80, CHR 0x82], [CHR 0xE2, CHR 0x80, CHR 0x83],
      [CHR 0xE2, CHR 0x80, CHR 0x84], [CHR 0xE2, CHR 0x80, CHR 0x85],
      [CHR 0xE2, CHR 0x80, CHR 0x86], [CHR 0xE2, CHR 0x80, CHR 0x87],
      [CHR 0xE2, CHR 0x80, CHR 0x88], [CHR 0xE2, CHR 0x80, CHR 0x89],
      [CHR 0xE2, CHR 0x80, CHR 0x8A],
      [CHR 0xE2, CHR 0x80, CHR 0xA8], [CHR 0xE2, CHR 0x80, CHR 0xA9],
      [CHR 0xE2, CHR 0x80, CHR 0xAF], [CHR 0xE2, CHR 0x81, CHR 0x9F],
      [CHR 0xE3, CHR 0x80, CHR 0x80]]"

definition leading :: "string list \<Rightarrow> string \<Rightarrow> string option" where
  "leading qs s = find (\<lambda>q. q \<noteq> [] \<and> take (length q) s = q) qs"

function stripLeading :: "string list \<Rightarrow> string \<Rightarrow> string" where
  "stripLeading qs s =
     (case leading qs s of
        None \<Rightarrow> s
      | Some q \<Rightarrow> stripLeading qs (drop (length q) s))"
  by pat_completeness auto
termination
proof (relation "measure (\<lambda>(qs, s). length s)")
  show "wf (measure (\<lambda>(qs, s). length s))" by simp
next
  fix qs :: "string list" and s q :: string
  assume "leading qs s = Some q"
  then have q: "q \<noteq> []" "take (length q) s = q"
    by (auto simp: leading_def find_Some_iff)
  then have "s \<noteq> []" by auto
  with q show "((qs, drop (length q) s), (qs, s)) \<in> measure (\<lambda>(qs, s). length s)"
    by (cases q) auto
qed

declare stripLeading.simps [simp del]

definition TrimSpace :: "string \<Rightarrow> string" where
  "TrimSpace s = rev (stripLeading (map rev spaceRunes) (rev (stripLeading spaceRunes s)))"

text \<open>
  \<open>strings.ToLower\<close> maps each rune through \<open>unicode.ToLower\<close>.  On ASCII it lowers
  \<open>A\<close> to \<open>Z\<close>.  Exactly two other code points lower to an ASCII letter: U+0130 (bytes
  \<open>C4 B0\<close>) to \<open>i\<close> and U+212A (bytes \<open>E2 84 AA\<close>) to \<open>k\<close>.  Every other rune, and
  every invalid byte, yields non-ASCII output; the model leaves those bytes as they are.  The
  model therefore agrees with Go on ASCII input, and on every input as far as the program uses
  the result: to compare it with, or to search in it for, an ASCII literal.
\<close>

definition lowerASCII :: "char \<Rightarrow> char" where
  "lowerASCII c =
     (if of_char (CHR ''A'') \<le> (of_char c :: nat) \<and> (of_char c :: nat) \<le> of_char (CHR ''Z'')
      then char_of (of_char c + (32 :: nat)) else c)"

fun ToLower :: "string \<Rightarrow> string" where
  "ToLower [] = []"
| "ToLower (c # s) =
     (if c = CHR 0xC4 \<and> take 1 s = [CHR 0xB0] then CHR ''i'' # ToLower (drop 1 s)
      else if c = CHR 0xE2 \<and> take 2 s = [CHR 0x84, CHR 0xAA] then CHR ''k'' # ToLower (drop 2 s)
      else lowerASCII c # ToLower s)"

text \<open>
  \<open>strings.EqualFold\<close> compares under Unicode simple case folding.  The program calls it
  with the literals \<open>body\<close> and \<open>formData\<close> only; none of their letters has a non-ASCII
  fold partner (only \<open>k\<close> and \<open>s\<close> do), so that on these calls it is equality of the
  ASCII-lowered bytes.
\<close>

definition EqualFold :: "string \<Rightarrow> string \<Rightarrow> bool" where
  "EqualFold s t = (map lowerASCII s = map lowerASCII t)"

section \<open>Generic document trees\<close>

text \<open>
  What \<open>yaml.Unmarshal\<close> stores in a \<open>map[string]any\<close>: scalars, \<open>[]any\<close> and
  \<open>map[string]any\<close>.  A Go map is an association list with distinct keys.  Scalars that the
  program never inspects (floats, timestamps) are kept as their text.  The decoder builds a
  fresh value for every alias, so that the tree has no sharing.
\<close>

datatype any =
    ANil
  | ABool bool
  | AInt int
  | AOther string
  | AStr string
  | AList "any list"
  | AMap "(string \<times> any) list"

type_synonym amap = "(string \<times> any) list"

text \<open>\<open>m[k]\<close> on a \<open>map[string]any\<close>: the zero value \<open>nil\<close> when the key is absent.\<close>

definition idx :: "amap \<Rightarrow> string \<Rightarrow> any" where
  "idx m k = (case map_of m k of None \<Rightarrow> ANil | Some v \<Rightarrow> v)"

definition asString :: "any \<Rightarrow> string" where
  "asString v = (case v of AStr s \<Rightarrow> s | _ \<Rightarrow> [])"

section \<open>Version detection\<close>

text \<open>
  \<open>detectSpecVersion\<close> of \<open>loader.go\<close>.  The YAML parser is a parameter: \<open>unmarshal\<close>
  returns the error text or the root map.
\<close>

definition detectSpecVersion :: "(string \<Rightarrow> string + amap) \<Rightarrow> string \<Rightarrow> string + int" where
  "detectSpecVersion unmarshal data =
     (case unmarshal data of
        Inl err \<Rightarrow> Inl (''parse spec: '' @ err)
      | Inr root \<Rightarrow>
          if (case map_of root ''openapi'' of
                Some v \<Rightarrow> HasPrefix (TrimSpace (asString v)) ''3.''
              | None \<Rightarrow> False)
          then Inr 3
          else if (case map_of root ''swagger'' of
                Some v \<Rightarrow> HasPrefix (TrimSpace (asString v)) ''2.''
              | None \<Rightarrow> False)
          then Inr 2
          else Inl ''spec: missing or unknown version (expected 'openapi: 3.x' or 'swagger: 2.0')'')"

definition isStr :: "any \<Rightarrow> bool" where
  "isStr v = (case v of AStr s \<Rightarrow> True | _ \<Rightarrow> False)"

section \<open>Compatibility preprocessing of Swagger v2\<close>

text \<open>
  \<open>v2compat.go\<close>.  The functions work on the tree that \<open>yaml.Unmarshal\<close> returns and
  change it in place; the model returns the changed tree.  A type assertion
  \<open>v.(map[string]any)\<close> or \<open>v.([]any)\<close> is a case distinction on the constructor.
\<close>

definition asMap :: "any \<Rightarrow> amap option" where
  "asMap v = (case v of AMap m \<Rightarrow> Some m | _ \<Rightarrow> None)"

definition containsString :: "any list \<Rightarrow> string \<Rightarrow> bool" where
  "containsString xs want = list_ex (\<lambda>v. case v of AStr s \<Rightarrow> s = want | _ \<Rightarrow> False) xs"

definition extractSchemaFromParam :: "amap \<Rightarrow> amap option" where
  "extractSchemaFromParam pm =
     (case idx pm ''schema'' of
        AMap sch \<Rightarrow> Some sch
      | _ \<Rightarrow>
         (let t = asString (idx pm ''type'') in
          if t = [] then None
          else
            let m = [(''type'', AStr t)];
                m = (case idx pm ''items'' of AMap it \<Rightarrow> AList.update ''items'' (AMap it) m | _ \<Rightarrow> m);
                m = (case idx pm ''format'' of
                       AStr f \<Rightarrow> if f \<noteq> [] then AList.update ''format'' (AStr f) m else m
                     | _ \<Rightarrow> m)
            in Some m))"

text \<open>
  The type, items and format that \<open>formDataFromBodyParam\<close> derives: first from the
  parameter's schema, then, while the type is still empty, from the parameter itself, and
  \<open>string\<close> at last.  \<open>items\<close> is \<open>nil\<close> until a map is found.
\<close>

definition deriveFromSchema :: "amap \<Rightarrow> string \<times> string \<times> any" where
  "deriveFromSchema pm =
     (case idx pm ''schema'' of
        AMap sch \<Rightarrow>
          (let typ = (case idx sch ''type'' of AStr t \<Rightarrow> t | _ \<Rightarrow> []);
               items = (case idx sch ''items'' of AMap it \<Rightarrow> AMap it | _ \<Rightarrow> ANil);
               format = (case idx sch ''format'' of AStr f \<Rightarrow> f | _ \<Rightarrow> []);
               typ = (if typ = [] \<and> idx sch ''$ref'' \<noteq> ANil then ''string'' else typ)
           in (typ, format, items))
      | _ \<Rightarrow> ([], [], ANil))"

definition deriveType :: "amap \<Rightarrow> string \<times> string \<times> any" where
  "deriveType pm =
     (let (typ, format, items) = deriveFromSchema pm;
          (typ, format, items) =
            (if typ = [] then
               (case idx pm ''type'' of AStr t \<Rightarrow> t | _ \<Rightarrow> typ,
                case idx pm ''format'' of AStr f \<Rightarrow> f | _ \<Rightarrow> format,
                case idx pm ''items'' of AMap it \<Rightarrow> AMap it | _ \<Rightarrow> items)
             else (typ, format, items));
          typ = (if typ = [] then ''string'' else typ)
      in (typ, format, items))"

definition paramName :: "amap \<Rightarrow> string" where
  "paramName pm = (let name = asString (idx pm ''name'') in if name = [] then ''field'' else name)"

definition formDataFromBodyParam :: "amap \<Rightarrow> amap" where
  "formDataFromBodyParam pm =
     (let out = [(''in'', AStr ''formData''), (''name'', AStr (paramName pm))];
          out = (case idx pm ''description'' of
                   AStr desc \<Rightarrow> if desc \<noteq> [] then AList.update ''description'' (AStr desc) out else out
                 | _ \<Rightarrow> out);
          out = (case idx pm ''required'' of
                   ABool req \<Rightarrow> AList.update ''required'' (ABool req) out
                 | _ \<Rightarrow> out);
          (typ, format, items) = deriveType pm;
          out = AList.update ''type'' (AStr typ) out;
          out = (if items \<noteq> ANil then AList.update ''items'' items out else out);
          out = (if format \<noteq> [] then AList.update ''format'' (AStr format) out else out)
      in out)"

definition inBody :: "amap \<Rightarrow> bool" where
  "inBody pm = EqualFold (asString (idx pm ''in'')) ''body''"

definition inFormData :: "amap \<Rightarrow> bool" where
  "inFormData pm = EqualFold (asString (idx pm ''in'')) ''formData''"

text \<open>The first loop over the parameters: the count of body parameters and the formData flag.\<close>

fun countLoop :: "any list \<Rightarrow> nat \<Rightarrow> bool \<Rightarrow> nat \<times> bool" where
  "countLoop [] bodyCount hasFormData = (bodyCount, hasFormData)"
| "countLoop (p # ps) bodyCount hasFormData =
     (case asMap p of
        None \<Rightarrow> countLoop ps bodyCount hasFormData
      | Some pm \<Rightarrow>
          if inBody pm then countLoop ps (Suc bodyCount) hasFormData
          else if inFormData pm then countLoop ps bodyCount True
          else countLoop ps bodyCount hasFormData)"

text \<open>The loop of the mixed case: every body parameter becomes a formData parameter.\<close>

fun convertLoop :: "any list \<Rightarrow> any list \<Rightarrow> bool \<Rightarrow> any list \<times> bool" where
  "convertLoop [] newParams modified = (newParams, modified)"
| "convertLoop (p # ps) newParams modified =
     (case asMap p of
        None \<Rightarrow> convertLoop ps newParams modified
      | Some pm \<Rightarrow>
          if inBody pm then convertLoop ps (newParams @ [AMap (formDataFromBodyParam pm)]) True
          else convertLoop ps (newParams @ [AMap pm]) modified)"

text \<open>The loop of the merge case, with its four variables.\<close>

fun mergeLoop ::
  "any list \<Rightarrow> amap \<Rightarrow> any list \<Rightarrow> any list \<Rightarrow> bool \<Rightarrow> amap \<times> any list \<times> any list \<times> bool" where
  "mergeLoop [] props required newParams modified = (props, required, newParams, modified)"
| "mergeLoop (p # ps) props required newParams modified =
     (case asMap p of
        None \<Rightarrow> mergeLoop ps props required newParams modified
      | Some pm \<Rightarrow>
          if inBody pm then
            (let name = paramName pm;
                 schema = (case extractSchemaFromParam pm of
                             None \<Rightarrow> [(''type'', AStr ''string'')]
                           | Some sch \<Rightarrow> sch);
                 props = AList.update name (AMap schema) props;
                 required = (case idx pm ''required'' of
                               ABool rb \<Rightarrow> if rb then required @ [AStr name] else required
                             | _ \<Rightarrow> required)
             in mergeLoop ps props required newParams True)
          else mergeLoop ps props required (newParams @ [p]) modified)"

text \<open>
  The body of the loop over the operations of a path item, for one operation map: the
  operation as it is afterwards, and whether \<open>modified\<close> was set.
\<close>

definition rewriteOp :: "amap \<Rightarrow> amap \<times> bool" where
  "rewriteOp op =
     (case idx op ''parameters'' of
        AList params \<Rightarrow>
          if params = [] then (op, False)
          else
            let (bodyCount, hasFormData) = countLoop params 0 False in
            if bodyCount = 0 then (op, False)
            else if hasFormData then
              (let (newParams, modified) = convertLoop params [] False;
                   op = AList.update ''parameters'' (AList newParams) op;
                   consumes = (case idx op ''consumes'' of AList c \<Rightarrow> c | _ \<Rightarrow> []);
                   op = (if \<not> containsString consumes ''multipart/form-data''
                         then AList.update ''consumes'' (AList (consumes @ [AStr ''multipart/form-data''])) op
                         else op)
               in (op, modified))
            else if bodyCount > 1 then
              (let (props, required, newParams, modified) = mergeLoop params [] [] [] False;
                   bodySchema = [(''type'', AStr ''object''), (''properties'', AMap props)];
                   bodySchema = (if required \<noteq> [] then AList.update ''required'' (AList required) bodySchema
                                 else bodySchema);
                   merged = [(''in'', AStr ''body''), (''name'', AStr ''body''), (''schema'', AMap bodySchema)]
               in (AList.update ''parameters'' (AList (AMap merged # newParams)) op, modified))
            else (op, False)
      | _ \<Rightarrow> (op, False))"

definition isMethodKey :: "string \<Rightarrow> bool" where
  "isMethodKey method =
     (ToLower method \<in> {''get'', ''post'', ''put'', ''delete'', ''patch'', ''options'', ''head''})"

text \<open>
  The two loops over the paths and over the entries of a path item.  An iteration changes
  nothing but its own operation and the flag, so the order in which Go visits the map does not
  matter, and the model rewrites the entries where they stand.
\<close>

definition rewriteEntry :: "string \<times> any \<Rightarrow> (string \<times> any) \<times> bool" where
  "rewriteEntry e =
     (if isMethodKey (fst e) then
        (case asMap (snd e) of
           None \<Rightarrow> (e, False)
         | Some op \<Rightarrow> (let (op', m) = rewriteOp op in ((fst e, AMap op'), m)))
      else (e, False))"

definition rewritePathItem :: "string \<times> any \<Rightarrow> (string \<times> any) \<times> bool" where
  "rewritePathItem e =
     (case asMap (snd e) of
        None \<Rightarrow> (e, False)
      | Some pi \<Rightarrow>
          (let rs = map rewriteEntry pi
           in ((fst e, AMap (map fst rs)), list_ex snd rs)))"

definition rewritePaths :: "amap \<Rightarrow> amap \<times> bool" where
  "rewritePaths paths = (let rs = map rewritePathItem paths in (map fst rs, list_ex snd rs))"

text \<open>
  \<open>preprocessV2ForCompatibility\<close>: the bytes, the flag and the error.  The YAML parser and
  printer are parameters.
\<close>

definition preprocessV2ForCompatibility ::
  "(string \<Rightarrow> string + amap) \<Rightarrow> (amap \<Rightarrow> string + string) \<Rightarrow> string
     \<Rightarrow> string \<times> bool \<times> string option" where
  "preprocessV2ForCompatibility unmarshal marshal data =
     (case unmarshal data of
        Inl err \<Rightarrow> (data, False, Some err)
      | Inr doc \<Rightarrow>
         (case idx doc ''paths'' of
            AMap paths \<Rightarrow>
              if paths = [] then (data, False, None)
              else
                let (paths', modified) = rewritePaths paths in
                if \<not> modified then (data, False, None)
                else
                  (case marshal (AList.update ''paths'' (AMap paths') doc) of
                     Inl err \<Rightarrow> (data, False, Some err)
                   | Inr out \<Rightarrow> (out, True, None))
          | _ \<Rightarrow> (data, False, None)))"

section \<open>Loading a document\<close>

text \<open>
  \<open>loader.go\<close>.  A Go \<open>error\<close> of a library is modelled by its text.  Of a \<open>SpecError\<close>
  the model keeps the code and the location; the message and the JSON pointer are computed from
  them and the cause, and nothing branches on them.
\<close>

datatype ErrorCode = InputError | NetworkError | ParseError | ValidationError | ConversionError

record SpecError =
  Code :: ErrorCode
  Location :: string

text \<open>A \<open>time.Duration\<close> is an \<open>int64\<close> of nanoseconds.\<close>

type_synonym Duration = "64 word"

record Settings =
  HTTPTimeout :: Duration
  MaxRetries :: int
  BackoffBase :: Duration
  AllowFileRefs :: bool

definition DefaultSettings :: Settings where
  "DefaultSettings =
     \<lparr>HTTPTimeout = 10000000000, MaxRetries = 3, BackoffBase = 200000000, AllowFileRefs = False\<rparr>"

definition WithHTTPTimeout :: "Duration \<Rightarrow> Settings \<Rightarrow> Settings" where
  "WithHTTPTimeout d s = s\<lparr>HTTPTimeout := d\<rparr>"


definition WithBackoffBase :: "Duration \<Rightarrow> Settings \<Rightarrow> Settings" where
  "WithBackoffBase d s = s\<lparr>BackoffBase := d\<rparr>"

definition WithAllowFileRefs :: "bool \<Rightarrow> Settings \<Rightarrow> Settings" where
  "WithAllowFileRefs allow s = s\<lparr>AllowFileRefs := allow\<rparr>"

text \<open>
  What one pass of the loop of \<open>fetchWithRetry\<close> meets: \<open>http.NewRequestWithContext\<close>
  fails, \<open>client.Do\<close> fails, or there is a response with its status, its body and the error of
  reading the body, if any.
\<close>

datatype attempt =
    RequestError string
  | TransportError string
  | Response int string "string option"

datatype fetchError =
    NewRequestFailed string
  | TransportFailed string
  | TransientHTTP int
  | HTTPFailed int string
  | BodyReadFailed string
  | ContextDone
  | FetchFailed

text \<open>
  A run of \<open>fetchWithRetry\<close>: what it returns, how many passes of the loop it started, and the
  delays it handed to \<open>time.After\<close>, in order.
\<close>

record fetchRun =
  outcome :: "fetchError + string"
  attempts :: nat
  waits :: "Duration list"

definition stopped :: "fetchError + string \<Rightarrow> fetchRun" where
  "stopped r = \<lparr>outcome = r, attempts = 1, waits = []\<rparr>"

text \<open>
  The loop, by the number of passes left.  \<open>http i\<close> is what pass \<open>i\<close> meets, and \<open>done i\<close>
  tells whether the context is cancelled before the delay of pass \<open>i\<close> has elapsed (the
  \<open>select\<close>).  \<open>backoff *= 2\<close> wraps as \<open>int64\<close> does.
\<close>

fun fetchLoop ::
  "(nat \<Rightarrow> attempt) \<Rightarrow> (nat \<Rightarrow> bool) \<Rightarrow> nat \<Rightarrow> nat \<Rightarrow> Duration \<Rightarrow> fetchError option \<Rightarrow> fetchRun" where
  "fetchLoop http done 0 i backoff lastErr =
     \<lparr>outcome = Inl (case lastErr of None \<Rightarrow> FetchFailed | Some e \<Rightarrow> e), attempts = 0, waits = []\<rparr>"
| "fetchLoop http done (Suc n) i backoff lastErr =
     (case
        (case http i of
           RequestError e \<Rightarrow> Inl (Inl (NewRequestFailed e))
         | TransportError e \<Rightarrow> Inr (TransportFailed e)
         | Response status body readErr \<Rightarrow>
             if status < 300 then
               Inl (case readErr of None \<Rightarrow> Inr body | Some e \<Rightarrow> Inl (BodyReadFailed e))
             else if status \<ge> 500 \<or> status = 429 then Inr (TransientHTTP status)
             else Inl (Inl (HTTPFailed status (TrimSpace (take 1024 body)))))
      of
        Inl r \<Rightarrow> stopped r
      | Inr e \<Rightarrow>
          if done i then \<lparr>outcome = Inl ContextDone, attempts = 1, waits = [backoff]\<rparr>
          else
            (let r = fetchLoop http done n (Suc i) (backoff * 2) (Some e)
             in r\<lparr>attempts := Suc (attempts r), waits := backoff # waits r\<rparr>))"

definition fetchWithRetry :: "(nat \<Rightarrow> attempt) \<Rightarrow> (nat \<Rightarrow> bool) \<Rightarrow> Settings \<Rightarrow> fetchRun" where
  "fetchWithRetry http done settings =
     (let backoff = BackoffBase settings;
          backoff = (if backoff \<le>s 0 then 200000000 else backoff);
          attempts = MaxRetries settings;
          attempts = (if attempts \<le> 0 then 1 else attempts)
      in fetchLoop http done (nat attempts) 0 backoff None)"

definition canProceedDespiteValidation :: "string option \<Rightarrow> bool" where
  "canProceedDespiteValidation err =
     (case err of
        None \<Rightarrow> True
      | Some msg \<Rightarrow>
          (let s = ToLower msg
           in Contains s ''unresolved ref'' \<or> Contains s ''found unresolved ref''))"

definition mapValidateOrParseErr :: "string \<Rightarrow> string \<Rightarrow> SpecError" where
  "mapValidateOrParseErr err location =
     (let code = ValidationError;
          code = (if Contains (ToLower err) ''parse'' \<or> Contains (ToLower err) ''invalid character''
                  then ParseError else code)
      in \<lparr>Code = code, Location = location\<rparr>)"

text \<open>
  Everything outside the program that \<open>Load\<close> touches, as functions: the URL parser (of its
  result the program reads scheme and host), the server and the context of the fetch, the file
  system, the YAML parser and printer, and the library that loads, converts, resolves and
  validates a document of type \<^typ>\<open>'doc\<close>.
\<close>

record URL =
  Scheme :: string
  Host :: string

record 'doc world =
  url_Parse :: "string \<Rightarrow> string + URL"
  http_get :: "string \<Rightarrow> nat \<Rightarrow> attempt"
  ctx_done :: "nat \<Rightarrow> bool"
  filepath_Abs :: "string \<Rightarrow> string + string"
  os_ReadFile :: "string \<Rightarrow> string + string"
  yaml_Unmarshal :: "string \<Rightarrow> string + amap"
  yaml_Marshal :: "amap \<Rightarrow> string + string"
  LoadFromURI :: "Settings \<Rightarrow> string \<Rightarrow> string + 'doc"
  LoadFromFile :: "Settings \<Rightarrow> string \<Rightarrow> string + 'doc"
  ToV3 :: "string \<Rightarrow> string + 'doc"
  ResolveRefsIn :: "Settings \<Rightarrow> 'doc \<Rightarrow> 'doc"
  Validate :: "'doc \<Rightarrow> string option"

text \<open>
  What a successful \<open>Load\<close> leaves: the document, and the bytes it gave to
  \<open>SetV2SchemaDefinitions\<close> for it, if it did.
\<close>

record 'doc loaded =
  document :: 'doc
  v2Bytes :: "string option"

text \<open>The validation that ends each of the four branches of \<open>Load\<close>.\<close>

definition validated :: "'doc world \<Rightarrow> 'doc \<Rightarrow> string option \<Rightarrow> string \<Rightarrow> SpecError + 'doc loaded" where
  "validated w doc v2 location =
     (case Validate w doc of
        Some err \<Rightarrow>
          if \<not> canProceedDespiteValidation (Some err) then Inl (mapValidateOrParseErr err location)
          else Inr \<lparr>document = doc, v2Bytes = v2\<rparr>
      | None \<Rightarrow> Inr \<lparr>document = doc, v2Bytes = v2\<rparr>)"

definition preprocessed :: "'doc world \<Rightarrow> string \<Rightarrow> string" where
  "preprocessed w raw =
     (let (fixed, changed, err) = preprocessV2ForCompatibility (yaml_Unmarshal w) (yaml_Marshal w) raw
      in if changed then fixed else raw)"

definition Load :: "'doc world \<Rightarrow> string \<Rightarrow> (Settings \<Rightarrow> Settings) list \<Rightarrow> SpecError + 'doc loaded" where
  "Load w input opts =
     (if TrimSpace input = [] then Inl \<lparr>Code = InputError, Location = []\<rparr>
      else
        let settings = fold (\<lambda>opt s. opt s) opts DefaultSettings;
            isURL = (case url_Parse w input of Inl uerr \<Rightarrow> False | Inr u \<Rightarrow> Scheme u \<noteq> [] \<and> Host u \<noteq> [])
        in
        if isURL then
          (let scheme = ToLower (case url_Parse w input of Inr u \<Rightarrow> Scheme u | Inl uerr \<Rightarrow> []) in
           if scheme = ''file'' then Inl \<lparr>Code = InputError, Location = input\<rparr>
           else if scheme \<noteq> ''http'' \<and> scheme \<noteq> ''https'' then Inl \<lparr>Code = InputError, Location = input\<rparr>
           else
             (case outcome (fetchWithRetry (http_get w input) (ctx_done w) settings) of
                Inl fetchErr \<Rightarrow> Inl \<lparr>Code = NetworkError, Location = input\<rparr>
              | Inr raw \<Rightarrow>
                 (case detectSpecVersion (yaml_Unmarshal w) raw of
                    Inl derr \<Rightarrow> Inl \<lparr>Code = ParseError, Location = input\<rparr>
                  | Inr version \<Rightarrow>
                     if version = 3 then
                       (case LoadFromURI w settings input of
                          Inl err \<Rightarrow> Inl (mapValidateOrParseErr err input)
                        | Inr doc \<Rightarrow> validated w doc None input)
                     else if version = 2 then
                       (let raw = preprocessed w raw in
                        case ToV3 w raw of
                          Inl err \<Rightarrow> Inl \<lparr>Code = ConversionError, Location = input\<rparr>
                        | Inr v3doc \<Rightarrow> validated w (ResolveRefsIn w settings v3doc) (Some raw) input)
                     else Inl \<lparr>Code = ParseError, Location = input\<rparr>)))
        else
          (case filepath_Abs w input of
             Inl err \<Rightarrow> Inl \<lparr>Code = InputError, Location = input\<rparr>
           | Inr absPath \<Rightarrow>
              (case os_ReadFile w absPath of
                 Inl rerr \<Rightarrow> Inl \<lparr>Code = InputError, Location = absPath\<rparr>
               | Inr raw \<Rightarrow>
                  (case detectSpecVersion (yaml_Unmarshal w) raw of
                     Inl derr \<Rightarrow> Inl \<lparr>Code = ParseError, Location = absPath\<rparr>
                   | Inr version \<Rightarrow>
                      if version = 3 then
                        (case LoadFromFile w settings absPath of
                           Inl err \<Rightarrow> Inl (mapValidateOrParseErr err absPath)
                         | Inr doc \<Rightarrow> validated w doc None absPath)
                      else if version = 2 then
                        (let raw = preprocessed w raw in
                         case ToV3 w raw of
                           Inl err \<Rightarrow> Inl \<lparr>Code = ConversionError, Location = absPath\<rparr>
                         | Inr v3doc \<Rightarrow> validated w v3doc (Some raw) absPath)
                      else Inl \<lparr>Code = ParseError, Location = absPath\<rparr>))))"

section \<open>Vocabulary of the statements about loading\<close>






text \<open>
  The class of validation errors that does not stop \<open>Load\<close>, and the errors that
  \<open>mapValidateOrParseErr\<close> files under \<open>ParseError\<close>.
\<close>

definition unresolvedRef :: "string \<Rightarrow> bool" where
  "unresolvedRef msg = Contains (ToLower msg) ''unresolved ref''"

definition parseLike :: "string \<Rightarrow> bool" where
  "parseLike msg = (Contains (ToLower msg) ''parse'' \<or> Contains (ToLower msg) ''invalid character'')"

text \<open>The classification of the input, the lowered scheme and the settings, as \<open>Load\<close> computes them.\<close>

definition isURL :: "'doc world \<Rightarrow> string \<Rightarrow> bool" where
  "isURL w input = (case url_Parse w input of Inl uerr \<Rightarrow> False | Inr u \<Rightarrow> Scheme u \<noteq> [] \<and> Host u \<noteq> [])"

definition schemeOf :: "'doc world \<Rightarrow> string \<Rightarrow> string" where
  "schemeOf w input = ToLower (case url_Parse w input of Inr u \<Rightarrow> Scheme u | Inl uerr \<Rightarrow> [])"

definition settingsOf :: "(Settings \<Rightarrow> Settings) list \<Rightarrow> Settings" where
  "settingsOf opts = fold (\<lambda>opt s. opt s) opts DefaultSettings"

text \<open>What \<open>Load\<close> returns once it has reached the validation of \<open>doc\<close>.\<close>

definition afterValidation :: "'doc world \<Rightarrow> 'doc \<Rightarrow> string option \<Rightarrow> string \<Rightarrow> SpecError + 'doc loaded" where
  "afterValidation w doc v2 loc =
     (case Validate w doc of
        None \<Rightarrow> Inr \<lparr>document = doc, v2Bytes = v2\<rparr>
      | Some err \<Rightarrow>
          if unresolvedRef err then Inr \<lparr>document = doc, v2Bytes = v2\<rparr>
          else Inl \<lparr>Code = (if parseLike err then ParseError else ValidationError), Location = loc\<rparr>)"

section \<open>Sample inputs for loading\<close>

text \<open>
  A small world.  \<open>sampleParse\<close> gives the scheme and host that \<open>url.Parse\<close> finds in the
  inputs used below: \<open>file:///etc/hosts\<close> has the scheme \<open>file\<close> and an empty host.
  \<open>sampleAbs\<close> is \<open>filepath.Abs\<close> in the working directory \<open>/work\<close>, where the relative
  path \<open>file:///etc/hosts\<close> cleans to \<open>file:/etc/hosts\<close>.  Both that file and
  \<open>spec.yaml\<close> exist and hold an OpenAPI 3 document.  Every request meets \<open>a\<close>, and
  validation answers \<open>v\<close>.
\<close>

definition sampleParse :: "string \<Rightarrow> string + URL" where
  "sampleParse s =
     (if s = ''file:///etc/hosts'' then Inr \<lparr>Scheme = ''file'', Host = []\<rparr>
      else if s = ''file://localhost/etc/hosts'' then Inr \<lparr>Scheme = ''file'', Host = ''localhost''\<rparr>
      else if s = ''http://example.com/spec.yaml'' then Inr \<lparr>Scheme = ''http'', Host = ''example.com''\<rparr>
      else Inr \<lparr>Scheme = [], Host = []\<rparr>)"

definition sampleAbs :: "string \<Rightarrow> string + string" where
  "sampleAbs p = (if p = ''file:///etc/hosts'' then Inr ''/work/file:/etc/hosts'' else Inr (''/work/'' @ p))"

definition sampleRead :: "string \<Rightarrow> string + string" where
  "sampleRead p =
     (if p = ''/work/file:/etc/hosts'' \<or> p = ''/work/spec.yaml'' then Inr ''openapi: 3.0.0''
      else Inl ''no such file or directory'')"

definition sampleWorld :: "attempt \<Rightarrow> string option \<Rightarrow> string world" where
  "sampleWorld a v =
     \<lparr>url_Parse = sampleParse,
      http_get = (\<lambda>u i. a),
      ctx_done = (\<lambda>i. False),
      filepath_Abs = sampleAbs,
      os_ReadFile = sampleRead,
      yaml_Unmarshal = (\<lambda>d. Inr [(''openapi'', AStr ''3.0.0'')]),
      yaml_Marshal = (\<lambda>m. Inr []),
      LoadFromURI = (\<lambda>s u. Inr ''document''),
      LoadFromFile = (\<lambda>s p. Inr ''document''),
      ToV3 = (\<lambda>d. Inr ''document''),
      ResolveRefsIn = (\<lambda>s d. d),
      Validate = (\<lambda>d. v)\<rparr>"

text \<open>Messages of the validator: for an empty \<open>responses\<close> object, the same under the paths
  \<open>/parse\<close> and \<open>/unresolved ref\<close>, and for a reference that was not resolved.\<close>

definition emptyResponsesMsg :: string where
  "emptyResponsesMsg =
     ''invalid paths: invalid path /pet: invalid operation GET: the responses object MUST contain at least one response code''"

definition parsePathMsg :: string where
  "parsePathMsg =
     ''invalid paths: invalid path /parse: invalid operation GET: the responses object MUST contain at least one response code''"

definition unresolvedPathMsg :: string where
  "unresolvedPathMsg =
     ''invalid paths: invalid path /unresolved ref: invalid operation GET: the responses object MUST contain at least one response code''"

definition unresolvedMsg :: string where
  "unresolvedMsg = ''invalid components: schema Pet: found unresolved ref: #/components/schemas/Owner''"



section \<open>Vocabulary of the statements about preprocessing\<close>

text \<open>
  The parameters of an operation that are maps, and those among them whose \<open>in\<close> is
  \<open>body\<close>; a parameter is a body or a formData parameter when it is a map with that \<open>in\<close>.
\<close>

definition isBodyParam :: "any \<Rightarrow> bool" where
  "isBodyParam p = (case asMap p of Some pm \<Rightarrow> inBody pm | None \<Rightarrow> False)"

definition isFormDataParam :: "any \<Rightarrow> bool" where
  "isFormDataParam p = (case asMap p of Some pm \<Rightarrow> inFormData pm | None \<Rightarrow> False)"

definition mapParams :: "any list \<Rightarrow> amap list" where
  "mapParams params = concat (map (\<lambda>p. case asMap p of Some pm \<Rightarrow> [pm] | None \<Rightarrow> []) params)"

definition bodyParams :: "any list \<Rightarrow> amap list" where
  "bodyParams params = filter inBody (mapParams params)"

text \<open>A rewrite applies to a parameter list with two body parameters, or with a body and a
  formData parameter.\<close>

definition needsRewrite :: "any list \<Rightarrow> bool" where
  "needsRewrite params =
     (2 \<le> length (bodyParams params) \<or> (1 \<le> length (bodyParams params) \<and> list_ex isFormDataParam params))"

definition paramsOf :: "amap \<Rightarrow> any list" where
  "paramsOf op = (case idx op ''parameters'' of AList ps \<Rightarrow> ps | _ \<Rightarrow> [])"

text \<open>
  The operations of a document: the maps under a method key of a path item that is a map.
  \<open>opAt\<close> finds one by path and key, and \<open>noRewriteApplies\<close> says that no rewrite applies
  to any of them.
\<close>

definition operationsOf :: "amap \<Rightarrow> amap list" where
  "operationsOf paths =
     concat (map (\<lambda>e. case asMap (snd e) of
                        None \<Rightarrow> []
                      | Some pi \<Rightarrow>
                          concat (map (\<lambda>f. if isMethodKey (fst f)
                                            then (case asMap (snd f) of None \<Rightarrow> [] | Some op \<Rightarrow> [op])
                                            else []) pi)) paths)"

definition opAt :: "amap \<Rightarrow> string \<Rightarrow> string \<Rightarrow> amap option" where
  "opAt doc path method =
     (case idx doc ''paths'' of
        AMap paths \<Rightarrow>
          (case map_of paths path of
             Some (AMap pi) \<Rightarrow> (case map_of pi method of Some (AMap op) \<Rightarrow> Some op | _ \<Rightarrow> None)
           | _ \<Rightarrow> None)
      | _ \<Rightarrow> None)"

definition noRewriteApplies :: "amap \<Rightarrow> bool" where
  "noRewriteApplies doc =
     (case idx doc ''paths'' of
        AMap paths \<Rightarrow> list_all (\<lambda>op. \<not> needsRewrite (paramsOf op)) (operationsOf paths)
      | _ \<Rightarrow> True)"

text \<open>The tree that \<open>preprocessV2ForCompatibility\<close> hands to the printer.\<close>

definition rewrittenDoc :: "amap \<Rightarrow> amap" where
  "rewrittenDoc doc =
     (case idx doc ''paths'' of
        AMap paths \<Rightarrow> AList.update ''paths'' (AMap (fst (rewritePaths paths))) doc
      | _ \<Rightarrow> doc)"

text \<open>
  For the merge: the schema that a body parameter contributes, whether it is marked required,
  the properties paired with their names in the order of the parameters, the properties as the
  loop assembles them, the \<open>required\<close> list of a schema, and the merged parameter.
\<close>

definition bodySchemaOf :: "amap \<Rightarrow> any" where
  "bodySchemaOf pm = (case extractSchemaFromParam pm of None \<Rightarrow> AMap [(''type'', AStr ''string'')] | Some sch \<Rightarrow> AMap sch)"

definition isRequired :: "amap \<Rightarrow> bool" where
  "isRequired pm = (idx pm ''required'' = ABool True)"

definition propertyList :: "amap list \<Rightarrow> amap" where
  "propertyList bps = map (\<lambda>pm. (paramName pm, bodySchemaOf pm)) bps"

definition mergedProps :: "amap list \<Rightarrow> amap \<Rightarrow> amap" where
  "mergedProps bps props = fold (\<lambda>pm ps. AList.update (paramName pm) (bodySchemaOf pm) ps) bps props"

definition requiredOf :: "amap \<Rightarrow> any list" where
  "requiredOf schema = (case idx schema ''required'' of AList xs \<Rightarrow> xs | _ \<Rightarrow> [])"

definition mergedParam :: "any list \<Rightarrow> amap" where
  "mergedParam params =
     (let required = map (\<lambda>pm. AStr (paramName pm)) (filter isRequired (bodyParams params));
          bodySchema = [(''type'', AStr ''object''), (''properties'', AMap (mergedProps (bodyParams params) []))];
          bodySchema = (if required \<noteq> [] then AList.update ''required'' (AList required) bodySchema
                        else bodySchema)
      in [(''in'', AStr ''body''), (''name'', AStr ''body''), (''schema'', AMap bodySchema)])"

text \<open>For the conversion: the parameters afterwards, and the \<open>consumes\<close> list of an operation.\<close>

definition convertedParams :: "any list \<Rightarrow> any list" where
  "convertedParams params =
     map (\<lambda>pm. AMap (if inBody pm then formDataFromBodyParam pm else pm)) (mapParams params)"

definition consumesOf :: "amap \<Rightarrow> any list" where
  "consumesOf op = (case idx op ''consumes'' of AList c \<Rightarrow> c | _ \<Rightarrow> [])"

section \<open>Sample inputs for preprocessing\<close>

text \<open>
  Five operations: one with three body parameters, the last of them without a name; one with two
  body parameters that both have no name; one with a body and a formData parameter; one whose
  body parameter has a schema of type \<open>object\<close>, beside a formData parameter; and one with
  a single body parameter.  \<open>v2Doc\<close> puts an operation under \<open>post\<close> of a path.
  \<open>sampleUnmarshal\<close> parses five byte strings to these documents and fails on everything
  else, as the parser does on a YAML sequence.
\<close>

definition multiBodyOp :: amap where
  "multiBodyOp =
     [(''parameters'', AList
        [AMap [(''in'', AStr ''body''), (''name'', AStr ''a''), (''required'', ABool True),
               (''schema'', AMap [(''type'', AStr ''string'')])],
         AMap [(''in'', AStr ''body''), (''name'', AStr ''b''),
               (''schema'', AMap [(''type'', AStr ''integer'')])],
         AMap [(''in'', AStr ''body''),
               (''schema'', AMap [(''type'', AStr ''boolean'')])]]),
      (''responses'', AMap [(''200'', AMap [(''description'', AStr ''ok'')])])]"

definition namelessOp :: amap where
  "namelessOp =
     [(''parameters'', AList
        [AMap [(''in'', AStr ''body''), (''schema'', AMap [(''type'', AStr ''string'')])],
         AMap [(''in'', AStr ''body''), (''schema'', AMap [(''type'', AStr ''integer'')])]]),
      (''responses'', AMap [(''200'', AMap [(''description'', AStr ''ok'')])])]"

definition objectOp :: amap where
  "objectOp =
     [(''parameters'', AList
        [AMap [(''in'', AStr ''body''), (''name'', AStr ''meta''),
               (''schema'', AMap [(''type'', AStr ''object''),
                                  (''properties'', AMap [(''title'', AMap [(''type'', AStr ''string'')])])])],
         AMap [(''in'', AStr ''formData''), (''name'', AStr ''file''), (''type'', AStr ''file''),
               (''required'', ABool True)]]),
      (''responses'', AMap [(''200'', AMap [(''description'', AStr ''ok'')])])]"

definition mixedOp :: amap where
  "mixedOp =
     [(''parameters'', AList
        [AMap [(''in'', AStr ''body''), (''name'', AStr ''desc''),
               (''schema'', AMap [(''type'', AStr ''string'')])],
         AMap [(''in'', AStr ''formData''), (''name'', AStr ''file''), (''type'', AStr ''file''),
               (''required'', ABool True)]]),
      (''responses'', AMap [(''200'', AMap [(''description'', AStr ''ok'')])])]"

definition plainOp :: amap where
  "plainOp =
     [(''parameters'', AList
        [AMap [(''in'', AStr ''body''), (''name'', AStr ''pet''),
               (''schema'', AMap [(''$ref'', AStr ''#/definitions/Pet'')])],
         AMap [(''in'', AStr ''query''), (''name'', AStr ''dryRun''), (''type'', AStr ''boolean'')]]),
      (''responses'', AMap [(''200'', AMap [(''description'', AStr ''ok'')])])]"

definition v2Doc :: "string \<Rightarrow> amap \<Rightarrow> amap" where
  "v2Doc path op =
     [(''swagger'', AStr ''2.0''),
      (''info'', AMap [(''title'', AStr ''t''), (''version'', AStr ''1.0.0'')]),
      (''paths'', AMap [(path, AMap [(''post'', AMap op)])])]"

definition sampleUnmarshal :: "string \<Rightarrow> string + amap" where
  "sampleUnmarshal data =
     (if data = ''multi'' then Inr (v2Doc ''/x'' multiBodyOp)
      else if data = ''nameless'' then Inr (v2Doc ''/x'' namelessOp)
      else if data = ''mixed'' then Inr (v2Doc ''/upload'' mixedOp)
      else if data = ''object'' then Inr (v2Doc ''/upload'' objectOp)
      else if data = ''plain'' then Inr (v2Doc ''/pets'' plainOp)
      else Inl ''yaml: unmarshal errors: cannot unmarshal !!seq into map[string]interface {}'')"

definition sampleMarshal :: "amap \<Rightarrow> string + string" where
  "sampleMarshal doc = Inr ''rewritten''"

section \<open>The OpenAPI document and the service model\<close>

text \<open>
  The types of \<open>kin-openapi\<close> (package \<open>openapi3\<close>, version 0.116) as far as
  \<open>BuildServiceModel\<close> reads them.  A pointer is an \<^typ>\<open>'a option\<close>, \<open>nil\<close> being
  \<^const>\<open>None\<close>.  A Go map is an association list with distinct keys; a \<open>nil\<close> map or slice
  and an empty one are both the empty list (the program only asks for their length and ranges
  over them).  The field \<open>Example\<close> of type \<open>any\<close> is a document tree.
\<close>

datatype oa3_SchemaRef = oa3_SchemaRef (sr_Ref: string) (sr_Value: "oa3_Schema option")
and oa3_Schema = oa3_Schema
  (s_Type: string) (s_Description: string) (s_Format: string) (s_Example: any)
  (s_Required: "string list") (s_Enum: "any list") (s_Items: "oa3_SchemaRef option")
  (s_Properties: "(string \<times> oa3_SchemaRef option) list")
  (s_AllOf: "oa3_SchemaRef option list") (s_AnyOf: "oa3_SchemaRef option list")
  (s_OneOf: "oa3_SchemaRef option list")

record oa3_Parameter =
  p_Name :: string
  p_In :: string
  p_Required :: bool
  p_Schema :: "oa3_SchemaRef option"

record oa3_ParameterRef =
  pr_Value :: "oa3_Parameter option"

record oa3_Example =
  ex_Value :: any

record oa3_ExampleRef =
  er_Value :: "oa3_Example option"

record oa3_MediaType =
  mt_Schema :: "oa3_SchemaRef option"
  mt_Example :: any
  mt_Examples :: "(string \<times> oa3_ExampleRef option) list"

type_synonym oa3_Content = "(string \<times> oa3_MediaType option) list"

record oa3_RequestBody =
  rq_Required :: bool
  rq_Content :: oa3_Content

record oa3_RequestBodyRef =
  rqr_Value :: "oa3_RequestBody option"

record oa3_Response =
  r_Description :: "string option"
  r_Content :: oa3_Content

record oa3_ResponseRef =
  rr_Value :: "oa3_Response option"

record oa3_Operation =
  o_Tags :: "string list"
  o_Summary :: string
  o_Description :: string
  o_Parameters :: "oa3_ParameterRef option list"
  o_RequestBody :: "oa3_RequestBodyRef option"
  o_Responses :: "(string \<times> oa3_ResponseRef option) list"

record oa3_PathItem =
  pi_Parameters :: "oa3_ParameterRef option list"
  pi_Get :: "oa3_Operation option"
  pi_Post :: "oa3_Operation option"
  pi_Put :: "oa3_Operation option"
  pi_Delete :: "oa3_Operation option"
  pi_Patch :: "oa3_Operation option"
  pi_Head :: "oa3_Operation option"
  pi_Options :: "oa3_Operation option"
  pi_Trace :: "oa3_Operation option"

record oa3_Info =
  i_Title :: string
  i_Version :: string
  i_Description :: string

record oa3_Server =
  sv_URL :: string
  sv_Description :: string

record oa3_Components =
  c_Schemas :: "(string \<times> oa3_SchemaRef option) list"

record oa3_T =
  t_Info :: "oa3_Info option"
  t_Servers :: "oa3_Server option list"
  t_Components :: "oa3_Components option"
  t_Paths :: "(string \<times> oa3_PathItem option) list"

text \<open>
  The internal model of \<open>model.go\<close>.  \<open>SchemaOrRef\<close> is a struct of two pointers of which
  the program sets exactly one; it is a sum here.  The maps \<open>Schema.Properties\<close> and
  \<open>ServiceModel.Schemas\<close> are part of the result, so they are kept in a form in which two
  equal maps are equal values: the list of the entries in the order of their keys.
\<close>

type_synonym HttpMethod = string

definition GET :: HttpMethod where "GET = ''get''"

definition POST :: HttpMethod where "POST = ''post''"

definition PUT :: HttpMethod where "PUT = ''put''"

definition DELETE :: HttpMethod where "DELETE = ''delete''"

definition PATCH :: HttpMethod where "PATCH = ''patch''"

definition HEAD :: HttpMethod where "HEAD = ''head''"

definition OPTIONS :: HttpMethod where "OPTIONS = ''options''"

definition TRACE :: HttpMethod where "TRACE = ''trace''"

datatype SchemaRef = SchemaRef (Ref: string)

datatype SchemaOrRef = IsSchema Schema | IsRef SchemaRef
and Schema = Schema
  (sch_Name: string) (sch_Type: string)
  (sch_Properties: "(string \<times> SchemaOrRef option) list")
  (sch_Required: "string list") (sch_Items: "SchemaOrRef option")
  (sch_AllOf: "SchemaOrRef option list") (sch_AnyOf: "SchemaOrRef option list")
  (sch_OneOf: "SchemaOrRef option list")
  (sch_Description: string) (sch_Enum: "any list") (sch_Format: string) (sch_Example: any)

record Server =
  srv_URL :: string
  srv_Description :: string

record ParameterModel =
  pm_Name :: string
  pm_In :: string
  pm_Required :: bool
  pm_Schema :: "SchemaOrRef option"

record Media =
  md_Mime :: string
  md_Schema :: "SchemaOrRef option"
  md_Example :: any

record RequestBodyModel =
  rb_Content :: "Media list"
  rb_Required :: bool

record ResponseModel =
  rs_Status :: string
  rs_Description :: string
  rs_Content :: "Media list"

record EndpointModel =
  ep_ID :: string
  ep_Method :: HttpMethod
  ep_Path :: string
  ep_Summary :: string
  ep_Description :: string
  ep_Tags :: "string list"
  ep_Parameters :: "ParameterModel list"
  ep_RequestBody :: "RequestBodyModel option"
  ep_Responses :: "ResponseModel list"

record ServiceModel =
  sm_Title :: string
  sm_Version :: string
  sm_Description :: string
  sm_Servers :: "Server list"
  sm_Tags :: "string list"
  sm_Endpoints :: "EndpointModel list"
  sm_Schemas :: "(string \<times> Schema) list"

section \<open>Go maps\<close>

text \<open>
  \<open>for k, v := range m\<close> visits the entries of a map in an order that Go leaves open and
  that changes from run to run.  The order is a parameter \<open>ord\<close> of every function that
  ranges over a map: for a map of \<open>n\<close> entries, \<open>ord n\<close> lists the positions of the
  entries in the order of the visit.
\<close>

definition rangeOver :: "(nat \<Rightarrow> nat list) \<Rightarrow> 'a list \<Rightarrow> 'a list" where
  "rangeOver ord xs = map (\<lambda>i. xs ! i) (ord (length xs))"

text \<open>
  \<open>m[k] = v\<close> on a map of the result: the entry is put at its place in the order of the keys,
  and replaces an entry of the same key.
\<close>

fun assign :: "string \<Rightarrow> 'v \<Rightarrow> (string \<times> 'v) list \<Rightarrow> (string \<times> 'v) list" where
  "assign k v [] = [(k, v)]"
| "assign k v (e # m) =
     (if k < fst e then (k, v) # e # m
      else if k = fst e then (k, v) # m
      else e # assign k v m)"

text \<open>
  The idiom of the program for a fixed order: collect the keys of the map, \<open>sort.Strings\<close>
  them, and read \<open>m[k]\<close> for each.  The values of these maps are pointers, and \<open>at\<close> is
  \<open>nil\<close> for an absent key as for a \<open>nil\<close> entry.
\<close>

definition sortedKeys :: "(nat \<Rightarrow> nat list) \<Rightarrow> (string \<times> 'a) list \<Rightarrow> string list" where
  "sortedKeys ord m = sort (map fst (rangeOver ord m))"

definition at :: "(string \<times> 'a option) list \<Rightarrow> string \<Rightarrow> 'a option" where
  "at m k = (case map_of m k of None \<Rightarrow> None | Some v \<Rightarrow> v)"

definition flat :: "'a option option \<Rightarrow> 'a option" where
  "flat x = (case x of None \<Rightarrow> None | Some y \<Rightarrow> y)"

section \<open>Building the service model\<close>

subsection \<open>Options\<close>

text \<open>
  The second half of \<open>v2compat.go\<close>.  The sets of tags and of methods in \<open>buildConfig\<close>
  are maps to \<open>struct{}\<close>; the program only tests their length and membership, and they are
  lists without repetition here.  A compiled regular expression is the predicate
  \<open>MatchString\<close>; \<open>regexp.Compile\<close> is the parameter \<open>compile\<close>, and the pattern
  \<open>a^$\<close> that replaces an invalid one matches nothing.
\<close>

record v2Entry =
  definitions :: amap
  operations :: "(string \<times> amap) list option"

record buildConfig =
  includeTags :: "string list"
  excludeTags :: "string list"
  methods :: "HttpMethod list"
  pathRes :: "(string \<Rightarrow> bool) list"

datatype buildError = NilDocument | Panic



definition WithMethods :: "HttpMethod list \<Rightarrow> buildConfig \<Rightarrow> buildConfig" where
  "WithMethods ms c =
     (if ms = [] then c else c\<lparr>methods := fold (\<lambda>m s. List.insert m s) ms (methods c)\<rparr>)"

definition WithPathPatterns ::
  "(string \<Rightarrow> (string \<Rightarrow> bool) option) \<Rightarrow> string list \<Rightarrow> buildConfig \<Rightarrow> buildConfig" where
  "WithPathPatterns compile patterns c =
     fold (\<lambda>p c.
             let p = TrimSpace p in
             if p = [] then c
             else
               let re = (case compile p of None \<Rightarrow> (\<lambda>s. False) | Some re \<Rightarrow> re)
               in c\<lparr>pathRes := pathRes c @ [re]\<rparr>)
          patterns c"

definition allowByTags :: "string list \<Rightarrow> buildConfig \<Rightarrow> bool" where
  "allowByTags tags cfg =
     (let hasInclude = (includeTags cfg \<noteq> []) in
      if hasInclude \<and> \<not> list_ex (\<lambda>t. t \<in> set (includeTags cfg)) tags then False
      else if excludeTags cfg \<noteq> [] \<and> list_ex (\<lambda>t. t \<in> set (excludeTags cfg)) tags then False
      else True)"

subsection \<open>Schemas\<close>

definition paramKey :: "string \<Rightarrow> string \<Rightarrow> string" where
  "paramKey i name = i @ '':'' @ name"

definition safeStr :: "string \<Rightarrow> string" where
  "safeStr s = TrimSpace s"

text \<open>
  \<open>toSchemaOrRef\<close> recurses through \<open>Items\<close>, \<open>Properties\<close> and the compositions.
  \<open>toSchemaOrRef_ref\<close> is its body for a pointer that is not \<open>nil\<close>, and
  \<open>toSchemaOrRef_value\<close> the part that builds the \<open>Schema\<close> from \<open>ref.Value\<close>.
\<close>

primrec toSchemaOrRef_ref :: "(nat \<Rightarrow> nat list) \<Rightarrow> oa3_SchemaRef \<Rightarrow> SchemaOrRef option"
  and toSchemaOrRef_value :: "(nat \<Rightarrow> nat list) \<Rightarrow> oa3_Schema \<Rightarrow> Schema" where
  "toSchemaOrRef_ref ord (oa3_SchemaRef ref val) =
     (if ref \<noteq> [] then Some (IsRef (SchemaRef ref))
      else
        (case map_option (toSchemaOrRef_value ord) val of
           None \<Rightarrow> Some (IsSchema (Schema [] ''object'' [] [] None [] [] [] [] [] [] ANil))
         | Some s \<Rightarrow> Some (IsSchema s)))"
| "toSchemaOrRef_value ord (oa3_Schema typ desc format example required enum items props allOf anyOf oneOf) =
     (let converted = map (map_prod id (map_option (toSchemaOrRef_ref ord))) props;
          keys = sort (map fst (rangeOver ord converted))
      in Schema []
        (safeStr typ)
        (fold (\<lambda>name m. assign name (flat (flat (map_of converted name))) m) keys [])
        required
        (flat (map_option (toSchemaOrRef_ref ord) items))
        (map flat (map (map_option (toSchemaOrRef_ref ord)) allOf))
        (map flat (map (map_option (toSchemaOrRef_ref ord)) anyOf))
        (map flat (map (map_option (toSchemaOrRef_ref ord)) oneOf))
        (safeStr desc) enum (safeStr format) example)"

definition toSchemaOrRef :: "(nat \<Rightarrow> nat list) \<Rightarrow> oa3_SchemaRef option \<Rightarrow> SchemaOrRef option" where
  "toSchemaOrRef ord ref = (case ref of None \<Rightarrow> None | Some r \<Rightarrow> toSchemaOrRef_ref ord r)"

definition toParameterModel :: "(nat \<Rightarrow> nat list) \<Rightarrow> oa3_ParameterRef option \<Rightarrow> ParameterModel option" where
  "toParameterModel ord pref =
     (case pref of
        None \<Rightarrow> None
      | Some r \<Rightarrow>
         (case pr_Value r of
            None \<Rightarrow> None
          | Some p \<Rightarrow>
              Some \<lparr>pm_Name = safeStr (p_Name p), pm_In = safeStr (p_In p), pm_Required = p_Required p,
                    pm_Schema = (case p_Schema p of None \<Rightarrow> None | Some s \<Rightarrow> toSchemaOrRef ord (Some s))\<rparr>))"

text \<open>
  \<open>strings.Replace(s, old, new, 1)\<close>, and \<open>toSchemaOrRefFromV2\<close>, which reads a schema of
  the Swagger v2 source from its document tree.  The Go function fills the schema field by field
  and leaves it when it meets \<open>$ref\<close>; no step before that can fail, so the model computes
  the fields first.
\<close>

fun Replace1 :: "string \<Rightarrow> string \<Rightarrow> string \<Rightarrow> string" where
  "Replace1 [] old new = (if old = [] then new else [])"
| "Replace1 (c # s) old new =
     (if HasPrefix (c # s) old then new @ drop (length old) (c # s) else c # Replace1 s old new)"

function toSchemaOrRefFromV2 :: "(nat \<Rightarrow> nat list) \<Rightarrow> any \<Rightarrow> string \<Rightarrow> SchemaOrRef option" where
  "toSchemaOrRefFromV2 ord v2Schema name =
     (case v2Schema of
        AMap schemaMap \<Rightarrow>
          (let typ = (case idx schemaMap ''type'' of AStr t \<Rightarrow> t | _ \<Rightarrow> []);
               desc = (case idx schemaMap ''description'' of AStr d \<Rightarrow> d | _ \<Rightarrow> []);
               format = (case idx schemaMap ''format'' of AStr f \<Rightarrow> f | _ \<Rightarrow> []);
               example = idx schemaMap ''example'';
               enum = (case idx schemaMap ''enum'' of AList enumVal \<Rightarrow> enumVal | _ \<Rightarrow> []);
               required =
                 (case idx schemaMap ''required'' of
                    AList reqVal \<Rightarrow> concat (map (\<lambda>r. case r of AStr s \<Rightarrow> [s] | _ \<Rightarrow> []) reqVal)
                  | _ \<Rightarrow> []);
               properties =
                 (case idx schemaMap ''properties'' of
                    AMap props \<Rightarrow>
                      fold (\<lambda>e m. case snd e of None \<Rightarrow> m | Some propSchema \<Rightarrow> assign (fst e) (Some propSchema) m)
                        (rangeOver ord (map (\<lambda>e. (fst e, toSchemaOrRefFromV2 ord (snd e) [])) props))
                        []
                  | _ \<Rightarrow> []);
               items =
                 (case map_of schemaMap ''items'' of
                    Some its \<Rightarrow> toSchemaOrRefFromV2 ord its []
                  | None \<Rightarrow> None);
               allOf =
                 (case idx schemaMap ''allOf'' of
                    AList xs \<Rightarrow> filter (\<lambda>r. r \<noteq> None) (map (\<lambda>item. toSchemaOrRefFromV2 ord item []) xs)
                  | _ \<Rightarrow> []);
               anyOf =
                 (case idx schemaMap ''anyOf'' of
                    AList xs \<Rightarrow> filter (\<lambda>r. r \<noteq> None) (map (\<lambda>item. toSchemaOrRefFromV2 ord item []) xs)
                  | _ \<Rightarrow> []);
               oneOf =
                 (case idx schemaMap ''oneOf'' of
                    AList xs \<Rightarrow> filter (\<lambda>r. r \<noteq> None) (map (\<lambda>item. toSchemaOrRefFromV2 ord item []) xs)
                  | _ \<Rightarrow> [])
           in
             (case idx schemaMap ''$ref'' of
                AStr ref \<Rightarrow>
                  if HasPrefix ref ''#/definitions/''
                  then Some (IsRef (SchemaRef (Replace1 ref ''#/definitions/'' ''#/components/schemas/'')))
                  else Some (IsRef (SchemaRef ref))
              | _ \<Rightarrow>
                  Some (IsSchema (Schema name typ properties required items allOf anyOf oneOf
                                    desc enum format example))))
      | _ \<Rightarrow> None)"
  by pat_completeness auto
termination
proof -
  have size_map_of: "size v < size (AMap m)" if "map_of m k = Some v" for m :: amap and k v
    using that by (induction m) (auto split: if_splits)
  have size_in_map: "size (snd e) < size (AMap m)"
    if a: "idx m k = AMap props" "e \<in> set props" for m props :: amap and k e
  proof -
    have "size (snd e) < size (AMap props)" using a(2) by (induction props) auto
    moreover have "size (AMap props) < size (AMap m)"
      using a(1) size_map_of[of m k "AMap props"] by (simp add: idx_def split: option.splits)
    ultimately show ?thesis by simp
  qed
  have size_in_list: "size x < size (AMap m)" if a: "idx m k = AList xs" "x \<in> set xs" for m k xs x
  proof -
    have "size x < size (AList xs)" using a(2) by (induction xs) auto
    moreover have "size (AList xs) < size (AMap m)"
      using a(1) size_map_of[of m k "AList xs"] by (simp add: idx_def split: option.splits)
    ultimately show ?thesis by simp
  qed
  show ?thesis
    by (relation "measure (\<lambda>(ord, v, name). size v)")
       (auto intro: size_map_of size_in_map size_in_list simp del: any.size)
qed

declare toSchemaOrRefFromV2.simps [simp del]

definition extractV2Schemas :: "(string \<Rightarrow> string + amap) \<Rightarrow> string \<Rightarrow> amap option" where
  "extractV2Schemas unmarshal v2Raw =
     (case unmarshal v2Raw of
        Inl err \<Rightarrow> None
      | Inr doc \<Rightarrow> (case idx doc ''definitions'' of AMap defs \<Rightarrow> Some defs | _ \<Rightarrow> None))"

subsection \<open>Media types\<close>

definition exampleOf :: "(nat \<Rightarrow> nat list) \<Rightarrow> oa3_MediaType \<Rightarrow> any" where
  "exampleOf ord mt =
     (if mt_Example mt \<noteq> ANil then mt_Example mt
      else if mt_Examples mt \<noteq> [] then
        (case sortedKeys ord (mt_Examples mt) of
           [] \<Rightarrow> ANil
         | first # enames \<Rightarrow>
            (case at (mt_Examples mt) first of
               None \<Rightarrow> ANil
             | Some ref \<Rightarrow> (case er_Value ref of None \<Rightarrow> ANil | Some e \<Rightarrow> ex_Value e)))
      else ANil)"

definition toMediaList :: "(nat \<Rightarrow> nat list) \<Rightarrow> oa3_Content \<Rightarrow> Media list" where
  "toMediaList ord content =
     concat (map (\<lambda>mime.
                    case at content mime of
                      None \<Rightarrow> []
                    | Some mt \<Rightarrow>
                        [\<lparr>md_Mime = mime, md_Schema = toSchemaOrRef ord (mt_Schema mt),
                          md_Example = exampleOf ord mt\<rparr>])
                 (sortedKeys ord content))"

definition findBodyParameter :: "any \<Rightarrow> amap option" where
  "findBodyParameter operation =
     (case operation of
        AMap opMap \<Rightarrow>
          (case idx opMap ''parameters'' of
             AList params \<Rightarrow>
               (case find (\<lambda>param. case param of
                                     AMap paramMap \<Rightarrow> idx paramMap ''in'' = AStr ''body''
                                   | _ \<Rightarrow> False) params of
                  Some (AMap paramMap) \<Rightarrow> Some paramMap
                | _ \<Rightarrow> None)
           | _ \<Rightarrow> None)
      | _ \<Rightarrow> None)"

text \<open>
  In \<open>toMediaListWithV2Cache\<close> the assertion \<open>bodyParam["schema"].(map[string]any)\<close> has
  no second result: it panics when the schema is not a map.
\<close>

definition toMediaListWithV2Cache ::
  "(nat \<Rightarrow> nat list) \<Rightarrow> oa3_Content \<Rightarrow> (string \<times> amap) list \<Rightarrow> string \<Rightarrow> string
     \<Rightarrow> buildError + Media list" where
  "toMediaListWithV2Cache ord content v2Operations path method =
     (let result = toMediaList ord content in
      case result of
        [] \<Rightarrow> Inr result
      | first # rest \<Rightarrow>
         (case md_Schema first of
            None \<Rightarrow> Inr result
          | Some (IsRef r) \<Rightarrow> Inr result
          | Some (IsSchema sch) \<Rightarrow>
              if sch_Type sch \<noteq> ''object'' \<or> sch_Properties sch \<noteq> [] then Inr result
              else
                (case map_of v2Operations path of
                   None \<Rightarrow> Inr result
                 | Some pathOps \<Rightarrow>
                    (case map_of pathOps (ToLower method) of
                       None \<Rightarrow> Inr result
                     | Some methodOp \<Rightarrow>
                        if ToLower method \<noteq> ''get'' then
                          (case findBodyParameter methodOp of
                             None \<Rightarrow> Inr result
                           | Some bodyParam \<Rightarrow>
                              if idx bodyParam ''schema'' \<noteq> ANil then
                                (case idx bodyParam ''schema'' of
                                   AMap schemaRef \<Rightarrow>
                                     (case idx schemaRef ''$ref'' of
                                        AStr ref \<Rightarrow>
                                          Inr (first\<lparr>md_Schema :=
                                                 Some (IsRef (SchemaRef (''#/components/schemas/''
                                                   @ Replace1 ref ''#/definitions/'' [])))\<rparr> # rest)
                                      | _ \<Rightarrow> Inr result)
                                 | _ \<Rightarrow> Inl Panic)
                              else Inr result)
                        else Inr result))))"

definition mediaFor ::
  "(nat \<Rightarrow> nat list) \<Rightarrow> (string \<times> amap) list option \<Rightarrow> oa3_Content \<Rightarrow> string \<Rightarrow> string
     \<Rightarrow> buildError + Media list" where
  "mediaFor ord v2Ops content p m =
     (case v2Ops of
        Some ops \<Rightarrow> toMediaListWithV2Cache ord content ops p m
      | None \<Rightarrow> Inr (toMediaList ord content))"

subsection \<open>Endpoints\<close>

text \<open>
  The loops of \<open>BuildServiceModel\<close>, innermost first.  The maps \<open>baseParams\<close> and
  \<open>mergedParams\<close> are local; they are association lists in the order in which the keys were
  first assigned, and the program ranges over them, so \<open>ord\<close> applies.  \<open>collect\<close> appends
  the endpoints of the iterations of a loop and stops at the first panic.

  \<open>sort.Slice\<close> is not stable.  It is \<^const>\<open>sort_key\<close> here, on the parameters in the order
  in which the range over \<open>mergedParams\<close> delivers them: the parameters of a map have pairwise
  different \<open>(In, Name)\<close>, so that every sorting algorithm returns the same list (lemmas
  \<open>keyed_values\<close> and \<open>sort_key_perm\<close> below).
\<close>

fun assignParameters ::
  "(nat \<Rightarrow> nat list) \<Rightarrow> oa3_ParameterRef option list \<Rightarrow> (string \<times> ParameterModel) list
     \<Rightarrow> (string \<times> ParameterModel) list" where
  "assignParameters ord [] params = params"
| "assignParameters ord (pref # prefs) params =
     (case toParameterModel ord pref of
        None \<Rightarrow> assignParameters ord prefs params
      | Some pm \<Rightarrow> assignParameters ord prefs (AList.update (paramKey (pm_In pm) (pm_Name pm)) pm params))"

fun collect :: "(buildError + 'a list) list \<Rightarrow> buildError + 'a list" where
  "collect [] = Inr []"
| "collect (x # xs) =
     (case x of
        Inl e \<Rightarrow> Inl e
      | Inr ys \<Rightarrow> (case collect xs of Inl e \<Rightarrow> Inl e | Inr zs \<Rightarrow> Inr (ys @ zs)))"

definition methodOps :: "oa3_PathItem \<Rightarrow> (HttpMethod \<times> oa3_Operation option) list" where
  "methodOps item =
     [(GET, pi_Get item), (POST, pi_Post item), (PUT, pi_Put item), (DELETE, pi_Delete item),
      (PATCH, pi_Patch item), (HEAD, pi_Head item), (OPTIONS, pi_Options item), (TRACE, pi_Trace item)]"

definition requestBodyFor ::
  "(nat \<Rightarrow> nat list) \<Rightarrow> (string \<times> amap) list option \<Rightarrow> string \<Rightarrow> HttpMethod \<Rightarrow> oa3_Operation
     \<Rightarrow> buildError + RequestBodyModel option" where
  "requestBodyFor ord v2Ops p m op =
     (case o_RequestBody op of
        None \<Rightarrow> Inr None
      | Some rbr \<Rightarrow>
         (case rqr_Value rbr of
            None \<Rightarrow> Inr None
          | Some v \<Rightarrow>
             (case mediaFor ord v2Ops (rq_Content v) p m of
                Inl e \<Rightarrow> Inl e
              | Inr content \<Rightarrow> Inr (Some \<lparr>rb_Content = content, rb_Required = rq_Required v\<rparr>))))"

definition responsesFor ::
  "(nat \<Rightarrow> nat list) \<Rightarrow> (string \<times> amap) list option \<Rightarrow> string \<Rightarrow> HttpMethod \<Rightarrow> oa3_Operation
     \<Rightarrow> buildError + ResponseModel list" where
  "responsesFor ord v2Ops p m op =
     collect (map (\<lambda>code.
                     case at (o_Responses op) code of
                       None \<Rightarrow> Inr []
                     | Some rref \<Rightarrow>
                        (case rr_Value rref of
                           None \<Rightarrow> Inr []
                         | Some v \<Rightarrow>
                            (case mediaFor ord v2Ops (r_Content v) p m of
                               Inl e \<Rightarrow> Inl e
                             | Inr content \<Rightarrow>
                                 Inr [\<lparr>rs_Status = code,
                                       rs_Description = (case r_Description v of None \<Rightarrow> [] | Some d \<Rightarrow> d),
                                       rs_Content = content\<rparr>])))
                  (sortedKeys ord (o_Responses op)))"

definition buildEndpoint ::
  "(nat \<Rightarrow> nat list) \<Rightarrow> buildConfig \<Rightarrow> (string \<times> amap) list option \<Rightarrow> string
     \<Rightarrow> (string \<times> ParameterModel) list \<Rightarrow> HttpMethod \<Rightarrow> oa3_Operation
     \<Rightarrow> buildError + EndpointModel list" where
  "buildEndpoint ord cfg v2Ops p baseParams m op =
     (if methods cfg \<noteq> [] \<and> m \<notin> set (methods cfg) then Inr []
      else if pathRes cfg \<noteq> [] \<and> \<not> list_ex (\<lambda>re. re p) (pathRes cfg) then Inr []
      else
        let mergedParams = fold (\<lambda>kv mp. AList.update (fst kv) (snd kv) mp) (rangeOver ord baseParams) [];
            mergedParams = assignParameters ord (o_Parameters op) mergedParams;
            params = sort_key (\<lambda>pm. (pm_In pm, pm_Name pm)) (map snd (rangeOver ord mergedParams))
        in
        case requestBodyFor ord v2Ops p m op of
          Inl e \<Rightarrow> Inl e
        | Inr rb \<Rightarrow>
           (case responsesFor ord v2Ops p m op of
              Inl e \<Rightarrow> Inl e
            | Inr responses \<Rightarrow>
               (let tags = filter (\<lambda>t. t \<noteq> []) (map TrimSpace (o_Tags op)) in
                if \<not> allowByTags tags cfg then Inr []
                else Inr [\<lparr>ep_ID = m @ '' '' @ p, ep_Method = m, ep_Path = p,
                           ep_Summary = safeStr (o_Summary op), ep_Description = safeStr (o_Description op),
                           ep_Tags = tags, ep_Parameters = params, ep_RequestBody = rb,
                           ep_Responses = responses\<rparr>])))"

definition buildPathItem ::
  "(nat \<Rightarrow> nat list) \<Rightarrow> buildConfig \<Rightarrow> (string \<times> amap) list option \<Rightarrow> string \<Rightarrow> oa3_PathItem
     \<Rightarrow> buildError + EndpointModel list" where
  "buildPathItem ord cfg v2Ops p item =
     (let baseParams = assignParameters ord (pi_Parameters item) []
      in collect (map (\<lambda>pair. case snd pair of
                                 None \<Rightarrow> Inr []
                               | Some op \<Rightarrow> buildEndpoint ord cfg v2Ops p baseParams (fst pair) op)
                      (methodOps item)))"

definition buildPaths ::
  "(nat \<Rightarrow> nat list) \<Rightarrow> buildConfig \<Rightarrow> (string \<times> amap) list option
     \<Rightarrow> (string \<times> oa3_PathItem option) list \<Rightarrow> buildError + EndpointModel list" where
  "buildPaths ord cfg v2Ops paths =
     collect (map (\<lambda>p. case at paths p of
                          None \<Rightarrow> Inr []
                        | Some item \<Rightarrow> buildPathItem ord cfg v2Ops p item)
                  (sortedKeys ord paths))"

definition collectSortedTags :: "(nat \<Rightarrow> nat list) \<Rightarrow> EndpointModel list \<Rightarrow> string list" where
  "collectSortedTags ord endpoints =
     (let tagSet = fold (\<lambda>ep s. fold (\<lambda>t s. let t = TrimSpace t in if t \<noteq> [] then List.insert t s else s)
                                 (ep_Tags ep) s) endpoints []
      in if tagSet = [] then [] else sort (rangeOver ord tagSet))"

subsection \<open>The model\<close>

text \<open>
  \<open>store\<close> is the entry of the document in the global \<open>v2SchemaStorage\<close>, if there is
  one.  \<open>doc.Info\<close> is a pointer that the program dereferences without a test.
\<close>

definition named :: "string \<Rightarrow> Schema \<Rightarrow> Schema" where
  "named name s =
     (case s of Schema n t props req items allOf anyOf oneOf desc enum format example \<Rightarrow>
        Schema name t props req items allOf anyOf oneOf desc enum format example)"

definition emptySchema :: Schema where
  "emptySchema = Schema [] [] [] [] None [] [] [] [] [] [] ANil"

definition buildSchemas ::
  "(nat \<Rightarrow> nat list) \<Rightarrow> amap option \<Rightarrow> (string \<times> oa3_SchemaRef option) list \<Rightarrow> (string \<times> Schema) list" where
  "buildSchemas ord v2Schemas schemas =
     fold (\<lambda>name sm.
             case at schemas name of
               None \<Rightarrow> sm
             | Some ref \<Rightarrow>
                (let sor = (case v2Schemas of
                              None \<Rightarrow> None
                            | Some defs \<Rightarrow>
                               (case map_of defs name of
                                  None \<Rightarrow> None
                                | Some v2Schema \<Rightarrow> toSchemaOrRefFromV2 ord v2Schema name));
                     sor = (case sor of None \<Rightarrow> toSchemaOrRef ord (Some ref) | Some s \<Rightarrow> Some s)
                 in case sor of
                      None \<Rightarrow> sm
                    | Some (IsRef r) \<Rightarrow> assign name (named name emptySchema) sm
                    | Some (IsSchema schema) \<Rightarrow> assign name (named name schema) sm))
          (sortedKeys ord schemas) []"

definition emptyConfig :: buildConfig where
  "emptyConfig = \<lparr>includeTags = [], excludeTags = [], methods = [], pathRes = []\<rparr>"

definition BuildServiceModel ::
  "(nat \<Rightarrow> nat list) \<Rightarrow> (string \<Rightarrow> string + amap) \<Rightarrow> v2Entry option \<Rightarrow> oa3_T option \<Rightarrow> string option
     \<Rightarrow> (buildConfig \<Rightarrow> buildConfig) list \<Rightarrow> buildError + ServiceModel" where
  "BuildServiceModel ord unmarshal store doc v2Raw opts =
     (case doc of
        None \<Rightarrow> Inl NilDocument
      | Some d \<Rightarrow>
         (let cfg = fold (\<lambda>opt c. opt c) opts emptyConfig in
          case t_Info d of
            None \<Rightarrow> Inl Panic
          | Some info \<Rightarrow>
             (let servers = concat (map (\<lambda>s. case s of
                                               None \<Rightarrow> []
                                             | Some s \<Rightarrow> [\<lparr>srv_URL = safeStr (sv_URL s),
                                                            srv_Description = safeStr (sv_Description s)\<rparr>])
                                        (t_Servers d));
                  schemas =
                    (case t_Components d of
                       None \<Rightarrow> []
                     | Some comps \<Rightarrow>
                        (let v2Schemas = (case v2Raw of
                                            Some raw \<Rightarrow> extractV2Schemas unmarshal raw
                                          | None \<Rightarrow> map_option definitions store)
                         in buildSchemas ord v2Schemas (c_Schemas comps)));
                  v2Ops = (case store of None \<Rightarrow> None | Some e \<Rightarrow> operations e)
              in case buildPaths ord cfg v2Ops (t_Paths d) of
                   Inl e \<Rightarrow> Inl e
                 | Inr endpoints \<Rightarrow>
                     Inr \<lparr>sm_Title = safeStr (i_Title info), sm_Version = safeStr (i_Version info),
                          sm_Description = safeStr (i_Description info), sm_Servers = servers,
                          sm_Tags = collectSortedTags ord endpoints, sm_Endpoints = endpoints,
                          sm_Schemas = schemas\<rparr>)))"

section \<open>Vocabulary of the statements about the service model\<close>

text \<open>
  An order of iteration is admissible when it visits every entry once.  \<open>listOrder\<close> visits
  the entries as they are stored.
\<close>

definition isOrder :: "(nat \<Rightarrow> nat list) \<Rightarrow> bool" where
  "isOrder ord = (\<forall>n. mset (ord n) = mset [0..<n])"

definition listOrder :: "nat \<Rightarrow> nat list" where
  "listOrder n = [0..<n]"

text \<open>
  The invariant of a Go map on a document tree, and on the v2 definitions that the build
  consults: no key twice.
\<close>

fun wfAny :: "any \<Rightarrow> bool" where
  "wfAny (AMap m) = (distinct (map fst m) \<and> (\<forall>e \<in> set m. wfAny (snd e)))"
| "wfAny (AList xs) = (\<forall>x \<in> set xs. wfAny x)"
| "wfAny v = True"

definition v2SchemasOf :: "(string \<Rightarrow> string + amap) \<Rightarrow> v2Entry option \<Rightarrow> string option \<Rightarrow> amap option" where
  "v2SchemasOf unmarshal store v2Raw =
     (case v2Raw of
        Some raw \<Rightarrow> extractV2Schemas unmarshal raw
      | None \<Rightarrow> map_option definitions store)"

definition wfDefinitions :: "amap option \<Rightarrow> bool" where
  "wfDefinitions v2Schemas = (case v2Schemas of None \<Rightarrow> True | Some defs \<Rightarrow> wfAny (AMap defs))"

definition v2OpsOf :: "v2Entry option \<Rightarrow> (string \<times> amap) list option" where
  "v2OpsOf store = (case store of None \<Rightarrow> None | Some e \<Rightarrow> operations e)"

definition pathsOf :: "oa3_T option \<Rightarrow> (string \<times> oa3_PathItem option) list" where
  "pathsOf doc = (case doc of None \<Rightarrow> [] | Some d \<Rightarrow> t_Paths d)"

definition configOf :: "(buildConfig \<Rightarrow> buildConfig) list \<Rightarrow> buildConfig" where
  "configOf opts = fold (\<lambda>opt c. opt c) opts emptyConfig"


definition cleanTags :: "string list \<Rightarrow> string list" where
  "cleanTags tags = filter (\<lambda>t. t \<noteq> []) (map TrimSpace tags)"


definition storeProp :: "string \<times> SchemaOrRef option \<Rightarrow> (string \<times> SchemaOrRef option) list
    \<Rightarrow> (string \<times> SchemaOrRef option) list" where
  "storeProp e m = (case snd e of None \<Rightarrow> m | Some propSchema \<Rightarrow> assign (fst e) (Some propSchema) m)"

definition canonical :: "(string \<times> 'v) list \<Rightarrow> bool" where
  "canonical m = (sorted (map fst m) \<and> distinct (map fst m))"

text \<open>
  \<open>keyed\<close> is the invariant of \<open>baseParams\<close> and \<open>mergedParams\<close>: every parameter is
  stored under the key made of its own \<open>In\<close> and \<open>Name\<close>.
\<close>

definition keyed :: "(string \<times> ParameterModel) list \<Rightarrow> bool" where
  "keyed m = (distinct (map fst m) \<and> (\<forall>e \<in> set m. fst e = paramKey (pm_In (snd e)) (pm_Name (snd e))))"

definition inName :: "ParameterModel \<Rightarrow> string \<times> string" where
  "inName pm = (pm_In pm, pm_Name pm)"

definition mergedParameters ::
  "(nat \<Rightarrow> nat list) \<Rightarrow> (string \<times> ParameterModel) list \<Rightarrow> oa3_Operation \<Rightarrow> ParameterModel list" where
  "mergedParameters ord baseParams op =
     sort_key (\<lambda>pm. (pm_In pm, pm_Name pm))
       (map snd (rangeOver ord (assignParameters ord (o_Parameters op)
          (fold (\<lambda>kv mp. AList.update (fst kv) (snd kv) mp) (rangeOver ord baseParams) []))))"

text \<open>
  The order of the endpoints: by path and, on the same path, by the place of the method in the
  list of \<open>ops\<close>.
\<close>

definition methodOrder :: "HttpMethod list" where
  "methodOrder = [GET, POST, PUT, DELETE, PATCH, HEAD, OPTIONS, TRACE]"

definition rank :: "HttpMethod \<Rightarrow> nat" where
  "rank m = length (takeWhile (\<lambda>x. x \<noteq> m) methodOrder)"

definition before :: "EndpointModel \<Rightarrow> EndpointModel \<Rightarrow> bool" where
  "before e e' =
     (ep_Path e < ep_Path e' \<or> (ep_Path e = ep_Path e' \<and> rank (ep_Method e) < rank (ep_Method e')))"

section \<open>Sample inputs for the service model\<close>

text \<open>
  \<open>sampleDoc\<close> is \<open>sampleSpec\<close> of \<open>normalize_test.go\<close> as \<open>kin-openapi\<close> loads it,
  and \<open>petStore\<close> the definitions of a v2 source with the same schema.  In \<open>collidingDoc\<close>
  the parameter of the path and the parameter of the operation differ in \<open>in\<close> and in
  \<open>name\<close>.
\<close>

definition intSchema :: oa3_SchemaRef where
  "intSchema = oa3_SchemaRef [] (Some (oa3_Schema ''integer'' [] [] ANil [] [] None [] [] [] []))"

definition param :: "string \<Rightarrow> string \<Rightarrow> bool \<Rightarrow> oa3_ParameterRef option" where
  "param i name req =
     Some \<lparr>pr_Value = Some \<lparr>p_Name = name, p_In = i, p_Required = req, p_Schema = Some intSchema\<rparr>\<rparr>"

definition response :: "string \<Rightarrow> oa3_Content \<Rightarrow> oa3_ResponseRef option" where
  "response desc content = Some \<lparr>rr_Value = Some \<lparr>r_Description = Some desc, r_Content = content\<rparr>\<rparr>"

definition operation ::
  "string \<Rightarrow> string list \<Rightarrow> oa3_ParameterRef option list \<Rightarrow> oa3_RequestBodyRef option
     \<Rightarrow> (string \<times> oa3_ResponseRef option) list \<Rightarrow> oa3_Operation" where
  "operation summary tags params body responses =
     \<lparr>o_Tags = tags, o_Summary = summary, o_Description = [], o_Parameters = params,
      o_RequestBody = body, o_Responses = responses\<rparr>"

definition pathItem ::
  "oa3_ParameterRef option list \<Rightarrow> oa3_Operation option \<Rightarrow> oa3_Operation option \<Rightarrow> oa3_PathItem" where
  "pathItem params get post =
     \<lparr>pi_Parameters = params, pi_Get = get, pi_Post = post, pi_Put = None, pi_Delete = None,
      pi_Patch = None, pi_Head = None, pi_Options = None, pi_Trace = None\<rparr>"

definition petRef :: oa3_SchemaRef where
  "petRef = oa3_SchemaRef ''#/components/schemas/Pet'' None"

definition jsonContent :: "oa3_SchemaRef \<Rightarrow> oa3_Content" where
  "jsonContent s = [(''application/json'', Some \<lparr>mt_Schema = Some s, mt_Example = ANil, mt_Examples = []\<rparr>)]"

definition petBody :: "oa3_RequestBodyRef option" where
  "petBody =
     Some \<lparr>rqr_Value = Some \<lparr>rq_Required = True, rq_Content =
       [(''application/json'',
         Some \<lparr>mt_Schema = Some petRef,
               mt_Example = AMap [(''id'', AInt 1), (''name'', AStr ''Fluffy'')],
               mt_Examples = []\<rparr>)]\<rparr>\<rparr>"

definition sampleDoc :: oa3_T where
  "sampleDoc =
     \<lparr>t_Info = Some \<lparr>i_Title = ''Sample API'', i_Version = ''1.0.0'', i_Description = ''Demo''\<rparr>,
      t_Servers = [],
      t_Components = Some \<lparr>c_Schemas =
        [(''Pet'', Some (oa3_SchemaRef [] (Some (oa3_Schema ''object'' [] [] ANil [''id'', ''name''] [] None
            [(''id'', Some (oa3_SchemaRef [] (Some (oa3_Schema ''integer'' [] ''int64'' ANil [] [] None [] [] [] [])))),
             (''name'', Some (oa3_SchemaRef [] (Some (oa3_Schema ''string'' [] [] ANil [] [] None [] [] [] []))))]
            [] [] []))))]\<rparr>,
      t_Paths =
        [(''/pets'', Some (pathItem [param ''query'' ''limit'' False]
            (Some (operation ''List pets'' [''read'', ''animal''] [param ''query'' ''limit'' True] None
               [(''200'', response ''ok'' (jsonContent petRef))]))
            (Some (operation ''Create pet'' [''write'', ''animal''] [] petBody
               [(''201'', response ''created'' [])])))),
         (''/admin'', Some (pathItem []
            (Some (operation ''Admin only'' [''admin''] [] None [(''200'', response ''ok'' [])]))
            None))]\<rparr>"

definition petStore :: v2Entry where
  "petStore =
     \<lparr>definitions =
        [(''Pet'', AMap [(''type'', AStr ''object''),
                         (''required'', AList [AStr ''id'', AStr ''name'']),
                         (''properties'', AMap [(''name'', AMap [(''type'', AStr ''string'')]),
                                                (''id'', AMap [(''type'', AStr ''integer''),
                                                               (''format'', AStr ''int64'')])])])],
      operations = None\<rparr>"

definition collidingDoc :: oa3_T where
  "collidingDoc =
     \<lparr>t_Info = Some \<lparr>i_Title = ''Colliding keys'', i_Version = ''1'', i_Description = []\<rparr>,
      t_Servers = [],
      t_Components = None,
      t_Paths =
        [(''/x'', Some (pathItem [param ''a'' ''b:c'' False]
            (Some (operation ''Get x'' [] [param ''a:b'' ''c'' True] None [(''200'', response ''ok'' [])]))
            None))]\<rparr>"

definition noYaml :: "string \<Rightarrow> string + amap" where
  "noYaml data = Inl ''no document''"

definition reverseOrder :: "nat \<Rightarrow> nat list" where
  "reverseOrder n = rev [0..<n]"

definition built :: "buildError + ServiceModel \<Rightarrow> bool" where
  "built r = (case r of Inl e \<Rightarrow> False | Inr sm \<Rightarrow> True)"

definition endpointsOf :: "buildError + ServiceModel \<Rightarrow> (string \<times> string) list" where
  "endpointsOf r = (case r of Inl e \<Rightarrow> [] | Inr sm \<Rightarrow> map (\<lambda>e. (ep_Path e, ep_Method e)) (sm_Endpoints sm))"


definition parametersOf :: "buildError + ServiceModel \<Rightarrow> string \<Rightarrow> (string \<times> string \<times> bool) list" where
  "parametersOf r ident =
     (case r of
        Inl e \<Rightarrow> []
      | Inr sm \<Rightarrow>
          concat (map (\<lambda>e. if ep_ID e = ident
                           then map (\<lambda>pm. (pm_In pm, pm_Name pm, pm_Required pm)) (ep_Parameters e)
                           else []) (sm_Endpoints sm)))"

section \<open>Properties of version detection\<close>

lemma asString_not_str: "\<not> isStr v \<Longrightarrow> asString v = []"
  by (cases v) (simp_all add: isStr_def asString_def)

lemma leading_Nil: "leading qs [] = None"
  by (auto simp: leading_def find_None_iff)

lemma stripLeading_Nil: "stripLeading qs [] = []"
  by (subst stripLeading.simps) (simp add: leading_Nil)

lemma TrimSpace_Nil: "TrimSpace [] = []"
  by (simp add: TrimSpace_def stripLeading_Nil)

text \<open>
  C10.  When the root map has an \<open>openapi\<close> string whose trimmed text starts with \<open>3.\<close>
  and a \<open>swagger\<close> string whose trimmed text starts with \<open>2.\<close>, the detected version is 3:
  \<open>openapi\<close> is looked at first.  A value that is not a string, under either key, is ignored:
  detection answers as it does when the key is absent, and raises no error of its own.
\<close>

theorem detectSpecVersion_openapi_first:
  "(unmarshal data = Inr root \<and>
    map_of root ''openapi'' = Some (AStr s3) \<and> HasPrefix (TrimSpace s3) ''3.'' \<and>
    map_of root ''swagger'' = Some (AStr s2) \<and> HasPrefix (TrimSpace s2) ''2.''
    \<longrightarrow> detectSpecVersion unmarshal data = Inr 3)
   \<and> (\<not> isStr v \<and> (k = ''openapi'' \<or> k = ''swagger'')
    \<longrightarrow> detectSpecVersion (\<lambda>d. Inr (AList.update k v m)) data
        = detectSpecVersion (\<lambda>d. Inr (AList.delete k m)) data)"
proof (intro conjI impI)
  assume "unmarshal data = Inr root \<and>
    map_of root ''openapi'' = Some (AStr s3) \<and> HasPrefix (TrimSpace s3) ''3.'' \<and>
    map_of root ''swagger'' = Some (AStr s2) \<and> HasPrefix (TrimSpace s2) ''2.''"
  then show "detectSpecVersion unmarshal data = Inr 3"
    by (simp add: detectSpecVersion_def asString_def)
next
  assume a: "\<not> isStr v \<and> (k = ''openapi'' \<or> k = ''swagger'')"
  then have e: "asString v = []" by (simp add: asString_not_str)
  have n: "\<not> HasPrefix [] ''3.''" "\<not> HasPrefix [] ''2.''" by (simp_all add: HasPrefix_def)
  from a have "k = ''openapi'' \<or> k = ''swagger''" by simp
  then show "detectSpecVersion (\<lambda>d. Inr (AList.update k v m)) data
          = detectSpecVersion (\<lambda>d. Inr (AList.delete k m)) data"
  proof
    assume "k = ''openapi''"
    then show ?thesis
      by (simp add: detectSpecVersion_def update_conv' delete_conv' e n TrimSpace_Nil)
  next
    assume "k = ''swagger''"
    then show ?thesis
      by (simp add: detectSpecVersion_def update_conv' delete_conv' e n TrimSpace_Nil)
  qed
qed

theorem detectSpecVersion_openapi_first_witness:
  "detectSpecVersion (\<lambda>d. Inr [(''swagger'', AStr ''2.0''), (''openapi'', AStr '' 3.0.1'')]) ''doc'' = Inr 3
   \<and> detectSpecVersion (\<lambda>d. Inr (AList.update ''openapi'' (AInt 3) [(''swagger'', AStr ''2.0'')])) ''doc''
     = detectSpecVersion (\<lambda>d. Inr (AList.delete ''openapi'' [(''swagger'', AStr ''2.0'')])) ''doc''"
proof -
  let ?root = "[(''swagger'', AStr ''2.0''), (''openapi'', AStr '' 3.0.1'')]"
  have h: "map_of ?root ''openapi'' = Some (AStr '' 3.0.1'') \<and> HasPrefix (TrimSpace '' 3.0.1'') ''3.'' \<and>
           map_of ?root ''swagger'' = Some (AStr ''2.0'') \<and> HasPrefix (TrimSpace ''2.0'') ''2.''"
    by code_simp
  have i: "\<not> isStr (AInt 3)" by (simp add: isStr_def)
  show ?thesis
    using detectSpecVersion_openapi_first
      [of "\<lambda>d. Inr ?root" "''doc''" ?root "'' 3.0.1''" "''2.0''" "AInt 3" "''openapi''"
          "[(''swagger'', AStr ''2.0'')]"] h i
    by simp
qed


section \<open>Properties of the loader\<close>

subsection \<open>Substrings\<close>

lemma Contains_iff: "Contains s sub = (\<exists>i. take (length sub) (drop i s) = sub)"
proof (induction s)
  case Nil
  then show ?case by auto
next
  case (Cons c s)
  show ?case
  proof
    assume "Contains (c # s) sub"
    then consider "HasPrefix (c # s) sub" | "Contains s sub" by auto
    then show "\<exists>i. take (length sub) (drop i (c # s)) = sub"
    proof cases
      case 1
      then have "take (length sub) (drop 0 (c # s)) = sub" by (simp add: HasPrefix_def)
      then show ?thesis by blast
    next
      case 2
      then obtain i where "take (length sub) (drop i s) = sub" using Cons.IH by blast
      then have "take (length sub) (drop (Suc i) (c # s)) = sub" by simp
      then show ?thesis by blast
    qed
  next
    assume "\<exists>i. take (length sub) (drop i (c # s)) = sub"
    then obtain i where i: "take (length sub) (drop i (c # s)) = sub" by blast
    show "Contains (c # s) sub"
    proof (cases i)
      case 0
      then show ?thesis using i by (simp add: HasPrefix_def)
    next
      case (Suc k)
      then have "take (length sub) (drop k s) = sub" using i by simp
      then show ?thesis using Cons.IH by auto
    qed
  qed
qed

lemma Contains_suffix:
  assumes "Contains s (a @ b)"
  shows "Contains s b"
proof -
  from assms obtain i where i: "take (length (a @ b)) (drop i s) = a @ b"
    by (auto simp: Contains_iff)
  then have "drop (length a) (take (length a + length b) (drop i s)) = b" by simp
  then have "take (length b) (drop (i + length a) s) = b"
    by (simp add: drop_take add.commute)
  then show ?thesis unfolding Contains_iff by blast
qed

lemma canProceed_iff: "canProceedDespiteValidation (Some msg) = unresolvedRef msg"
proof -
  have "Contains (ToLower msg) (''found '' @ ''unresolved ref'') \<Longrightarrow> Contains (ToLower msg) ''unresolved ref''"
    by (rule Contains_suffix)
  then show ?thesis by (auto simp: canProceedDespiteValidation_def unresolvedRef_def Let_def)
qed

subsection \<open>The branches of \<open>Load\<close>\<close>

lemma validated_cases:
  "validated w doc v2 loc =
     (case Validate w doc of
        None \<Rightarrow> Inr \<lparr>document = doc, v2Bytes = v2\<rparr>
      | Some err \<Rightarrow>
          if unresolvedRef err then Inr \<lparr>document = doc, v2Bytes = v2\<rparr>
          else Inl \<lparr>Code = (if parseLike err then ParseError else ValidationError), Location = loc\<rparr>)"
  by (simp add: validated_def canProceed_iff mapValidateOrParseErr_def parseLike_def Let_def split: option.splits)

lemma validated_ok:
  "validated w doc v2 loc = Inr l \<Longrightarrow> document l = doc \<and> canProceedDespiteValidation (Validate w doc)"
  by (auto simp: validated_def canProceedDespiteValidation_def split: option.splits if_splits)

lemma Load_file_v3:
  assumes "TrimSpace input \<noteq> []" "\<not> isURL w input" "filepath_Abs w input = Inr p"
    "os_ReadFile w p = Inr raw" "detectSpecVersion (yaml_Unmarshal w) raw = Inr 3"
    "LoadFromFile w (settingsOf opts) p = Inr doc"
  shows "Load w input opts = validated w doc None p"
  using assms by (simp add: Load_def isURL_def settingsOf_def Let_def)

lemma Load_url_v3:
  assumes "TrimSpace input \<noteq> []" "isURL w input" "schemeOf w input = ''http'' \<or> schemeOf w input = ''https''"
    "outcome (fetchWithRetry (http_get w input) (ctx_done w) (settingsOf opts)) = Inr raw"
    "detectSpecVersion (yaml_Unmarshal w) raw = Inr 3"
    "LoadFromURI w (settingsOf opts) input = Inr doc"
  shows "Load w input opts = validated w doc None input"
  using assms by (auto simp add: Load_def isURL_def schemeOf_def settingsOf_def Let_def)

lemma Load_file_v2:
  assumes "TrimSpace input \<noteq> []" "\<not> isURL w input" "filepath_Abs w input = Inr p"
    "os_ReadFile w p = Inr raw" "detectSpecVersion (yaml_Unmarshal w) raw = Inr 2"
    "ToV3 w (preprocessed w raw) = Inr doc"
  shows "Load w input opts = validated w doc (Some (preprocessed w raw)) p"
  using assms by (simp add: Load_def isURL_def settingsOf_def Let_def)

lemma Load_url_v2:
  assumes "TrimSpace input \<noteq> []" "isURL w input" "schemeOf w input = ''http'' \<or> schemeOf w input = ''https''"
    "outcome (fetchWithRetry (http_get w input) (ctx_done w) (settingsOf opts)) = Inr raw"
    "detectSpecVersion (yaml_Unmarshal w) raw = Inr 2"
    "ToV3 w (preprocessed w raw) = Inr doc"
  shows "Load w input opts = validated w (ResolveRefsIn w (settingsOf opts) doc) (Some (preprocessed w raw)) input"
  using assms by (auto simp add: Load_def isURL_def schemeOf_def settingsOf_def Let_def)


lemma Load_ok_validation:
  assumes "Load w input opts = Inr l"
  shows "canProceedDespiteValidation (Validate w (document l))"
proof -
  have "\<exists>doc v2 loc. validated w doc v2 loc = Inr l"
    using assms by (simp add: Load_def Let_def split: if_splits sum.splits) blast+
  then obtain doc v2 loc where "validated w doc v2 loc = Inr l" by blast
  from validated_ok[OF this] show ?thesis by simp
qed

subsection \<open>The retry loop\<close>














subsection \<open>Validation\<close>

text \<open>
  C6, as the program has it.  In each of its four branches \<open>Load\<close>, once it has a document,
  returns it when validation passes, and also when validation fails with a message that,
  lowered, contains \<open>unresolved ref\<close>.  Any other validation failure ends \<open>Load\<close> with an
  error at the location of the input; its code is \<open>ValidationError\<close>, unless the lowered
  message contains \<open>parse\<close> or \<open>invalid character\<close>, when it is \<open>ParseError\<close>.  No
  document that \<open>Load\<close> returns has a validation failure outside that class.
\<close>

theorem Load_validation_policy:
  "(TrimSpace input \<noteq> [] \<and> \<not> isURL w input \<and> filepath_Abs w input = Inr p \<and> os_ReadFile w p = Inr raw \<longrightarrow>
      (detectSpecVersion (yaml_Unmarshal w) raw = Inr 3 \<and> LoadFromFile w (settingsOf opts) p = Inr doc
         \<longrightarrow> Load w input opts = afterValidation w doc None p) \<and>
      (detectSpecVersion (yaml_Unmarshal w) raw = Inr 2 \<and> ToV3 w (preprocessed w raw) = Inr doc
         \<longrightarrow> Load w input opts = afterValidation w doc (Some (preprocessed w raw)) p))
   \<and> (TrimSpace input \<noteq> [] \<and> isURL w input \<and> (schemeOf w input = ''http'' \<or> schemeOf w input = ''https'') \<and>
       outcome (fetchWithRetry (http_get w input) (ctx_done w) (settingsOf opts)) = Inr raw \<longrightarrow>
      (detectSpecVersion (yaml_Unmarshal w) raw = Inr 3 \<and> LoadFromURI w (settingsOf opts) input = Inr doc
         \<longrightarrow> Load w input opts = afterValidation w doc None input) \<and>
      (detectSpecVersion (yaml_Unmarshal w) raw = Inr 2 \<and> ToV3 w (preprocessed w raw) = Inr doc
         \<longrightarrow> Load w input opts
             = afterValidation w (ResolveRefsIn w (settingsOf opts) doc) (Some (preprocessed w raw)) input))
   \<and> (Load w input opts = Inr l \<longrightarrow>
        Validate w (document l) = None \<or> (\<exists>err. Validate w (document l) = Some err \<and> unresolvedRef err))"
proof -
  have av: "\<And>d v2 loc. afterValidation w d v2 loc = validated w d v2 loc"
    by (simp add: afterValidation_def validated_cases)
  have last: "Load w input opts = Inr l \<longrightarrow>
        Validate w (document l) = None \<or> (\<exists>err. Validate w (document l) = Some err \<and> unresolvedRef err)"
  proof
    assume "Load w input opts = Inr l"
    from Load_ok_validation[OF this] show
      "Validate w (document l) = None \<or> (\<exists>err. Validate w (document l) = Some err \<and> unresolvedRef err)"
      by (cases "Validate w (document l)") (simp_all add: canProceed_iff)
  qed
  show ?thesis
    unfolding av
    using Load_file_v3[of input w p raw opts doc] Load_file_v2[of input w p raw doc opts]
      Load_url_v3[of input w opts raw doc] Load_url_v2[of input w opts raw doc] last
    by blast
qed

text \<open>
  The two cases that the claim names, with the messages that the validator gives for them: a
  document whose only failure is a reference that was not resolved is returned, and one with an
  empty \<open>responses\<close> object under the path \<open>/pet\<close> ends in a \<open>ValidationError\<close>.
\<close>

theorem Load_validation_policy_witness:
  "Load (sampleWorld (TransportError ''refused'') (Some unresolvedMsg)) ''spec.yaml'' []
     = Inr \<lparr>document = ''document'', v2Bytes = None\<rparr>
   \<and> Load (sampleWorld (TransportError ''refused'') (Some emptyResponsesMsg)) ''spec.yaml'' []
     = Inl \<lparr>Code = ValidationError, Location = ''/work/spec.yaml''\<rparr>"
proof -
  let ?a = "TransportError ''refused''"
  have h: "TrimSpace ''spec.yaml'' \<noteq> [] \<and> \<not> isURL (sampleWorld ?a v) ''spec.yaml'' \<and>
      filepath_Abs (sampleWorld ?a v) ''spec.yaml'' = Inr ''/work/spec.yaml'' \<and>
      os_ReadFile (sampleWorld ?a v) ''/work/spec.yaml'' = Inr ''openapi: 3.0.0'' \<and>
      detectSpecVersion (yaml_Unmarshal (sampleWorld ?a v)) ''openapi: 3.0.0'' = Inr 3 \<and>
      LoadFromFile (sampleWorld ?a v) (settingsOf []) ''/work/spec.yaml'' = Inr ''document''" for v
    by code_simp
  have m: "unresolvedRef unresolvedMsg" "\<not> unresolvedRef emptyResponsesMsg" "\<not> parseLike emptyResponsesMsg"
    by code_simp+
  have v: "Validate (sampleWorld ?a v) d = v" for v d by (simp add: sampleWorld_def)
  show ?thesis
    using Load_validation_policy[of "''spec.yaml''" "sampleWorld ?a (Some unresolvedMsg)" "''/work/spec.yaml''"
        "''openapi: 3.0.0''" "[]" "''document''"]
      Load_validation_policy[of "''spec.yaml''" "sampleWorld ?a (Some emptyResponsesMsg)" "''/work/spec.yaml''"
        "''openapi: 3.0.0''" "[]" "''document''"]
      h[of "Some unresolvedMsg"] h[of "Some emptyResponsesMsg"] m
    by (simp add: afterValidation_def v)
qed

text \<open>
  C6, as stated, fails: the program decides on the text of the validator's message, and the
  message names the path.  For the path \<open>/parse\<close> the failure of an empty \<open>responses\<close>
  object, which is not of the unresolved reference class, ends \<open>Load\<close> with a
  \<open>ParseError\<close>; and for the path \<open>/unresolved ref\<close> the same failure does not end
  \<open>Load\<close>, which returns the document.
\<close>

theorem Load_validation_counterexample:
  "Validate (sampleWorld (TransportError ''refused'') (Some parsePathMsg)) ''document'' = Some parsePathMsg
   \<and> \<not> canProceedDespiteValidation (Some parsePathMsg)
   \<and> Load (sampleWorld (TransportError ''refused'') (Some parsePathMsg)) ''spec.yaml'' []
       = Inl \<lparr>Code = ParseError, Location = ''/work/spec.yaml''\<rparr>
   \<and> Validate (sampleWorld (TransportError ''refused'') (Some unresolvedPathMsg)) ''document''
       = Some unresolvedPathMsg
   \<and> Load (sampleWorld (TransportError ''refused'') (Some unresolvedPathMsg)) ''spec.yaml'' []
       = Inr \<lparr>document = ''document'', v2Bytes = None\<rparr>"
  by code_simp

subsection \<open>Inputs with the scheme \<open>file\<close>\<close>

text \<open>
  C8.  \<open>Load\<close> refuses an input only when the parsed URL has a scheme and a host.  The input
  \<open>file:///etc/hosts\<close> has no host, so it is read as a path relative to the working
  directory; where such a file exists, \<open>Load\<close> returns its document.
\<close>

theorem Load_file_url_read:
  "Load (sampleWorld (TransportError ''refused'') None) ''file:///etc/hosts'' []
     = Inr \<lparr>document = ''document'', v2Bytes = None\<rparr>"
  by code_simp



section \<open>Properties of the preprocessing\<close>

lemma not_both: "inBody pm \<Longrightarrow> \<not> inFormData pm"
  by (auto simp: inBody_def inFormData_def EqualFold_def dest!: arg_cong[where f=length])

lemma idx_update: "idx (AList.update k v m) k' = (if k' = k then v else idx m k')"
  by (simp add: idx_def update_conv')

lemma countLoop_eq:
  "countLoop ps c f = (c + length (bodyParams ps), f \<or> list_ex isFormDataParam ps)"
proof (induction ps arbitrary: c f)
  case Nil
  then show ?case by (simp add: bodyParams_def mapParams_def)
next
  case (Cons p ps)
  show ?case
  proof (cases "asMap p")
    case None
    then show ?thesis using Cons.IH by (simp add: bodyParams_def mapParams_def isFormDataParam_def)
  next
    case (Some pm)
    then show ?thesis using Cons.IH not_both[of pm]
      by (auto simp: bodyParams_def mapParams_def isFormDataParam_def)
  qed
qed

lemma convertLoop_eq:
  "convertLoop ps acc m =
     (acc @ map (\<lambda>pm. AMap (if inBody pm then formDataFromBodyParam pm else pm)) (mapParams ps),
      m \<or> bodyParams ps \<noteq> [])"
proof (induction ps arbitrary: acc m)
  case Nil
  then show ?case by (simp add: bodyParams_def mapParams_def)
next
  case (Cons p ps)
  show ?case
    by (cases "asMap p") (auto simp: Cons.IH bodyParams_def mapParams_def)
qed

lemma mergeLoop_eq:
  "mergeLoop ps props req new m =
     (mergedProps (bodyParams ps) props,
      req @ map (\<lambda>pm. AStr (paramName pm)) (filter isRequired (bodyParams ps)),
      new @ filter (\<lambda>p. asMap p \<noteq> None \<and> \<not> isBodyParam p) ps,
      m \<or> bodyParams ps \<noteq> [])"
proof (induction ps arbitrary: props req new m)
  case Nil
  then show ?case by (simp add: bodyParams_def mapParams_def mergedProps_def)
next
  case (Cons p ps)
  show ?case
  proof (cases "asMap p")
    case None
    then show ?thesis by (simp add: Cons.IH bodyParams_def mapParams_def isBodyParam_def)
  next
    case (Some pm)
    show ?thesis
    proof (cases "inBody pm")
      case True
      then show ?thesis using Some
        by (cases "idx pm ''required''")
           (auto simp: Cons.IH bodyParams_def mapParams_def isBodyParam_def mergedProps_def Let_def
              bodySchemaOf_def isRequired_def split: option.splits)
    next
      case False
      then show ?thesis using Some
        by (simp add: Cons.IH bodyParams_def mapParams_def isBodyParam_def)
    qed
  qed
qed

lemma map_of_mergedProps:
  "map_of (mergedProps bps props) = map_of (rev (propertyList bps) @ props)"
proof (induction bps arbitrary: props)
  case Nil
  then show ?case by (simp add: mergedProps_def propertyList_def)
next
  case (Cons pm bps)
  have "map_of (mergedProps (pm # bps) props)
      = map_of (rev (propertyList bps) @ AList.update (paramName pm) (bodySchemaOf pm) props)"
    using Cons.IH[of "AList.update (paramName pm) (bodySchemaOf pm) props"]
    by (simp add: mergedProps_def)
  also have "\<dots> = map_of (rev (propertyList (pm # bps)) @ props)"
    by (simp add: propertyList_def map_of_append update_conv' map_add_upd_left fun_eq_iff map_add_def)
  finally show ?case .
qed

lemma distinct_mergedProps:
  "distinct (map fst props) \<Longrightarrow> distinct (map fst (mergedProps bps props))"
  by (induction bps arbitrary: props) (simp_all add: mergedProps_def distinct_update)

lemma keys_mergedProps:
  "fst ` set (mergedProps bps []) = paramName ` set bps"
proof -
  have "fst ` set (mergedProps bps []) = dom (map_of (mergedProps bps []))"
    by (simp add: dom_map_of_conv_image_fst)
  also have "\<dots> = dom (map_of (rev (propertyList bps)))"
    by (simp add: map_of_mergedProps)
  also have "\<dots> = paramName ` set bps"
    by (simp add: dom_map_of_conv_image_fst propertyList_def image_image)
  finally show ?thesis .
qed

lemma length_mergedProps:
  assumes "distinct (map paramName bps)"
  shows "length (mergedProps bps []) = length bps"
proof -
  have d: "distinct (map fst (mergedProps bps []))" by (simp add: distinct_mergedProps)
  have "set (map fst (mergedProps bps [])) = set (map paramName bps)"
    using keys_mergedProps[of bps] by simp
  then have "card (set (map fst (mergedProps bps []))) = card (set (map paramName bps))" by simp
  then show ?thesis using d assms by (simp add: distinct_card del: set_map)
qed

lemma rewriteOp_merge:
  assumes "idx op ''parameters'' = AList params" "2 \<le> length (bodyParams params)"
    "\<not> list_ex isFormDataParam params"
  shows "rewriteOp op =
     (AList.update ''parameters''
        (AList (AMap (mergedParam params) # filter (\<lambda>p. asMap p \<noteq> None \<and> \<not> isBodyParam p) params)) op,
      True)"
proof -
  have ne: "params \<noteq> []" "bodyParams params \<noteq> []" using assms(2) by (auto simp: bodyParams_def mapParams_def)
  show ?thesis
    using assms ne
    by (simp add: rewriteOp_def countLoop_eq mergeLoop_eq mergedParam_def Let_def)
qed

lemma rewriteOp_mixed:
  assumes "idx op ''parameters'' = AList params" "1 \<le> length (bodyParams params)"
    "list_ex isFormDataParam params"
  shows "rewriteOp op =
     (let op' = AList.update ''parameters''
                  (AList (map (\<lambda>pm. AMap (if inBody pm then formDataFromBodyParam pm else pm)) (mapParams params))) op;
          consumes = (case idx op ''consumes'' of AList c \<Rightarrow> c | _ \<Rightarrow> [])
      in (if \<not> containsString consumes ''multipart/form-data''
          then AList.update ''consumes'' (AList (consumes @ [AStr ''multipart/form-data''])) op'
          else op', True))"
proof -
  have ne: "params \<noteq> []" "bodyParams params \<noteq> []" using assms(2) by (auto simp: bodyParams_def mapParams_def)
  show ?thesis
    using assms ne
    by (simp add: rewriteOp_def countLoop_eq convertLoop_eq Let_def idx_update)
qed

lemma rewriteOp_unchanged:
  assumes "\<not> needsRewrite (paramsOf op)"
  shows "rewriteOp op = (op, False)"
proof (cases "idx op ''parameters''")
  case (AList params)
  then show ?thesis using assms
    by (auto simp: rewriteOp_def countLoop_eq needsRewrite_def paramsOf_def Let_def not_le less_Suc_eq)
qed (simp_all add: rewriteOp_def)

lemma map_of_map_keyed:
  assumes "\<And>e. fst (f e) = fst e"
  shows "map_of (map f xs) k = map_option (\<lambda>v. snd (f (k, v))) (map_of xs k)"
proof (induction xs)
  case Nil
  then show ?case by simp
next
  case (Cons x xs)
  obtain a b where x: "x = (a, b)" by (cases x)
  obtain c where c: "f (a, b) = (a, c)" using assms[of "(a, b)"] by (cases "f (a, b)") simp
  show ?case using Cons.IH x c by (cases "a = k") simp_all
qed

lemma fst_rewriteEntry: "fst (fst (rewriteEntry e)) = fst e"
  by (simp add: rewriteEntry_def split: option.splits prod.splits)

lemma fst_rewritePathItem: "fst (fst (rewritePathItem e)) = fst e"
  by (simp add: rewritePathItem_def Let_def split: option.splits)

lemma rewriteEntry_op:
  "isMethodKey k \<Longrightarrow> rewriteEntry (k, AMap op) = ((k, AMap (fst (rewriteOp op))), snd (rewriteOp op))"
  by (simp add: rewriteEntry_def asMap_def split: prod.splits)

lemma rewritePathItem_lookup:
  assumes "map_of pi k = Some (AMap op)" "isMethodKey k"
  shows "\<exists>pi'. fst (rewritePathItem (p, AMap pi)) = (p, AMap pi')
           \<and> map_of pi' k = Some (AMap (fst (rewriteOp op)))
           \<and> (snd (rewriteOp op) \<longrightarrow> snd (rewritePathItem (p, AMap pi)))"
proof -
  let ?pi' = "map fst (map rewriteEntry pi)"
  have 1: "fst (rewritePathItem (p, AMap pi)) = (p, AMap ?pi')"
    by (simp add: rewritePathItem_def asMap_def Let_def)
  have "map_of ?pi' k = map_option (\<lambda>v. snd (fst (rewriteEntry (k, v)))) (map_of pi k)"
    using map_of_map_keyed[of "\<lambda>e. fst (rewriteEntry e)" pi k] fst_rewriteEntry by (simp add: comp_def)
  then have 2: "map_of ?pi' k = Some (AMap (fst (rewriteOp op)))"
    using assms by (simp add: rewriteEntry_op)
  have "(k, AMap op) \<in> set pi" using assms(1) by (rule map_of_SomeD)
  then have 3: "snd (rewriteOp op) \<longrightarrow> list_ex snd (map rewriteEntry pi)"
    using assms(2) by (force simp: list_ex_iff rewriteEntry_op)
  then have "snd (rewriteOp op) \<longrightarrow> snd (rewritePathItem (p, AMap pi))"
    by (simp add: rewritePathItem_def asMap_def Let_def)
  with 1 2 show ?thesis by blast
qed

lemma rewritePaths_lookup:
  assumes "map_of paths p = Some (AMap pi)" "map_of pi k = Some (AMap op)" "isMethodKey k"
  shows "\<exists>pi'. map_of (fst (rewritePaths paths)) p = Some (AMap pi')
           \<and> map_of pi' k = Some (AMap (fst (rewriteOp op)))
           \<and> (snd (rewriteOp op) \<longrightarrow> snd (rewritePaths paths))"
proof -
  from rewritePathItem_lookup[OF assms(2,3), of p] obtain pi' where
    pi': "fst (rewritePathItem (p, AMap pi)) = (p, AMap pi')"
      "map_of pi' k = Some (AMap (fst (rewriteOp op)))"
      "snd (rewriteOp op) \<longrightarrow> snd (rewritePathItem (p, AMap pi))" by blast
  have "map_of (fst (rewritePaths paths)) p
      = map_option (\<lambda>v. snd (fst (rewritePathItem (p, v)))) (map_of paths p)"
    using map_of_map_keyed[of "\<lambda>e. fst (rewritePathItem e)" paths p] fst_rewritePathItem
    by (simp add: rewritePaths_def Let_def comp_def)
  then have 1: "map_of (fst (rewritePaths paths)) p = Some (AMap pi')"
    using assms(1) pi'(1) by simp
  have "(p, AMap pi) \<in> set paths" using assms(1) by (rule map_of_SomeD)
  then have "snd (rewriteOp op) \<longrightarrow> snd (rewritePaths paths)"
    using pi'(3) by (force simp: rewritePaths_def Let_def list_ex_iff)
  with 1 pi'(2) show ?thesis by blast
qed

lemma opAt_rewrittenDoc:
  assumes "opAt doc path method = Some op" "isMethodKey method"
  shows "opAt (rewrittenDoc doc) path method = Some (fst (rewriteOp op))"
proof -
  from assms(1) obtain paths pi where
    d: "idx doc ''paths'' = AMap paths" "map_of paths path = Some (AMap pi)"
       "map_of pi method = Some (AMap op)"
    by (auto simp: opAt_def split: any.splits option.splits)
  from rewritePaths_lookup[OF d(2,3) assms(2)] show ?thesis
    using d(1) by (auto simp: opAt_def rewrittenDoc_def idx_update)
qed

lemma preprocess_modified:
  assumes "unmarshal data = Inr doc" "opAt doc path method = Some op" "isMethodKey method"
    "snd (rewriteOp op)"
  shows "preprocessV2ForCompatibility unmarshal marshal data =
     (case marshal (rewrittenDoc doc) of
        Inl err \<Rightarrow> (data, False, Some err)
      | Inr out \<Rightarrow> (out, True, None))"
proof -
  from assms(2) obtain paths pi where
    d: "idx doc ''paths'' = AMap paths" "map_of paths path = Some (AMap pi)"
       "map_of pi method = Some (AMap op)"
    by (auto simp: opAt_def split: any.splits option.splits)
  have m: "snd (rewritePaths paths)" using rewritePaths_lookup[OF d(2,3) assms(3)] assms(4) by blast
  have ne: "paths \<noteq> []" using d(2) by auto
  show ?thesis
    using assms(1) d(1) m ne
    by (cases "rewritePaths paths") (simp add: preprocessV2ForCompatibility_def rewrittenDoc_def)
qed

lemma rewritePaths_unchanged:
  assumes "\<forall>op \<in> set (operationsOf paths). \<not> needsRewrite (paramsOf op)"
  shows "\<not> snd (rewritePaths paths)"
proof -
  have e: "\<not> snd (rewriteEntry f)" if "f \<in> set pi" "(p, AMap pi) \<in> set paths" for f pi p
  proof (cases "isMethodKey (fst f)")
    case True
    show ?thesis
    proof (cases "asMap (snd f)")
      case None
      then show ?thesis by (simp add: rewriteEntry_def)
    next
      case (Some op)
      then have "op \<in> set (operationsOf paths)"
        using that True by (force simp: operationsOf_def asMap_def)
      then have "rewriteOp op = (op, False)" using assms rewriteOp_unchanged by blast
      then show ?thesis using Some True by (simp add: rewriteEntry_def)
    qed
  next
    case False
    then show ?thesis by (simp add: rewriteEntry_def)
  qed
  have "\<not> snd (rewritePathItem e)" if "e \<in> set paths" for e
  proof (cases "snd e")
    case (AMap pi)
    then have "(fst e, AMap pi) \<in> set paths" using that by (metis prod.collapse)
    then show ?thesis using e AMap
      by (auto simp: rewritePathItem_def asMap_def Let_def list_ex_iff)
  qed (simp_all add: rewritePathItem_def asMap_def)
  then show ?thesis by (auto simp: rewritePaths_def Let_def list_ex_iff)
qed

lemma idx_description_step:
  "k \<noteq> ''description'' \<Longrightarrow>
   idx (case v of AStr desc \<Rightarrow> if desc \<noteq> [] then AList.update ''description'' (AStr desc) out else out
        | _ \<Rightarrow> out) k = idx out k"
  by (cases v) (simp_all add: idx_update)

lemma idx_required_step:
  "k \<noteq> ''required'' \<Longrightarrow>
   idx (case v of ABool req \<Rightarrow> AList.update ''required'' (ABool req) out | _ \<Rightarrow> out) k = idx out k"
  by (cases v) (simp_all add: idx_update)

lemmas fd_steps = formDataFromBodyParam_def Let_def case_prod_beta idx_update
  idx_description_step idx_required_step

lemma fd_in: "idx (formDataFromBodyParam pm) ''in'' = AStr ''formData''"
  by (simp add: fd_steps) (simp add: idx_def)

lemma fd_name: "idx (formDataFromBodyParam pm) ''name'' = AStr (paramName pm)"
  by (simp add: fd_steps) (simp add: idx_def)

lemma fd_type: "idx (formDataFromBodyParam pm) ''type'' = AStr (fst (deriveType pm))"
  by (simp add: fd_steps)

lemma fd_format:
  "idx (formDataFromBodyParam pm) ''format''
     = (if fst (snd (deriveType pm)) = [] then ANil else AStr (fst (snd (deriveType pm))))"
  by (simp add: fd_steps) (simp add: idx_def)

lemma fd_items: "idx (formDataFromBodyParam pm) ''items'' = snd (snd (deriveType pm))"
  by (simp add: fd_steps) (simp add: idx_def)

lemma deriveType_nonempty: "fst (deriveType pm) \<noteq> []"
  by (simp add: deriveType_def Let_def case_prod_beta)

lemma deriveType_schema:
  assumes "idx pm ''schema'' = AMap sch" "idx sch ''type'' = AStr t" "t \<noteq> []"
  shows "deriveType pm =
     (t, (case idx sch ''format'' of AStr f \<Rightarrow> f | _ \<Rightarrow> []),
      (case idx sch ''items'' of AMap it \<Rightarrow> AMap it | _ \<Rightarrow> ANil))"
  using assms by (simp add: deriveType_def deriveFromSchema_def Let_def)

lemma deriveType_ref:
  assumes "idx pm ''schema'' = AMap sch" "asString (idx sch ''type'') = []" "idx sch ''$ref'' \<noteq> ANil"
  shows "fst (deriveType pm) = ''string''"
  using assms by (simp add: deriveType_def deriveFromSchema_def Let_def asString_def split: any.splits)

lemma not_inBody_fd: "\<not> inBody (formDataFromBodyParam pm)"
  by (simp add: inBody_def fd_in asString_def EqualFold_def)

lemma bodyParams_converted:
  "bodyParams (map (\<lambda>pm. AMap (if inBody pm then formDataFromBodyParam pm else pm)) pms) = []"
  by (induction pms) (auto simp: bodyParams_def mapParams_def asMap_def not_inBody_fd)

lemma containsString_append: "containsString (xs @ [AStr s]) s"
  by (simp add: containsString_def)

text \<open>
  C9, as the program has it.  When the parser fails, the input bytes come back with the flag
  false and the parser's error.  When the document parses and no rewrite applies to any of its
  operations, the input bytes come back with the flag false and no error; this includes every
  shape that the loops skip.  Whenever the flag is false the bytes are the input bytes, and the
  only errors are those of the parser and of the printer.
\<close>

theorem preprocess_passthrough:
  "(unmarshal data = Inl err \<longrightarrow>
      preprocessV2ForCompatibility unmarshal marshal data = (data, False, Some err))
   \<and> (unmarshal data = Inr doc \<and> noRewriteApplies doc \<longrightarrow>
      preprocessV2ForCompatibility unmarshal marshal data = (data, False, None))
   \<and> (preprocessV2ForCompatibility unmarshal marshal data = (out, modified, e) \<longrightarrow>
        (\<not> modified \<longrightarrow> out = data) \<and>
        (\<forall>msg. e = Some msg \<longrightarrow> \<not> modified \<and> (unmarshal data = Inl msg \<or> (\<exists>d. marshal d = Inl msg))))"
proof -
  have 1: "unmarshal data = Inl err \<longrightarrow>
      preprocessV2ForCompatibility unmarshal marshal data = (data, False, Some err)"
    by (simp add: preprocessV2ForCompatibility_def)
  have 2: "preprocessV2ForCompatibility unmarshal marshal data = (data, False, None)"
    if a: "unmarshal data = Inr doc" "noRewriteApplies doc"
  proof (cases "idx doc ''paths''")
    case (AMap paths)
    then have "\<forall>op \<in> set (operationsOf paths). \<not> needsRewrite (paramsOf op)"
      using a(2) by (simp add: noRewriteApplies_def list_all_iff)
    then have "\<not> snd (rewritePaths paths)" by (rule rewritePaths_unchanged)
    then show ?thesis using a AMap
      by (cases "rewritePaths paths") (simp add: preprocessV2ForCompatibility_def)
  qed (use a in \<open>simp_all add: preprocessV2ForCompatibility_def\<close>)
  have 3: "(\<not> modified \<longrightarrow> out = data) \<and>
        (\<forall>msg. e = Some msg \<longrightarrow> \<not> modified \<and> (unmarshal data = Inl msg \<or> (\<exists>d. marshal d = Inl msg)))"
    if r: "preprocessV2ForCompatibility unmarshal marshal data = (out, modified, e)"
    using r
    by (auto simp: preprocessV2ForCompatibility_def split: sum.splits any.splits if_splits prod.splits)
  from 1 2 3 show ?thesis by blast
qed

theorem preprocess_passthrough_witness:
  "preprocessV2ForCompatibility sampleUnmarshal sampleMarshal ''plain'' = (''plain'', False, None)"
proof -
  have h: "sampleUnmarshal ''plain'' = Inr (v2Doc ''/pets'' plainOp) \<and> noRewriteApplies (v2Doc ''/pets'' plainOp)"
    by code_simp
  show ?thesis
    using preprocess_passthrough[of sampleUnmarshal "''plain''" _ sampleMarshal "v2Doc ''/pets'' plainOp"] h
    by blast
qed

text \<open>
  C9, as stated, fails: for bytes that the parser rejects, here a YAML sequence, an error is
  reported.
\<close>

theorem preprocess_reports_parse_error:
  "preprocessV2ForCompatibility sampleUnmarshal sampleMarshal ''- a''
     = (''- a'', False, Some ''yaml: unmarshal errors: cannot unmarshal !!seq into map[string]interface {}'')"
  by code_simp

lemma bodyParams_rest: "bodyParams (filter (\<lambda>p. asMap p \<noteq> None \<and> \<not> isBodyParam p) params) = []"
  by (induction params) (auto simp: bodyParams_def mapParams_def isBodyParam_def)

lemma mergedParam_fields:
  "idx (mergedParam params) ''in'' = AStr ''body''"
  "idx (mergedParam params) ''name'' = AStr ''body''"
  "\<exists>schema. idx (mergedParam params) ''schema'' = AMap schema
     \<and> idx schema ''type'' = AStr ''object''
     \<and> idx schema ''properties'' = AMap (mergedProps (bodyParams params) [])
     \<and> requiredOf schema = map (\<lambda>pm. AStr (paramName pm)) (filter isRequired (bodyParams params))"
  by (simp_all add: mergedParam_def Let_def idx_def requiredOf_def)

lemma bodyParams_merged:
  "bodyParams (AMap (mergedParam params) # filter (\<lambda>p. asMap p \<noteq> None \<and> \<not> isBodyParam p) params)
     = [mergedParam params]"
proof -
  have "inBody (mergedParam params)"
    by (simp add: inBody_def mergedParam_fields asString_def EqualFold_def)
  then show ?thesis
    using bodyParams_rest[of params] by (simp add: bodyParams_def mapParams_def asMap_def)
qed

text \<open>
  C2, as the program has it: the properties of the merged schema are a map from names, so that
  body parameters of one name, or without a name, share a property.  Take an operation of the
  document with two or more body parameters and no formData parameter, and let the printer
  succeed.  Then the result is the printed tree with the flag true, and in that tree the
  parameters of the operation are one new parameter followed by the former parameters that are
  maps and not body parameters.  The new parameter is the only body parameter; its \<open>in\<close> and
  \<open>name\<close> are \<open>body\<close>; its schema has the type \<open>object\<close>.  The names of the properties
  of the schema are the names of the former body parameters, each name once, and under a name
  stands the schema of the last body parameter of that name; there are as many properties as
  body parameters when the names differ.  The \<open>required\<close> list holds the names of the body
  parameters marked required.  The name of a parameter is the string under \<open>name\<close> when that
  is a string and not empty, and \<open>field\<close> in every other case.
\<close>

theorem preprocess_merges_body_parameters:
  assumes "unmarshal data = Inr doc" "opAt doc path method = Some op" "isMethodKey method"
    and "idx op ''parameters'' = AList params"
    and "2 \<le> length (bodyParams params)" "\<not> list_ex isFormDataParam params"
    and "marshal (rewrittenDoc doc) = Inr out"
  shows "preprocessV2ForCompatibility unmarshal marshal data = (out, True, None) \<and>
    (\<exists>merged rest schema props.
       opAt (rewrittenDoc doc) path method
         = Some (AList.update ''parameters'' (AList (AMap merged # rest)) op)
     \<and> rest = filter (\<lambda>p. asMap p \<noteq> None \<and> \<not> isBodyParam p) params
     \<and> bodyParams (AMap merged # rest) = [merged]
     \<and> idx merged ''in'' = AStr ''body'' \<and> idx merged ''name'' = AStr ''body''
     \<and> idx merged ''schema'' = AMap schema
     \<and> idx schema ''type'' = AStr ''object'' \<and> idx schema ''properties'' = AMap props
     \<and> distinct (map fst props)
     \<and> fst ` set props = paramName ` set (bodyParams params)
     \<and> map_of props = map_of (rev (propertyList (bodyParams params)))
     \<and> (distinct (map paramName (bodyParams params)) \<longrightarrow> length props = length (bodyParams params))
     \<and> requiredOf schema = map (\<lambda>pm. AStr (paramName pm)) (filter isRequired (bodyParams params)))
    \<and> (\<forall>pm. paramName pm
          = (case idx pm ''name'' of AStr name \<Rightarrow> if name = [] then ''field'' else name | _ \<Rightarrow> ''field''))"
proof -
  note rw = rewriteOp_merge[OF assms(4,5,6)]
  have m: "snd (rewriteOp op)" by (simp add: rw)
  have 1: "preprocessV2ForCompatibility unmarshal marshal data = (out, True, None)"
    using preprocess_modified[where unmarshal = unmarshal and marshal = marshal, OF assms(1,2,3) m]
      assms(7) by simp
  let ?rest = "filter (\<lambda>p. asMap p \<noteq> None \<and> \<not> isBodyParam p) params"
  let ?props = "mergedProps (bodyParams params) []"
  have 2: "opAt (rewrittenDoc doc) path method
         = Some (AList.update ''parameters'' (AList (AMap (mergedParam params) # ?rest)) op)"
    using opAt_rewrittenDoc[OF assms(2,3)] by (simp add: rw)
  obtain schema where s: "idx (mergedParam params) ''schema'' = AMap schema"
     "idx schema ''type'' = AStr ''object''"
     "idx schema ''properties'' = AMap ?props"
     "requiredOf schema = map (\<lambda>pm. AStr (paramName pm)) (filter isRequired (bodyParams params))"
    using mergedParam_fields(3)[of params] by blast
  have p: "distinct (map fst ?props)" "fst ` set ?props = paramName ` set (bodyParams params)"
    "map_of ?props = map_of (rev (propertyList (bodyParams params)))"
    "distinct (map paramName (bodyParams params)) \<longrightarrow> length ?props = length (bodyParams params)"
    by (simp_all add: distinct_mergedProps keys_mergedProps map_of_mergedProps length_mergedProps)
  have n: "\<forall>pm. paramName pm
          = (case idx pm ''name'' of AStr name \<Rightarrow> if name = [] then ''field'' else name | _ \<Rightarrow> ''field'')"
    by (simp add: paramName_def asString_def Let_def split: any.splits)
  show ?thesis
  proof (rule conjI[OF 1], rule conjI[OF _ n], rule exI[of _ "mergedParam params"], rule exI[of _ ?rest],
        rule exI[of _ schema], rule exI[of _ ?props], intro conjI)
    show "distinct (map paramName (bodyParams params)) \<longrightarrow> length ?props = length (bodyParams params)"
      by (rule p(4))
  qed (simp_all only: 2 bodyParams_merged mergedParam_fields s p(1,2,3) simp_thms)
qed

text \<open>
  An operation with three body parameters: \<open>a\<close>, marked required, \<open>b\<close>, and one without a
  name, which gives the property \<open>field\<close>.
\<close>

theorem preprocess_merges_body_parameters_witness:
  "preprocessV2ForCompatibility sampleUnmarshal sampleMarshal ''multi'' = (''rewritten'', True, None) \<and>
    (\<exists>merged rest schema props.
       opAt (rewrittenDoc (v2Doc ''/x'' multiBodyOp)) ''/x'' ''post''
         = Some (AList.update ''parameters'' (AList (AMap merged # rest)) multiBodyOp)
     \<and> rest = []
     \<and> bodyParams (AMap merged # rest) = [merged]
     \<and> idx merged ''in'' = AStr ''body'' \<and> idx merged ''name'' = AStr ''body''
     \<and> idx merged ''schema'' = AMap schema
     \<and> idx schema ''type'' = AStr ''object'' \<and> idx schema ''properties'' = AMap props
     \<and> fst ` set props = {''a'', ''b'', ''field''}
     \<and> length props = 3
     \<and> requiredOf schema = [AStr ''a''])
   \<and> paramName [(''in'', AStr ''body''), (''schema'', AMap [(''type'', AStr ''boolean'')])] = ''field''"
proof -
  let ?params = "paramsOf multiBodyOp"
  have h: "sampleUnmarshal ''multi'' = Inr (v2Doc ''/x'' multiBodyOp)"
    "opAt (v2Doc ''/x'' multiBodyOp) ''/x'' ''post'' = Some multiBodyOp"
    "isMethodKey ''post''"
    "idx multiBodyOp ''parameters'' = AList ?params"
    "2 \<le> length (bodyParams ?params)"
    "\<not> list_ex isFormDataParam ?params"
    "sampleMarshal (rewrittenDoc (v2Doc ''/x'' multiBodyOp)) = Inr ''rewritten''"
    by code_simp+
  have e: "filter (\<lambda>p. asMap p \<noteq> None \<and> \<not> isBodyParam p) ?params = []"
    "paramName ` set (bodyParams ?params) = {''a'', ''b'', ''field''}"
    "distinct (map paramName (bodyParams ?params))"
    "length (bodyParams ?params) = 3"
    "map (\<lambda>pm. AStr (paramName pm)) (filter isRequired (bodyParams ?params)) = [AStr ''a'']"
    by code_simp+
  have i: "idx [(''in'', AStr ''body''), (''schema'', AMap [(''type'', AStr ''boolean'')])] ''name'' = ANil"
    by code_simp
  from preprocess_merges_body_parameters
      [where unmarshal = sampleUnmarshal and marshal = sampleMarshal, OF h]
  obtain merged rest schema props where
    r: "preprocessV2ForCompatibility sampleUnmarshal sampleMarshal ''multi'' = (''rewritten'', True, None)"
      "opAt (rewrittenDoc (v2Doc ''/x'' multiBodyOp)) ''/x'' ''post''
         = Some (AList.update ''parameters'' (AList (AMap merged # rest)) multiBodyOp)"
      "rest = filter (\<lambda>p. asMap p \<noteq> None \<and> \<not> isBodyParam p) ?params"
      "bodyParams (AMap merged # rest) = [merged]"
      "idx merged ''in'' = AStr ''body''" "idx merged ''name'' = AStr ''body''"
      "idx merged ''schema'' = AMap schema"
      "idx schema ''type'' = AStr ''object''" "idx schema ''properties'' = AMap props"
      "fst ` set props = paramName ` set (bodyParams ?params)"
      "distinct (map paramName (bodyParams ?params)) \<longrightarrow> length props = length (bodyParams ?params)"
      "requiredOf schema = map (\<lambda>pm. AStr (paramName pm)) (filter isRequired (bodyParams ?params))"
      "\<forall>pm. paramName pm
          = (case idx pm ''name'' of AStr name \<Rightarrow> if name = [] then ''field'' else name | _ \<Rightarrow> ''field'')"
    by (elim conjE exE)
  have l: "length props = 3" using r(11) e(3,4) by simp
  have rest: "rest = []" using r(3) e(1) by simp
  have f: "paramName [(''in'', AStr ''body''), (''schema'', AMap [(''type'', AStr ''boolean'')])] = ''field''"
    using r(13)[rule_format, of "[(''in'', AStr ''body''), (''schema'', AMap [(''type'', AStr ''boolean'')])]"]
    by (simp only: i any.case)
  note r' = r(2,4)[unfolded rest]
  show ?thesis
    by (rule conjI[OF r(1)], rule conjI[OF _ f], rule exI[of _ merged], rule exI[of _ "[]"],
        rule exI[of _ schema], rule exI[of _ props], intro conjI)
       (simp_all only: r' r(5-10,12) e l simp_thms)
qed

text \<open>
  C2, as stated, fails: of two body parameters without a name, both take the property
  \<open>field\<close>, and the merged schema has one property, that of the second parameter, for two
  body parameters.
\<close>

theorem preprocess_merge_counterexample:
  "length (bodyParams (paramsOf namelessOp)) = 2
   \<and> \<not> list_ex isFormDataParam (paramsOf namelessOp)
   \<and> preprocessV2ForCompatibility sampleUnmarshal sampleMarshal ''nameless'' = (''rewritten'', True, None)
   \<and> opAt (rewrittenDoc (v2Doc ''/x'' namelessOp)) ''/x'' ''post''
       = Some [(''parameters'', AList
                 [AMap [(''in'', AStr ''body''), (''name'', AStr ''body''),
                        (''schema'', AMap [(''type'', AStr ''object''),
                                           (''properties'',
                                            AMap [(''field'', AMap [(''type'', AStr ''integer'')])])])]]),
               (''responses'', AMap [(''200'', AMap [(''description'', AStr ''ok'')])])]"
  by code_simp

lemma rewriteOp_mixed_fields:
  assumes "idx op ''parameters'' = AList params" "1 \<le> length (bodyParams params)"
    "list_ex isFormDataParam params"
  shows "snd (rewriteOp op)"
    "idx (fst (rewriteOp op)) ''parameters'' = AList (convertedParams params)"
    "containsString (consumesOf (fst (rewriteOp op))) ''multipart/form-data''"
    "\<exists>extra. consumesOf (fst (rewriteOp op)) = consumesOf op @ extra"
proof -
  note rw = rewriteOp_mixed[OF assms]
  show "snd (rewriteOp op)" by (simp add: rw Let_def)
  show "idx (fst (rewriteOp op)) ''parameters'' = AList (convertedParams params)"
    by (simp add: rw Let_def idx_update convertedParams_def)
  show "containsString (consumesOf (fst (rewriteOp op))) ''multipart/form-data''"
    by (cases "idx op ''consumes''")
       (simp_all add: rw Let_def idx_update consumesOf_def containsString_def)
  show "\<exists>extra. consumesOf (fst (rewriteOp op)) = consumesOf op @ extra"
    by (cases "idx op ''consumes''")
       (simp_all add: rw Let_def idx_update consumesOf_def)
qed

text \<open>
  The conversion.  Take an operation of the document with at least one body and at least one
  formData parameter, and let the printer succeed.  Then the result is the printed tree with the
  flag true, and in that tree the parameters of the operation are the former map parameters with
  every body parameter converted; no body parameter is left, and \<open>consumes\<close> contains
  \<open>multipart/form-data\<close>.  A converted parameter has \<open>in\<close> \<open>formData\<close>, the name of
  the original (\<open>field\<close> without one) and a type that is never empty: the type of its schema
  when that is a non-empty string, whatever it is, together with the format and the items of the
  schema, and \<open>string\<close> when the schema has no type but a \<open>$ref\<close>.
\<close>

lemma preprocess_converts_body_to_formData:
  assumes "unmarshal data = Inr doc" "opAt doc path method = Some op" "isMethodKey method"
    and "idx op ''parameters'' = AList params"
    and "1 \<le> length (bodyParams params)" "list_ex isFormDataParam params"
    and "marshal (rewrittenDoc doc) = Inr out"
  shows "preprocessV2ForCompatibility unmarshal marshal data = (out, True, None) \<and>
    (\<exists>op'. opAt (rewrittenDoc doc) path method = Some op'
       \<and> idx op' ''parameters'' = AList (convertedParams params)
       \<and> bodyParams (convertedParams params) = []
       \<and> containsString (consumesOf op') ''multipart/form-data'')
    \<and> (\<forall>pm \<in> set (bodyParams params).
         idx (formDataFromBodyParam pm) ''in'' = AStr ''formData''
       \<and> idx (formDataFromBodyParam pm) ''name'' = AStr (paramName pm)
       \<and> (\<exists>t. idx (formDataFromBodyParam pm) ''type'' = AStr t \<and> t \<noteq> [])
       \<and> (\<forall>sch t. idx pm ''schema'' = AMap sch \<and> idx sch ''type'' = AStr t \<and> t \<noteq> [] \<longrightarrow>
             idx (formDataFromBodyParam pm) ''type'' = AStr t
           \<and> idx (formDataFromBodyParam pm) ''format''
                = (case idx sch ''format'' of AStr f \<Rightarrow> if f = [] then ANil else AStr f | _ \<Rightarrow> ANil)
           \<and> idx (formDataFromBodyParam pm) ''items''
                = (case idx sch ''items'' of AMap it \<Rightarrow> AMap it | _ \<Rightarrow> ANil))
       \<and> (\<forall>sch. idx pm ''schema'' = AMap sch \<and> asString (idx sch ''type'') = [] \<and> idx sch ''$ref'' \<noteq> ANil \<longrightarrow>
             idx (formDataFromBodyParam pm) ''type'' = AStr ''string''))"
proof -
  note f = rewriteOp_mixed_fields[OF assms(4,5,6)]
  have 1: "preprocessV2ForCompatibility unmarshal marshal data = (out, True, None)"
    using preprocess_modified[where unmarshal = unmarshal and marshal = marshal, OF assms(1,2,3) f(1)]
      assms(7) by simp
  have 2: "\<exists>op'. opAt (rewrittenDoc doc) path method = Some op'
       \<and> idx op' ''parameters'' = AList (convertedParams params)
       \<and> bodyParams (convertedParams params) = []
       \<and> containsString (consumesOf op') ''multipart/form-data''"
    using opAt_rewrittenDoc[OF assms(2,3)] f(2,3) bodyParams_converted[of "mapParams params"]
    by (simp add: convertedParams_def)
  have 3: "idx (formDataFromBodyParam pm) ''in'' = AStr ''formData''
       \<and> idx (formDataFromBodyParam pm) ''name'' = AStr (paramName pm)
       \<and> (\<exists>t. idx (formDataFromBodyParam pm) ''type'' = AStr t \<and> t \<noteq> [])
       \<and> (\<forall>sch t. idx pm ''schema'' = AMap sch \<and> idx sch ''type'' = AStr t \<and> t \<noteq> [] \<longrightarrow>
             idx (formDataFromBodyParam pm) ''type'' = AStr t
           \<and> idx (formDataFromBodyParam pm) ''format''
                = (case idx sch ''format'' of AStr f \<Rightarrow> if f = [] then ANil else AStr f | _ \<Rightarrow> ANil)
           \<and> idx (formDataFromBodyParam pm) ''items''
                = (case idx sch ''items'' of AMap it \<Rightarrow> AMap it | _ \<Rightarrow> ANil))
       \<and> (\<forall>sch. idx pm ''schema'' = AMap sch \<and> asString (idx sch ''type'') = [] \<and> idx sch ''$ref'' \<noteq> ANil \<longrightarrow>
             idx (formDataFromBodyParam pm) ''type'' = AStr ''string'')" for pm
  proof (intro conjI allI impI)
    show "idx (formDataFromBodyParam pm) ''in'' = AStr ''formData''" by (rule fd_in)
    show "idx (formDataFromBodyParam pm) ''name'' = AStr (paramName pm)" by (rule fd_name)
    show "\<exists>t. idx (formDataFromBodyParam pm) ''type'' = AStr t \<and> t \<noteq> []"
      using fd_type[of pm] deriveType_nonempty[of pm] by blast
  next
    fix sch t
    assume a: "idx pm ''schema'' = AMap sch \<and> idx sch ''type'' = AStr t \<and> t \<noteq> []"
    then have d: "deriveType pm =
       (t, (case idx sch ''format'' of AStr f \<Rightarrow> f | _ \<Rightarrow> []),
        (case idx sch ''items'' of AMap it \<Rightarrow> AMap it | _ \<Rightarrow> ANil))"
      using deriveType_schema[of pm sch t] by blast
    show "idx (formDataFromBodyParam pm) ''type'' = AStr t" by (simp add: fd_type d)
    show "idx (formDataFromBodyParam pm) ''format''
                = (case idx sch ''format'' of AStr f \<Rightarrow> if f = [] then ANil else AStr f | _ \<Rightarrow> ANil)"
      by (cases "idx sch ''format''") (simp_all add: fd_format d)
    show "idx (formDataFromBodyParam pm) ''items''
                = (case idx sch ''items'' of AMap it \<Rightarrow> AMap it | _ \<Rightarrow> ANil)"
      by (simp add: fd_items d)
  next
    fix sch
    assume "idx pm ''schema'' = AMap sch \<and> asString (idx sch ''type'') = [] \<and> idx sch ''$ref'' \<noteq> ANil"
    then show "idx (formDataFromBodyParam pm) ''type'' = AStr ''string''"
      using deriveType_ref[of pm sch] by (simp add: fd_type)
  qed
  show ?thesis
  proof (rule conjI[OF 1], rule conjI[OF 2], rule ballI)
    fix pm
    show "idx (formDataFromBodyParam pm) ''in'' = AStr ''formData''
       \<and> idx (formDataFromBodyParam pm) ''name'' = AStr (paramName pm)
       \<and> (\<exists>t. idx (formDataFromBodyParam pm) ''type'' = AStr t \<and> t \<noteq> [])
       \<and> (\<forall>sch t. idx pm ''schema'' = AMap sch \<and> idx sch ''type'' = AStr t \<and> t \<noteq> [] \<longrightarrow>
             idx (formDataFromBodyParam pm) ''type'' = AStr t
           \<and> idx (formDataFromBodyParam pm) ''format''
                = (case idx sch ''format'' of AStr f \<Rightarrow> if f = [] then ANil else AStr f | _ \<Rightarrow> ANil)
           \<and> idx (formDataFromBodyParam pm) ''items''
                = (case idx sch ''items'' of AMap it \<Rightarrow> AMap it | _ \<Rightarrow> ANil))
       \<and> (\<forall>sch. idx pm ''schema'' = AMap sch \<and> asString (idx sch ''type'') = [] \<and> idx sch ''$ref'' \<noteq> ANil \<longrightarrow>
             idx (formDataFromBodyParam pm) ''type'' = AStr ''string'')"
      by (rule 3)
  qed
qed

lemma preprocess_converts_body_to_formData_sample:
  "preprocessV2ForCompatibility sampleUnmarshal sampleMarshal ''mixed'' = (''rewritten'', True, None) \<and>
    (\<exists>op'. opAt (rewrittenDoc (v2Doc ''/upload'' mixedOp)) ''/upload'' ''post'' = Some op'
       \<and> idx op' ''parameters'' = AList (convertedParams (paramsOf mixedOp))
       \<and> bodyParams (convertedParams (paramsOf mixedOp)) = []
       \<and> containsString (consumesOf op') ''multipart/form-data'')
    \<and> idx (formDataFromBodyParam (hd (bodyParams (paramsOf mixedOp)))) ''in'' = AStr ''formData''
    \<and> idx (formDataFromBodyParam (hd (bodyParams (paramsOf mixedOp)))) ''name'' = AStr ''desc''
    \<and> idx (formDataFromBodyParam (hd (bodyParams (paramsOf mixedOp)))) ''type'' = AStr ''string''"
proof -
  let ?params = "paramsOf mixedOp"
  let ?pm = "hd (bodyParams ?params)"
  have h: "sampleUnmarshal ''mixed'' = Inr (v2Doc ''/upload'' mixedOp)"
    "opAt (v2Doc ''/upload'' mixedOp) ''/upload'' ''post'' = Some mixedOp"
    "isMethodKey ''post''"
    "idx mixedOp ''parameters'' = AList ?params"
    "1 \<le> length (bodyParams ?params)"
    "list_ex isFormDataParam ?params"
    "sampleMarshal (rewrittenDoc (v2Doc ''/upload'' mixedOp)) = Inr ''rewritten''"
    by code_simp+
  have e: "?pm \<in> set (bodyParams ?params)" "paramName ?pm = ''desc''"
    "idx ?pm ''schema'' = AMap [(''type'', AStr ''string'')] \<and>
     idx [(''type'', AStr ''string'')] ''type'' = AStr ''string'' \<and> ''string'' \<noteq> []"
    by code_simp+
  note t = preprocess_converts_body_to_formData
      [where unmarshal = sampleUnmarshal and marshal = sampleMarshal, OF h]
  from t have a: "preprocessV2ForCompatibility sampleUnmarshal sampleMarshal ''mixed'' = (''rewritten'', True, None)"
    and b: "\<exists>op'. opAt (rewrittenDoc (v2Doc ''/upload'' mixedOp)) ''/upload'' ''post'' = Some op'
       \<and> idx op' ''parameters'' = AList (convertedParams (paramsOf mixedOp))
       \<and> bodyParams (convertedParams (paramsOf mixedOp)) = []
       \<and> containsString (consumesOf op') ''multipart/form-data''"
    by (rule conjunct1, rule conjunct2[THEN conjunct1])
  from t have c: "idx (formDataFromBodyParam ?pm) ''in'' = AStr ''formData''
       \<and> idx (formDataFromBodyParam ?pm) ''name'' = AStr (paramName ?pm)
       \<and> (\<forall>sch t. idx ?pm ''schema'' = AMap sch \<and> idx sch ''type'' = AStr t \<and> t \<noteq> [] \<longrightarrow>
             idx (formDataFromBodyParam ?pm) ''type'' = AStr t)"
    using e(1) by blast
  then have "idx (formDataFromBodyParam ?pm) ''type'' = AStr ''string''" using e(3) by blast
  with a b c e(2) show ?thesis by simp
qed

text \<open>
  C3.  The type of a schema is copied also when formData has no such type.  The body parameter
  \<open>meta\<close> of \<open>objectOp\<close> has a schema of type \<open>object\<close> with a property; beside the
  formData parameter \<open>file\<close> it is converted to a formData parameter of type \<open>object\<close>,
  not \<open>string\<close>.
\<close>

theorem formData_keeps_object_type:
  "preprocessV2ForCompatibility sampleUnmarshal sampleMarshal ''object'' = (''rewritten'', True, None)
   \<and> opAt (rewrittenDoc (v2Doc ''/upload'' objectOp)) ''/upload'' ''post''
       = Some [(''parameters'', AList
                 [AMap [(''in'', AStr ''formData''), (''name'', AStr ''meta''), (''type'', AStr ''object'')],
                  AMap [(''in'', AStr ''formData''), (''name'', AStr ''file''), (''type'', AStr ''file''),
                        (''required'', ABool True)]]),
               (''responses'', AMap [(''200'', AMap [(''description'', AStr ''ok'')])]),
               (''consumes'', AList [AStr ''multipart/form-data''])]"
  by code_simp

section \<open>Properties of the service model\<close>

subsection \<open>Orders of iteration\<close>

lemma isOrder_listOrder: "isOrder listOrder"
  by (simp add: isOrder_def listOrder_def)

lemma isOrder_reverseOrder: "isOrder reverseOrder"
  by (simp add: isOrder_def reverseOrder_def)

lemma rangeOver_listOrder: "rangeOver listOrder xs = xs"
  by (simp add: rangeOver_def listOrder_def map_nth)

lemma mset_rangeOver: "isOrder ord \<Longrightarrow> mset (rangeOver ord xs) = mset xs"
proof -
  assume "isOrder ord"
  then have "mset (ord (length xs)) = mset [0..<length xs]" by (simp add: isOrder_def)
  then have "mset (map ((!) xs) (ord (length xs))) = mset (map ((!) xs) [0..<length xs])"
    by (metis mset_map)
  then show ?thesis by (simp add: rangeOver_def map_nth)
qed

lemma set_rangeOver: "isOrder ord \<Longrightarrow> set (rangeOver ord xs) = set xs"
  by (metis mset_rangeOver set_mset_mset)

lemma sortedKeys_eq: "isOrder ord \<Longrightarrow> sortedKeys ord m = sort (map fst m)"
proof -
  assume "isOrder ord"
  then have "mset (map fst (rangeOver ord m)) = mset (map fst m)"
    by (simp add: mset_rangeOver)
  then show ?thesis
    unfolding sortedKeys_def by (metis properties_for_sort sorted_sort mset_sort)
qed

lemma sortedKeys_listOrder: "isOrder ord \<Longrightarrow> sortedKeys ord m = sortedKeys listOrder m"
  by (simp add: sortedKeys_eq isOrder_listOrder)

lemma sort_rangeOver: "isOrder ord \<Longrightarrow> sort (rangeOver ord xs) = sort xs"
  by (metis mset_rangeOver properties_for_sort sorted_sort mset_sort)

subsection \<open>TrimSpace\<close>

subsection \<open>Trimming\<close>






subsection \<open>The endpoints of a result\<close>


lemma collect_Inr:
  "collect xs = Inr ys \<Longrightarrow> (\<forall>x \<in> set xs. \<exists>zs. x = Inr zs) \<and> ys = concat (map projr xs)"
proof (induction xs arbitrary: ys)
  case Nil
  then show ?case by simp
next
  case (Cons x xs)
  then show ?case by (auto split: sum.splits)
qed

lemma collect_mem:
  assumes "collect xs = Inr ys" "e \<in> set ys"
  shows "\<exists>zs. Inr zs \<in> set xs \<and> e \<in> set zs"
proof -
  from collect_Inr[OF assms(1)] have a: "\<forall>x \<in> set xs. \<exists>zs. x = Inr zs" "ys = concat (map projr xs)"
    by simp_all
  from assms(2) a(2) obtain x where x: "x \<in> set xs" "e \<in> set (projr x)" by auto
  with a(1) obtain zs where "x = Inr zs" by blast
  with x show ?thesis by auto
qed

lemma collect_map_mem:
  assumes "collect (map f xs) = Inr ys" "e \<in> set ys"
  shows "\<exists>x zs. x \<in> set xs \<and> f x = Inr zs \<and> e \<in> set zs"
proof -
  from collect_mem[OF assms] obtain zs where "Inr zs \<in> set (map f xs)" "e \<in> set zs" by blast
  then show ?thesis by (metis (no_types, lifting) imageE list.set_map)
qed

lemma collect_map_concat:
  assumes "collect (map f xs) = Inr ys"
  shows "ys = concat (map (\<lambda>x. projr (f x)) xs)" "\<And>x. x \<in> set xs \<Longrightarrow> f x = Inr (projr (f x))"
proof -
  from collect_Inr[OF assms] have a: "\<forall>x \<in> set (map f xs). \<exists>zs. x = Inr zs"
    and b: "ys = concat (map projr (map f xs))" by simp_all
  show "ys = concat (map (\<lambda>x. projr (f x)) xs)" using b by (simp add: comp_def)
  fix x assume "x \<in> set xs"
  with a obtain zs where "f x = Inr zs" by auto
  then show "f x = Inr (projr (f x))" by simp
qed

lemma buildEndpoint_mem:
  assumes "buildEndpoint ord cfg v2Ops p baseParams m op = Inr eps" "e \<in> set eps"
  shows "eps = [e] \<and> ep_Path e = p \<and> ep_Method e = m \<and> ep_Tags e = cleanTags (o_Tags op)
     \<and> allowByTags (ep_Tags e) cfg
     \<and> (methods cfg \<noteq> [] \<longrightarrow> m \<in> set (methods cfg))
     \<and> (pathRes cfg \<noteq> [] \<longrightarrow> list_ex (\<lambda>re. re p) (pathRes cfg))
     \<and> responsesFor ord v2Ops p m op = Inr (ep_Responses e)
     \<and> requestBodyFor ord v2Ops p m op = Inr (ep_RequestBody e)
     \<and> ep_Parameters e = sort_key (\<lambda>pm. (pm_In pm, pm_Name pm))
          (map snd (rangeOver ord (assignParameters ord (o_Parameters op)
             (fold (\<lambda>kv mp. AList.update (fst kv) (snd kv) mp) (rangeOver ord baseParams) []))))"
  using assms
  by (auto simp: buildEndpoint_def Let_def cleanTags_def split: if_splits sum.splits)

lemma buildEndpoint_single:
  assumes "buildEndpoint ord cfg v2Ops p baseParams m op = Inr [e]"
  shows "ep_Path e = p" "ep_Method e = m" "ep_Tags e = cleanTags (o_Tags op)"
    "allowByTags (ep_Tags e) cfg"
    "responsesFor ord v2Ops p m op = Inr (ep_Responses e)"
    "requestBodyFor ord v2Ops p m op = Inr (ep_RequestBody e)"
    "ep_Parameters e = sort_key (\<lambda>pm. (pm_In pm, pm_Name pm))
          (map snd (rangeOver ord (assignParameters ord (o_Parameters op)
             (fold (\<lambda>kv mp. AList.update (fst kv) (snd kv) mp) (rangeOver ord baseParams) []))))"
  using buildEndpoint_mem[OF assms, of e] by auto

lemma buildPathItem_mem:
  assumes "buildPathItem ord cfg v2Ops p item = Inr eps" "e \<in> set eps"
  shows "\<exists>m op. (m, Some op) \<in> set (methodOps item)
     \<and> buildEndpoint ord cfg v2Ops p (assignParameters ord (pi_Parameters item) []) m op = Inr [e]"
proof -
  from collect_map_mem[OF assms[unfolded buildPathItem_def Let_def]]
  obtain zs pair where z: "pair \<in> set (methodOps item)"
    "(case snd pair of None \<Rightarrow> Inr [] | Some op \<Rightarrow>
        buildEndpoint ord cfg v2Ops p (assignParameters ord (pi_Parameters item) []) (fst pair) op) = Inr zs"
    "e \<in> set zs" by blast
  then obtain op where op: "snd pair = Some op" by (cases "snd pair") auto
  with z have b: "buildEndpoint ord cfg v2Ops p (assignParameters ord (pi_Parameters item) []) (fst pair) op = Inr zs"
    by simp
  from buildEndpoint_mem[OF b z(3)] have "zs = [e]" by simp
  with b z(1) op show ?thesis by (metis prod.collapse)
qed

lemma buildPaths_mem:
  assumes "buildPaths ord cfg v2Ops paths = Inr eps" "e \<in> set eps"
  shows "\<exists>p item m op. p \<in> set (sortedKeys ord paths) \<and> at paths p = Some item
     \<and> (m, Some op) \<in> set (methodOps item)
     \<and> buildEndpoint ord cfg v2Ops p (assignParameters ord (pi_Parameters item) []) m op = Inr [e]"
proof -
  from collect_map_mem[OF assms[unfolded buildPaths_def]]
  obtain zs p where z: "p \<in> set (sortedKeys ord paths)"
    "(case at paths p of None \<Rightarrow> Inr [] | Some item \<Rightarrow> buildPathItem ord cfg v2Ops p item) = Inr zs"
    "e \<in> set zs" by blast
  then obtain item where item: "at paths p = Some item" by (cases "at paths p") auto
  with z have "buildPathItem ord cfg v2Ops p item = Inr zs" by simp
  from buildPathItem_mem[OF this z(3)] z(1) item show ?thesis by blast
qed

lemma BuildServiceModel_Inr:
  assumes "BuildServiceModel ord unmarshal store doc v2Raw opts = Inr sm"
  shows "\<exists>d :: oa3_T. doc = Some d
     \<and> buildPaths ord (configOf opts) (v2OpsOf store) (t_Paths d) = Inr (sm_Endpoints sm)
     \<and> sm_Tags sm = collectSortedTags ord (sm_Endpoints sm)"
  using assms
  by (auto simp: BuildServiceModel_def configOf_def v2OpsOf_def Let_def split: option.splits sum.splits)

lemma built_Inr: "built r \<Longrightarrow> \<exists>sm. r = Inr sm"
  by (cases r) (simp_all add: built_def)

subsection \<open>Tags\<close>







subsection \<open>Independence of the order of iteration\<close>

lemma toSchemaOrRef_order_aux:
  assumes "isOrder ord"
  shows "toSchemaOrRef_ref ord r = toSchemaOrRef_ref listOrder r"
    and "toSchemaOrRef_value ord s = toSchemaOrRef_value listOrder s"
proof (induction r and s)
  case (oa3_SchemaRef ref val)
  then show ?case by (cases val) simp_all
next
  case (oa3_Schema ty desc format example required enum items props allOf anyOf oneOf)
  have i: "map_option (toSchemaOrRef_ref ord) items = map_option (toSchemaOrRef_ref listOrder) items"
    using oa3_Schema(1) by (cases items) simp_all
  have p: "map (map_prod id (map_option (toSchemaOrRef_ref ord))) props
         = map (map_prod id (map_option (toSchemaOrRef_ref listOrder))) props"
  proof (rule map_cong[OF refl])
    fix e assume e: "e \<in> set props"
    obtain k v where kv: "e = (k, v)" by (cases e)
    show "map_prod id (map_option (toSchemaOrRef_ref ord)) e
             = map_prod id (map_option (toSchemaOrRef_ref listOrder)) e"
    proof (cases v)
      case None
      then show ?thesis by (simp add: kv)
    next
      case (Some a)
      have "toSchemaOrRef_ref ord a = toSchemaOrRef_ref listOrder a"
        using oa3_Schema(2)[of e v a] e kv Some by simp
      then show ?thesis by (simp add: kv Some)
    qed
  qed
  have l: "map (map_option (toSchemaOrRef_ref ord)) xs = map (map_option (toSchemaOrRef_ref listOrder)) xs"
    if "\<And>x y. x \<in> set xs \<Longrightarrow> y \<in> set_option x \<Longrightarrow> toSchemaOrRef_ref ord y = toSchemaOrRef_ref listOrder y"
    for xs
  proof (rule map_cong[OF refl])
    fix x assume x: "x \<in> set xs"
    show "map_option (toSchemaOrRef_ref ord) x = map_option (toSchemaOrRef_ref listOrder) x"
    proof (cases x)
      case None
      then show ?thesis by simp
    next
      case (Some y)
      then show ?thesis using that[of x y] x by simp
    qed
  qed
  have la: "map (map_option (toSchemaOrRef_ref ord)) allOf = map (map_option (toSchemaOrRef_ref listOrder)) allOf"
    by (rule l) (rule oa3_Schema(3))
  have lb: "map (map_option (toSchemaOrRef_ref ord)) anyOf = map (map_option (toSchemaOrRef_ref listOrder)) anyOf"
    by (rule l) (rule oa3_Schema(4))
  have lc: "map (map_option (toSchemaOrRef_ref ord)) oneOf = map (map_option (toSchemaOrRef_ref listOrder)) oneOf"
    by (rule l) (rule oa3_Schema(5))
  show ?case
    unfolding toSchemaOrRef_value.simps Let_def sortedKeys_def[symmetric] i p la lb lc
      sortedKeys_listOrder[OF assms]
    by (rule refl)
qed

lemma toSchemaOrRef_order: "isOrder ord \<Longrightarrow> toSchemaOrRef ord r = toSchemaOrRef listOrder r"
  by (cases r) (simp_all add: toSchemaOrRef_def toSchemaOrRef_order_aux)

lemma toParameterModel_order: "isOrder ord \<Longrightarrow> toParameterModel ord r = toParameterModel listOrder r"
  by (simp add: toParameterModel_def toSchemaOrRef_order split: option.splits)

lemma assignParameters_order:
  "isOrder ord \<Longrightarrow> assignParameters ord prefs m = assignParameters listOrder prefs m"
  by (induction prefs arbitrary: m) (simp_all add: toParameterModel_order split: option.splits)

lemma exampleOf_order: "isOrder ord \<Longrightarrow> exampleOf ord mt = exampleOf listOrder mt"
  by (simp add: exampleOf_def sortedKeys_listOrder)

lemma toMediaList_order:
  assumes "isOrder ord"
  shows "toMediaList ord c = toMediaList listOrder c"
  unfolding toMediaList_def
  by (simp add: sortedKeys_listOrder[OF assms] toSchemaOrRef_order[OF assms] exampleOf_order[OF assms]
        cong: option.case_cong)

lemma mediaFor_order:
  assumes "isOrder ord"
  shows "mediaFor ord v2Ops c p m = mediaFor listOrder v2Ops c p m"
  by (simp add: mediaFor_def toMediaListWithV2Cache_def toMediaList_order[OF assms] split: option.splits)

lemma requestBodyFor_order:
  assumes "isOrder ord"
  shows "requestBodyFor ord v2Ops p m op = requestBodyFor listOrder v2Ops p m op"
  by (simp add: requestBodyFor_def mediaFor_order[OF assms] cong: option.case_cong)

lemma responsesFor_order:
  assumes "isOrder ord"
  shows "responsesFor ord v2Ops p m op = responsesFor listOrder v2Ops p m op"
  by (simp add: responsesFor_def mediaFor_order[OF assms] sortedKeys_listOrder[OF assms]
        cong: option.case_cong)

lemma size_map_of: "map_of m k = Some v \<Longrightarrow> size v < size (AMap m)"
  by (induction m) (auto split: if_splits)

lemma size_in_map: "idx m k = AMap props \<Longrightarrow> e \<in> set props \<Longrightarrow> size (snd e) < size (AMap m)"
proof -
  assume a: "idx m k = AMap props" "e \<in> set props"
  have "size (snd e) < size (AMap props)" using a(2) by (induction props) auto
  moreover have "size (AMap props) < size (AMap m)"
    using a(1) size_map_of[of m k "AMap props"] by (simp add: idx_def split: option.splits)
  ultimately show ?thesis by simp
qed

lemma size_in_list: "idx m k = AList xs \<Longrightarrow> x \<in> set xs \<Longrightarrow> size x < size (AMap m)"
proof -
  assume a: "idx m k = AList xs" "x \<in> set xs"
  have "size x < size (AList xs)" using a(2) by (induction xs) auto
  moreover have "size (AList xs) < size (AMap m)"
    using a(1) size_map_of[of m k "AList xs"] by (simp add: idx_def split: option.splits)
  ultimately show ?thesis by simp
qed

lemma wfAny_idx: "wfAny (AMap m) \<Longrightarrow> wfAny (idx m k)"
  by (auto simp: idx_def split: option.splits dest!: map_of_SomeD)

lemma wfAny_map_of: "wfAny (AMap m) \<Longrightarrow> map_of m k = Some v \<Longrightarrow> wfAny v"
  by (auto dest!: map_of_SomeD)

lemma map_of_assign: "map_of (assign k v m) = (map_of m)(k \<mapsto> v)"
  by (induction m) (auto simp: fun_eq_iff)

lemma set_fst_assign: "fst ` set (assign k v m) = insert k (fst ` set m)"
  by (induction m) auto

lemma canonical_assign: "canonical m \<Longrightarrow> canonical (assign k v m)"
proof (induction m)
  case Nil
  then show ?case by (simp add: canonical_def)
next
  case (Cons e m)
  then have c: "canonical m" by (simp add: canonical_def)
  show ?case
  proof (cases "k < fst e")
    case True
    then show ?thesis using Cons.prems by (auto simp: canonical_def)
  next
    case False
    show ?thesis
    proof (cases "k = fst e")
      case True
      then show ?thesis using Cons.prems by (simp add: canonical_def)
    next
      case ne: False
      with False have lt: "fst e < k" by simp
      have "canonical (assign k v m)" using Cons.IH c by simp
      then show ?thesis
        using Cons.prems lt ne False set_fst_assign[of k v m]
        by (auto simp: canonical_def simp flip: set_map)
    qed
  qed
qed

lemma canonical_unique:
  assumes "canonical xs" "canonical ys" "map_of xs = map_of ys"
  shows "xs = ys"
proof -
  have s: "set xs = set ys"
    using assms by (simp add: canonical_def map_of_inject_set[symmetric])
  then have "set (map fst xs) = set (map fst ys)" by simp
  then have k: "map fst xs = map fst ys"
    using assms(1,2) by (auto simp: canonical_def intro!: sorted_distinct_set_unique)
  have "map snd xs = map snd ys"
  proof (rule nth_equalityI)
    show "length (map snd xs) = length (map snd ys)" using k by (metis length_map)
  next
    fix i assume i: "i < length (map snd xs)"
    then have ix: "i < length xs" by simp
    then have iy: "i < length ys" using k by (metis length_map)
    have "xs ! i \<in> set xs" using ix by simp
    then have "map_of xs (fst (xs ! i)) = Some (snd (xs ! i))"
      using assms(1) by (simp add: canonical_def)
    moreover have "ys ! i \<in> set ys" using iy by simp
    then have "map_of ys (fst (ys ! i)) = Some (snd (ys ! i))"
      using assms(2) by (simp add: canonical_def)
    moreover have "fst (xs ! i) = fst (ys ! i)"
      using k ix iy by (metis nth_map)
    ultimately show "map snd xs ! i = map snd ys ! i"
      using assms(3) ix iy by simp
  qed
  with k show ?thesis by (metis zip_map_fst_snd)
qed

lemma fold_storeProp_canonical: "canonical m \<Longrightarrow> canonical (fold storeProp xs m)"
  by (induction xs arbitrary: m) (auto simp: storeProp_def canonical_assign split: option.splits)

lemma map_of_fold_storeProp:
  "distinct (map fst xs) \<Longrightarrow>
   map_of (fold storeProp xs m) = (\<lambda>k. case map_of xs k of Some (Some s) \<Rightarrow> Some (Some s) | _ \<Rightarrow> map_of m k)"
proof (induction xs arbitrary: m)
  case Nil
  then show ?case by simp
next
  case (Cons x xs)
  obtain k v where x: "x = (k, v)" by (cases x)
  have n: "map_of xs k = None" using Cons.prems x by (simp add: map_of_eq_None_iff)
  have ih: "map_of (fold storeProp (x # xs) m)
      = (\<lambda>k'. case map_of xs k' of Some (Some s) \<Rightarrow> Some (Some s) | _ \<Rightarrow> map_of (storeProp x m) k')"
    using Cons.IH[of "storeProp x m"] Cons.prems by simp
  show ?case
    unfolding ih fun_eq_iff
  proof
    fix k'
    show "(case map_of xs k' of Some (Some s) \<Rightarrow> Some (Some s) | _ \<Rightarrow> map_of (storeProp x m) k')
        = (case map_of (x # xs) k' of Some (Some s) \<Rightarrow> Some (Some s) | _ \<Rightarrow> map_of m k')"
    proof (cases "k' = k")
      case True
      then show ?thesis using n x by (cases v) (simp_all add: storeProp_def map_of_assign)
    next
      case False
      then have "map_of (storeProp x m) k' = map_of m k'"
        using x by (cases v) (simp_all add: storeProp_def map_of_assign)
      then show ?thesis using False x by (simp split: option.splits)
    qed
  qed
qed

lemma map_of_perm:
  assumes "mset xs = mset ys" "distinct (map fst xs)"
  shows "map_of xs = map_of ys"
proof -
  have d: "distinct (map fst ys)"
    using assms by (metis mset_map mset_eq_imp_distinct_iff)
  have "set xs = set ys" using assms(1) by (metis set_mset_mset)
  then show ?thesis using assms(2) d by (simp add: map_of_inject_set)
qed

lemma fold_storeProp_perm:
  assumes "mset xs = mset ys" "distinct (map fst xs)"
  shows "fold storeProp xs [] = fold storeProp ys []"
proof -
  have d: "distinct (map fst ys)"
    using assms by (metis mset_map mset_eq_imp_distinct_iff)
  have c: "canonical ([] :: (string \<times> SchemaOrRef option) list)" by (simp add: canonical_def)
  show ?thesis
    by (rule canonical_unique)
       (simp_all add: fold_storeProp_canonical c map_of_fold_storeProp assms(2) d map_of_perm[OF assms])
qed

lemma toSchemaOrRefFromV2_order:
  assumes "isOrder ord"
  shows "wfAny v \<Longrightarrow> toSchemaOrRefFromV2 ord v name = toSchemaOrRefFromV2 listOrder v name"
proof (induction v arbitrary: name rule: measure_induct_rule[of size])
  case (less v)
  show ?case
  proof (cases v)
    case (AMap schemaMap)
    have ih: "toSchemaOrRefFromV2 ord v' n = toSchemaOrRefFromV2 listOrder v' n"
      if "size v' < size (AMap schemaMap)" "wfAny v'" for v' n
      using less.IH[of v' n] that AMap by simp
    have wf: "wfAny (AMap schemaMap)" using less.prems AMap by simp
    have props: "(case idx schemaMap ''properties'' of
                    AMap props \<Rightarrow>
                      fold (\<lambda>e m. case snd e of None \<Rightarrow> m | Some propSchema \<Rightarrow> assign (fst e) (Some propSchema) m)
                        (rangeOver ord (map (\<lambda>e. (fst e, toSchemaOrRefFromV2 ord (snd e) [])) props))
                        []
                  | _ \<Rightarrow> [])
              = (case idx schemaMap ''properties'' of
                    AMap props \<Rightarrow>
                      fold (\<lambda>e m. case snd e of None \<Rightarrow> m | Some propSchema \<Rightarrow> assign (fst e) (Some propSchema) m)
                        (rangeOver listOrder (map (\<lambda>e. (fst e, toSchemaOrRefFromV2 listOrder (snd e) [])) props))
                        []
                  | _ \<Rightarrow> [])"
    proof (cases "idx schemaMap ''properties''")
      case (AMap props)
      have w: "wfAny (AMap props)" using wfAny_idx[OF wf, of "''properties''"] AMap by simp
      have c: "map (\<lambda>e. (fst e, toSchemaOrRefFromV2 ord (snd e) [])) props
             = map (\<lambda>e. (fst e, toSchemaOrRefFromV2 listOrder (snd e) [])) props"
      proof (rule map_cong[OF refl])
        fix e assume e: "e \<in> set props"
        have "toSchemaOrRefFromV2 ord (snd e) [] = toSchemaOrRefFromV2 listOrder (snd e) []"
          using ih[of "snd e" "[]"] size_in_map[OF AMap e] w e by simp
        then show "(fst e, toSchemaOrRefFromV2 ord (snd e) []) = (fst e, toSchemaOrRefFromV2 listOrder (snd e) [])"
          by simp
      qed
      let ?conv = "map (\<lambda>e. (fst e, toSchemaOrRefFromV2 listOrder (snd e) [])) props"
      have mf: "map fst ?conv = map fst props" by (induction props) simp_all
      have "distinct (map fst props)" using w by simp
      then have d: "distinct (map fst ?conv)" by (simp only: mf)
      have "fold storeProp (rangeOver ord ?conv) [] = fold storeProp ?conv []"
        by (rule fold_storeProp_perm[symmetric])
           (simp only: mset_rangeOver[OF assms], rule d)
      then show ?thesis
        unfolding AMap any.case c rangeOver_listOrder storeProp_def[abs_def] .
    qed simp_all
    have items: "(case map_of schemaMap ''items'' of
                    Some its \<Rightarrow> toSchemaOrRefFromV2 ord its []
                  | None \<Rightarrow> None)
               = (case map_of schemaMap ''items'' of
                    Some its \<Rightarrow> toSchemaOrRefFromV2 listOrder its []
                  | None \<Rightarrow> None)"
    proof (cases "map_of schemaMap ''items''")
      case (Some its)
      then show ?thesis
        using ih[of its "[]"] size_map_of[OF Some] wfAny_map_of[OF wf Some] by simp
    qed simp
    have lists: "(case idx schemaMap k of
                    AList xs \<Rightarrow> filter (\<lambda>r. r \<noteq> None) (map (\<lambda>item. toSchemaOrRefFromV2 ord item []) xs)
                  | _ \<Rightarrow> [])
               = (case idx schemaMap k of
                    AList xs \<Rightarrow> filter (\<lambda>r. r \<noteq> None) (map (\<lambda>item. toSchemaOrRefFromV2 listOrder item []) xs)
                  | _ \<Rightarrow> [])" for k
    proof (cases "idx schemaMap k")
      case (AList xs)
      have w: "wfAny (AList xs)" using wfAny_idx[OF wf, of k] AList by simp
      have m: "map (\<lambda>item. toSchemaOrRefFromV2 ord item []) xs
          = map (\<lambda>item. toSchemaOrRefFromV2 listOrder item []) xs"
      proof (rule map_cong[OF refl])
        fix x assume x: "x \<in> set xs"
        show "toSchemaOrRefFromV2 ord x [] = toSchemaOrRefFromV2 listOrder x []"
          using ih[of x "[]"] size_in_list[OF AList x] w x by simp
      qed
      show ?thesis unfolding AList any.case m by (rule refl)
    qed simp_all
    show ?thesis
      unfolding AMap
      by (subst toSchemaOrRefFromV2.simps, subst (2) toSchemaOrRefFromV2.simps)
         (simp only: any.case Let_def props items lists)
  qed (simp_all add: toSchemaOrRefFromV2.simps)
qed

lemma keyed_Nil: "keyed []"
  by (simp add: keyed_def)

lemma set_update_subset: "set (AList.update k v m) \<subseteq> insert (k, v) (set m)"
  by (induction m) auto

lemma keyed_update:
  assumes "keyed m" "k = paramKey (pm_In pm) (pm_Name pm)"
  shows "keyed (AList.update k pm m)"
  unfolding keyed_def
proof
  show "distinct (map fst (AList.update k pm m))"
    using assms(1) by (simp add: keyed_def distinct_update)
next
  show "\<forall>e \<in> set (AList.update k pm m). fst e = paramKey (pm_In (snd e)) (pm_Name (snd e))"
    using assms set_update_subset[of k pm m] by (auto simp: keyed_def)
qed

lemma keyed_assignParameters: "keyed m \<Longrightarrow> keyed (assignParameters ord prefs m)"
proof (induction prefs arbitrary: m)
  case Nil
  then show ?case by simp
next
  case (Cons pref prefs)
  show ?case
  proof (cases "toParameterModel ord pref")
    case None
    then show ?thesis using Cons.IH[OF Cons.prems] by simp
  next
    case (Some pm)
    have "keyed (AList.update (paramKey (pm_In pm) (pm_Name pm)) pm m)"
      using Cons.prems by (rule keyed_update) (rule refl)
    from Cons.IH[OF this] show ?thesis using Some by simp
  qed
qed

lemma map_of_assignParameters:
  "map_of m = map_of m' \<Longrightarrow> map_of (assignParameters ord prefs m) = map_of (assignParameters ord prefs m')"
proof (induction prefs arbitrary: m m')
  case Nil
  then show ?case by simp
next
  case (Cons pref prefs)
  show ?case
  proof (cases "toParameterModel ord pref")
    case None
    then show ?thesis using Cons.IH[OF Cons.prems] by simp
  next
    case (Some pm)
    have "map_of (AList.update (paramKey (pm_In pm) (pm_Name pm)) pm m)
        = map_of (AList.update (paramKey (pm_In pm) (pm_Name pm)) pm m')"
      using Cons.prems by (simp only: update_conv')
    from Cons.IH[OF this] show ?thesis using Some by simp
  qed
qed

lemma copy_distinct:
  "distinct (map fst (acc @ xs)) \<Longrightarrow>
   fold (\<lambda>kv mp. AList.update (fst kv) (snd kv) mp) xs acc = acc @ xs"
proof (induction xs arbitrary: acc)
  case Nil
  then show ?case by simp
next
  case (Cons x xs)
  have "fst x \<notin> fst ` set acc" using Cons.prems by auto
  then have "AList.update (fst x) (snd x) acc = acc @ [x]"
    by (induction acc) auto
  then show ?case using Cons.IH[of "acc @ [x]"] Cons.prems by simp
qed

lemma keyed_perm:
  assumes "keyed m" "mset m' = mset m"
  shows "keyed m'"
proof -
  have "distinct (map fst m')"
    using assms by (metis keyed_def mset_map mset_eq_imp_distinct_iff)
  moreover have "set m' = set m" using assms(2) by (metis set_mset_mset)
  ultimately show ?thesis using assms(1) by (simp add: keyed_def)
qed

lemma keyed_mset:
  assumes "keyed m" "keyed m'" "map_of m = map_of m'"
  shows "mset m = mset m'"
proof -
  have "set m = set m'" using assms by (simp add: keyed_def map_of_inject_set[symmetric])
  moreover have "distinct m" "distinct m'"
    using assms(1,2) by (auto simp: keyed_def distinct_map)
  ultimately show ?thesis by (simp add: set_eq_iff_mset_eq_distinct)
qed

lemma keyed_values:
  assumes "keyed m"
  shows "distinct (map snd m)" "inj_on inName (set (map snd m))"
proof -
  have k: "\<forall>e \<in> set m. fst e = paramKey (pm_In (snd e)) (pm_Name (snd e))"
    using assms by (simp add: keyed_def)
  have d: "distinct (map fst m)" using assms by (simp add: keyed_def)
  have i: "inj_on snd (set m)"
  proof (rule inj_onI)
    fix a b assume "a \<in> set m" "b \<in> set m" "snd a = snd b"
    with k have "fst a = fst b" by simp
    with \<open>snd a = snd b\<close> show "a = b" by (simp add: prod_eq_iff)
  qed
  have dm: "distinct m" using d by (simp add: distinct_map)
  show "distinct (map snd m)" using dm i by (simp add: distinct_map)
  show "inj_on inName (set (map snd m))"
  proof (rule inj_onI)
    fix x y assume x: "x \<in> set (map snd m)" and y: "y \<in> set (map snd m)" and e: "inName x = inName y"
    from x obtain a where a: "a \<in> set m" "snd a = x" by auto
    from y obtain b where b: "b \<in> set m" "snd b = y" by auto
    have "fst a = fst b" using k a b e by (simp add: inName_def)
    then have "a = b" using d a(1) b(1) by (metis eq_key_imp_eq_value prod.collapse)
    with a b show "x = y" by simp
  qed
qed

lemma filter_single:
  assumes "distinct xs" "k \<in> set xs" "inj_on f (set xs)"
  shows "filter (\<lambda>x. f k = f x) xs = [k]"
proof -
  have "filter (\<lambda>x. f k = f x) xs = filter (\<lambda>x. x = k) xs"
    using assms(2,3) by (intro filter_cong) (auto dest: inj_onD)
  also have "\<dots> = [k]"
    using assms(1,2) by (induction xs) (auto simp: filter_empty_conv)
  finally show ?thesis .
qed

lemma sort_key_perm:
  assumes "mset xs = mset ys" "distinct xs" "inj_on f (set xs)"
  shows "sort_key f xs = sort_key f ys"
proof (rule properties_for_sort_key[symmetric])
  show "mset (sort_key f xs) = mset ys" using assms(1) by simp
next
  show "sorted (map f (sort_key f xs))" by simp
next
  fix k assume "k \<in> set (sort_key f xs)"
  then have k: "k \<in> set xs" by simp
  have sy: "set ys = set xs" using assms(1) by (metis set_mset_mset)
  have dy: "distinct ys" using assms(1,2) by (metis mset_eq_imp_distinct_iff)
  have "filter (\<lambda>x. f k = f x) (sort_key f xs) = [k]"
    using assms(2,3) k by (intro filter_single) simp_all
  moreover have "filter (\<lambda>x. f k = f x) ys = [k]"
    using assms(3) k sy dy by (intro filter_single) simp_all
  ultimately show "filter (\<lambda>x. f k = f x) (sort_key f xs) = filter (\<lambda>x. f k = f x) ys" by simp
qed

lemma mergedParameters_order:
  assumes "isOrder ord" "keyed base"
  shows "mergedParameters ord base op = mergedParameters listOrder base op"
proof -
  let ?copy = "\<lambda>ord. fold (\<lambda>kv mp. AList.update (fst kv) (snd kv) mp) (rangeOver ord base) []"
  let ?m = "\<lambda>ord. assignParameters ord (o_Parameters op) (?copy ord)"
  have kb: "keyed (rangeOver ord base)"
    using assms by (intro keyed_perm[OF assms(2)]) (simp add: mset_rangeOver)
  have c1: "?copy ord = rangeOver ord base"
    using copy_distinct[of "[]" "rangeOver ord base"] kb by (simp add: keyed_def)
  have c2: "?copy listOrder = base"
    using copy_distinct[of "[]" base] assms(2) by (simp add: keyed_def rangeOver_listOrder)
  have mo: "map_of (rangeOver ord base) = map_of base"
    using kb assms by (simp add: keyed_def map_of_inject_set set_rangeOver)
  have k1: "keyed (?m ord)" unfolding c1 using kb by (rule keyed_assignParameters)
  have k2: "keyed (?m listOrder)" unfolding c2 using assms(2) by (rule keyed_assignParameters)
  have "map_of (?m ord) = map_of (assignParameters ord (o_Parameters op) base)"
    unfolding c1 using mo by (rule map_of_assignParameters)
  then have "map_of (?m ord) = map_of (?m listOrder)"
    unfolding c2 by (simp add: assignParameters_order[OF assms(1)])
  from keyed_mset[OF k1 k2 this] have ms: "mset (?m ord) = mset (?m listOrder)" .
  have k3: "keyed (rangeOver ord (?m ord))"
    using assms(1) by (intro keyed_perm[OF k1]) (simp add: mset_rangeOver)
  have "mset (map snd (rangeOver ord (?m ord))) = mset (map snd (?m listOrder))"
    using ms assms(1) by (simp add: mset_rangeOver)
  then have "sort_key inName (map snd (rangeOver ord (?m ord))) = sort_key inName (map snd (?m listOrder))"
    using keyed_values[OF k3] by (intro sort_key_perm) simp_all
  then show ?thesis
    unfolding mergedParameters_def inName_def[abs_def] by (simp only: rangeOver_listOrder)
qed

lemma buildEndpoint_alt:
  "buildEndpoint ord cfg v2Ops p baseParams m op =
     (if methods cfg \<noteq> [] \<and> m \<notin> set (methods cfg) then Inr []
      else if pathRes cfg \<noteq> [] \<and> \<not> list_ex (\<lambda>re. re p) (pathRes cfg) then Inr []
      else
        case requestBodyFor ord v2Ops p m op of
          Inl e \<Rightarrow> Inl e
        | Inr rb \<Rightarrow>
           (case responsesFor ord v2Ops p m op of
              Inl e \<Rightarrow> Inl e
            | Inr responses \<Rightarrow>
               (if \<not> allowByTags (cleanTags (o_Tags op)) cfg then Inr []
                else Inr [\<lparr>ep_ID = m @ '' '' @ p, ep_Method = m, ep_Path = p,
                           ep_Summary = safeStr (o_Summary op), ep_Description = safeStr (o_Description op),
                           ep_Tags = cleanTags (o_Tags op), ep_Parameters = mergedParameters ord baseParams op,
                           ep_RequestBody = rb, ep_Responses = responses\<rparr>])))"
  unfolding buildEndpoint_def mergedParameters_def cleanTags_def Let_def by (rule refl)

lemma buildEndpoint_order:
  assumes "isOrder ord" "keyed base"
  shows "buildEndpoint ord cfg v2Ops p base m op = buildEndpoint listOrder cfg v2Ops p base m op"
  unfolding buildEndpoint_alt
  by (simp only: mergedParameters_order[OF assms] requestBodyFor_order[OF assms(1)]
        responsesFor_order[OF assms(1)])

lemma buildPathItem_order:
  assumes "isOrder ord"
  shows "buildPathItem ord cfg v2Ops p item = buildPathItem listOrder cfg v2Ops p item"
proof -
  have k: "keyed (assignParameters listOrder (pi_Parameters item) [])"
    by (intro keyed_assignParameters keyed_Nil)
  show ?thesis
    unfolding buildPathItem_def Let_def assignParameters_order[OF assms]
    by (simp add: buildEndpoint_order[OF assms k] cong: option.case_cong)
qed

lemma buildPaths_order:
  assumes "isOrder ord"
  shows "buildPaths ord cfg v2Ops paths = buildPaths listOrder cfg v2Ops paths"
  unfolding buildPaths_def
  by (simp add: sortedKeys_listOrder[OF assms] buildPathItem_order[OF assms] cong: option.case_cong)

lemma collectSortedTags_order:
  assumes "isOrder ord"
  shows "collectSortedTags ord eps = collectSortedTags listOrder eps"
  unfolding collectSortedTags_def Let_def
  by (simp only: sort_rangeOver[OF assms] sort_rangeOver[OF isOrder_listOrder])

lemma buildSchemas_order:
  assumes "isOrder ord" "wfDefinitions v2Schemas"
  shows "buildSchemas ord v2Schemas schemas = buildSchemas listOrder v2Schemas schemas"
proof -
  have f: "(case v2Schemas of
              None \<Rightarrow> None
            | Some defs \<Rightarrow>
               (case map_of defs name of
                  None \<Rightarrow> None
                | Some v2Schema \<Rightarrow> toSchemaOrRefFromV2 ord v2Schema name))
         = (case v2Schemas of
              None \<Rightarrow> None
            | Some defs \<Rightarrow>
               (case map_of defs name of
                  None \<Rightarrow> None
                | Some v2Schema \<Rightarrow> toSchemaOrRefFromV2 listOrder v2Schema name))" for name
    using assms wfAny_map_of
    by (auto simp: wfDefinitions_def toSchemaOrRefFromV2_order simp del: wfAny.simps
          split: option.splits)
  show ?thesis
    unfolding buildSchemas_def Let_def
    by (simp only: f sortedKeys_listOrder[OF assms(1)] toSchemaOrRef_order[OF assms(1)])
qed

lemma BuildServiceModel_order:
  assumes "isOrder ord" "wfDefinitions (v2SchemasOf unmarshal store v2Raw)"
  shows "BuildServiceModel ord unmarshal store doc v2Raw opts
       = BuildServiceModel listOrder unmarshal store doc v2Raw opts"
  unfolding BuildServiceModel_def Let_def
  by (simp only: buildPaths_order[OF assms(1)] collectSortedTags_order[OF assms(1)]
        buildSchemas_order[OF assms[unfolded v2SchemasOf_def]])

subsection \<open>The order of the endpoints\<close>

lemma methodOps_order: "map fst (methodOps item) = methodOrder"
  by (simp add: methodOps_def methodOrder_def)

lemma methodOps_ranked: "sorted_wrt (\<lambda>x y. rank (fst x) < rank (fst y)) (methodOps item)"
  by (simp add: methodOps_def rank_def methodOrder_def GET_def POST_def PUT_def DELETE_def PATCH_def
        HEAD_def OPTIONS_def TRACE_def)

lemma sorted_wrt_concat_map:
  assumes "sorted_wrt Q xs"
    and "\<And>x. x \<in> set xs \<Longrightarrow> sorted_wrt R (g x)"
    and "\<And>x y a b. Q x y \<Longrightarrow> a \<in> set (g x) \<Longrightarrow> b \<in> set (g y) \<Longrightarrow> R a b"
  shows "sorted_wrt R (concat (map g xs))"
  using assms(1,2)
proof (induction xs)
  case Nil
  then show ?case by simp
next
  case (Cons x xs)
  have "sorted_wrt R (concat (map g xs))" using Cons by simp
  moreover have "sorted_wrt R (g x)" using Cons.prems(2) by simp
  moreover have "\<forall>a \<in> set (g x). \<forall>b \<in> set (concat (map g xs)). R a b"
    using Cons.prems(1) assms(3) by auto
  ultimately show ?case by (simp add: sorted_wrt_append)
qed

lemma buildPathItem_sorted:
  assumes "buildPathItem ord cfg v2Ops p item = Inr eps"
  shows "sorted_wrt before eps" "\<forall>e \<in> set eps. ep_Path e = p"
proof -
  let ?f = "\<lambda>pair. case snd pair of
                      None \<Rightarrow> Inr []
                    | Some op \<Rightarrow> buildEndpoint ord cfg v2Ops p (assignParameters ord (pi_Parameters item) []) (fst pair) op"
  have c: "collect (map ?f (methodOps item)) = Inr eps"
    using assms by (simp add: buildPathItem_def Let_def)
  note cc = collect_map_concat[OF c]
  have mem: "ep_Path e = p \<and> ep_Method e = fst x" if "x \<in> set (methodOps item)" "e \<in> set (projr (?f x))" for x e
  proof (cases "snd x")
    case None
    then show ?thesis using that(2) by simp
  next
    case (Some op)
    have "buildEndpoint ord cfg v2Ops p (assignParameters ord (pi_Parameters item) []) (fst x) op
        = Inr (projr (?f x))"
      using cc(2)[OF that(1)] Some by simp
    from buildEndpoint_mem[OF this] that(2) show ?thesis by simp
  qed
  have single: "sorted_wrt before (projr (?f x))" if "x \<in> set (methodOps item)" for x
  proof (cases "snd x")
    case None
    then show ?thesis by simp
  next
    case (Some op)
    have b: "buildEndpoint ord cfg v2Ops p (assignParameters ord (pi_Parameters item) []) (fst x) op
        = Inr (projr (?f x))"
      using cc(2)[OF that] Some by simp
    show ?thesis
    proof (cases "projr (?f x)")
      case Nil
      then show ?thesis by simp
    next
      case (Cons e es)
      then have "e \<in> set (projr (?f x))" by simp
      from buildEndpoint_mem[OF b this] have "projr (?f x) = [e]" by simp
      then show ?thesis by simp
    qed
  qed
  show p: "\<forall>e \<in> set eps. ep_Path e = p"
    unfolding cc(1) using mem by auto
  have "sorted_wrt before (concat (map (\<lambda>x. projr (?f x)) (filter (\<lambda>x. x \<in> set (methodOps item)) (methodOps item))))"
  proof (rule sorted_wrt_concat_map[where Q = "\<lambda>x y. x \<in> set (methodOps item) \<and> y \<in> set (methodOps item)
        \<and> rank (fst x) < rank (fst y)"])
    show "sorted_wrt (\<lambda>x y. x \<in> set (methodOps item) \<and> y \<in> set (methodOps item) \<and> rank (fst x) < rank (fst y))
        (filter (\<lambda>x. x \<in> set (methodOps item)) (methodOps item))"
      using methodOps_ranked[of item] by (simp add: sorted_wrt_iff_nth_less)
  next
    fix x assume "x \<in> set (filter (\<lambda>x. x \<in> set (methodOps item)) (methodOps item))"
    then show "sorted_wrt before (projr (?f x))" using single by simp
  next
    fix x y a b
    assume "x \<in> set (methodOps item) \<and> y \<in> set (methodOps item) \<and> rank (fst x) < rank (fst y)"
      "a \<in> set (projr (?f x))" "b \<in> set (projr (?f y))"
    then show "before a b" using mem[of x a] mem[of y b] by (simp add: before_def)
  qed
  then show "sorted_wrt before eps" unfolding cc(1) by simp
qed

lemma buildPaths_sorted:
  assumes "isOrder ord" "distinct (map fst paths)" "buildPaths ord cfg v2Ops paths = Inr eps"
  shows "sorted_wrt before eps"
proof -
  let ?f = "\<lambda>p. case at paths p of None \<Rightarrow> Inr [] | Some item \<Rightarrow> buildPathItem ord cfg v2Ops p item"
  have c: "collect (map ?f (sortedKeys ord paths)) = Inr eps"
    using assms(3) by (simp add: buildPaths_def)
  note cc = collect_map_concat[OF c]
  have k: "sorted_wrt (<) (sortedKeys ord paths)"
    using assms(1,2) by (simp add: sortedKeys_eq strict_sorted_iff)
  have item: "sorted_wrt before (projr (?f p)) \<and> (\<forall>e \<in> set (projr (?f p)). ep_Path e = p)"
    if "p \<in> set (sortedKeys ord paths)" for p
  proof (cases "at paths p")
    case None
    then show ?thesis by simp
  next
    case (Some item)
    have "buildPathItem ord cfg v2Ops p item = Inr (projr (?f p))"
      using cc(2)[OF that] Some by simp
    from buildPathItem_sorted[OF this] show ?thesis by simp
  qed
  have "sorted_wrt before (concat (map (\<lambda>p. projr (?f p)) (sortedKeys ord paths)))"
  proof (rule sorted_wrt_concat_map[where Q = "\<lambda>x y. x \<in> set (sortedKeys ord paths)
        \<and> y \<in> set (sortedKeys ord paths) \<and> x < y"])
    show "sorted_wrt (\<lambda>x y. x \<in> set (sortedKeys ord paths) \<and> y \<in> set (sortedKeys ord paths) \<and> x < y)
        (sortedKeys ord paths)"
      using k by (simp add: sorted_wrt_iff_nth_less)
  next
    fix p assume "p \<in> set (sortedKeys ord paths)"
    then show "sorted_wrt before (projr (?f p))" using item by simp
  next
    fix x y a b
    assume "x \<in> set (sortedKeys ord paths) \<and> y \<in> set (sortedKeys ord paths) \<and> x < y"
      "a \<in> set (projr (?f x))" "b \<in> set (projr (?f y))"
    then show "before a b" using item[of x] item[of y] by (simp add: before_def)
  qed
  then show ?thesis unfolding cc(1) .
qed

lemma responsesFor_sorted:
  assumes "isOrder ord" "responsesFor ord v2Ops p m op = Inr rs"
  shows "sorted (map rs_Status rs)"
proof -
  let ?f = "\<lambda>code. case at (o_Responses op) code of
                       None \<Rightarrow> Inr []
                     | Some rref \<Rightarrow>
                        (case rr_Value rref of
                           None \<Rightarrow> Inr []
                         | Some v \<Rightarrow>
                            (case mediaFor ord v2Ops (r_Content v) p m of
                               Inl e \<Rightarrow> Inl e
                             | Inr content \<Rightarrow>
                                 Inr [\<lparr>rs_Status = code,
                                       rs_Description = (case r_Description v of None \<Rightarrow> [] | Some d \<Rightarrow> d),
                                       rs_Content = content\<rparr>]))"
  have c: "collect (map ?f (sortedKeys ord (o_Responses op))) = Inr rs"
    using assms(2) by (simp add: responsesFor_def)
  note cc = collect_map_concat[OF c]
  have one: "(\<forall>r \<in> set (projr (?f code)). rs_Status r = code) \<and> length (projr (?f code)) \<le> 1"
    if mem: "code \<in> set (sortedKeys ord (o_Responses op))" for code
  proof -
    obtain zs where zs: "?f code = Inr zs" using cc(2)[OF mem] by blast
    then have "(\<forall>r \<in> set zs. rs_Status r = code) \<and> length zs \<le> 1"
      by (auto split: option.splits sum.splits)
    then show ?thesis unfolding zs sum.sel by blast
  qed
  have "sorted_wrt (\<lambda>a b. rs_Status a \<le> rs_Status b)
      (concat (map (\<lambda>code. projr (?f code)) (sortedKeys ord (o_Responses op))))"
  proof (rule sorted_wrt_concat_map[where Q = "\<lambda>x y. x \<in> set (sortedKeys ord (o_Responses op))
        \<and> y \<in> set (sortedKeys ord (o_Responses op)) \<and> x \<le> y"])
    have "sorted_wrt (\<le>) (sortedKeys ord (o_Responses op))"
      by (simp add: sortedKeys_def)
    then show "sorted_wrt (\<lambda>x y. x \<in> set (sortedKeys ord (o_Responses op))
        \<and> y \<in> set (sortedKeys ord (o_Responses op)) \<and> x \<le> y) (sortedKeys ord (o_Responses op))"
      by (simp add: sorted_wrt_iff_nth_less)
  next
    fix code assume "code \<in> set (sortedKeys ord (o_Responses op))"
    then have "length (projr (?f code)) \<le> 1" using one by blast
    then show "sorted_wrt (\<lambda>a b. rs_Status a \<le> rs_Status b) (projr (?f code))"
      by (cases "projr (?f code)") (simp_all add: le_Suc_eq)
  next
    fix x y :: string and a b
    assume "x \<in> set (sortedKeys ord (o_Responses op)) \<and> y \<in> set (sortedKeys ord (o_Responses op)) \<and> x \<le> y"
      "a \<in> set (projr (?f x))" "b \<in> set (projr (?f y))"
    then show "rs_Status a \<le> rs_Status b" using one[of x] one[of y] by simp
  qed
  then show ?thesis unfolding cc(1)[symmetric] by (simp add: sorted_map)
qed

text \<open>
  C1.  The result of \<open>BuildServiceModel\<close> does not depend on the order in which the maps are
  iterated: two runs on the same input, under any two admissible orders, return the same value
  (the same model or the same failure).  The endpoints of a model are in ascending order of
  path and, on one path, in the order GET, POST, PUT, DELETE, PATCH, HEAD, OPTIONS, TRACE of the
  methods; the responses of every endpoint are in ascending order of the status string.  The
  hypotheses on the v2 definitions and on the paths are the invariant of a Go map, that no key
  occurs twice.
\<close>

theorem BuildServiceModel_deterministic:
  assumes "isOrder ord" "isOrder ord'"
    and "wfDefinitions (v2SchemasOf unmarshal store v2Raw)"
    and "distinct (map fst (pathsOf doc))"
  shows "BuildServiceModel ord unmarshal store doc v2Raw opts
           = BuildServiceModel ord' unmarshal store doc v2Raw opts
       \<and> (\<forall>sm. BuildServiceModel ord unmarshal store doc v2Raw opts = Inr sm \<longrightarrow>
             sorted_wrt before (sm_Endpoints sm)
           \<and> (\<forall>e \<in> set (sm_Endpoints sm). sorted (map rs_Status (ep_Responses e))))"
proof -
  have 1: "BuildServiceModel ord unmarshal store doc v2Raw opts
         = BuildServiceModel ord' unmarshal store doc v2Raw opts"
    using BuildServiceModel_order[OF assms(1,3)] BuildServiceModel_order[OF assms(2,3)] by simp
  have 2: "sorted_wrt before (sm_Endpoints sm)
         \<and> (\<forall>e \<in> set (sm_Endpoints sm). sorted (map rs_Status (ep_Responses e)))"
    if b: "BuildServiceModel ord unmarshal store doc v2Raw opts = Inr sm" for sm
  proof -
    from BuildServiceModel_Inr[OF b] obtain d :: oa3_T where d: "doc = Some d"
      and p: "buildPaths ord (configOf opts) (v2OpsOf store) (t_Paths d) = Inr (sm_Endpoints sm)"
      by blast
    have "distinct (map fst (t_Paths d))" using assms(4) d by (simp add: pathsOf_def)
    from buildPaths_sorted[OF assms(1) this p] have s: "sorted_wrt before (sm_Endpoints sm)" .
    have "sorted (map rs_Status (ep_Responses e))" if "e \<in> set (sm_Endpoints sm)" for e
    proof -
      from buildPaths_mem[OF p that] obtain q m op and item :: oa3_PathItem where
        "buildEndpoint ord (configOf opts) (v2OpsOf store) q (assignParameters ord (pi_Parameters item) []) m op
           = Inr [e]"
        by blast
      from buildEndpoint_single(5)[OF this] show ?thesis by (rule responsesFor_sorted[OF assms(1)])
    qed
    with s show ?thesis by blast
  qed
  show ?thesis using 1 2 by blast
qed

theorem BuildServiceModel_deterministic_witness:
  "isOrder listOrder \<and> isOrder reverseOrder
   \<and> wfDefinitions (v2SchemasOf noYaml (Some petStore) None)
   \<and> distinct (map fst (pathsOf (Some sampleDoc)))
   \<and> BuildServiceModel listOrder noYaml (Some petStore) (Some sampleDoc) None []
        = BuildServiceModel reverseOrder noYaml (Some petStore) (Some sampleDoc) None []
   \<and> (\<exists>sm. BuildServiceModel reverseOrder noYaml (Some petStore) (Some sampleDoc) None [] = Inr sm
         \<and> sorted_wrt before (sm_Endpoints sm)
         \<and> map (\<lambda>e. (ep_Path e, ep_Method e)) (sm_Endpoints sm)
             = [(''/admin'', ''get''), (''/pets'', ''get''), (''/pets'', ''post'')])"
proof -
  have w: "wfDefinitions (v2SchemasOf noYaml (Some petStore) None)" by code_simp
  have d: "distinct (map fst (pathsOf (Some sampleDoc)))" by code_simp
  have b: "built (BuildServiceModel reverseOrder noYaml (Some petStore) (Some sampleDoc) None [])"
    by code_simp
  have e: "endpointsOf (BuildServiceModel reverseOrder noYaml (Some petStore) (Some sampleDoc) None [])
      = [(''/admin'', ''get''), (''/pets'', ''get''), (''/pets'', ''post'')]"
    by code_simp
  from built_Inr[OF b] obtain sm where
    sm: "BuildServiceModel reverseOrder noYaml (Some petStore) (Some sampleDoc) None [] = Inr sm" by blast
  have m: "map (\<lambda>e. (ep_Path e, ep_Method e)) (sm_Endpoints sm)
      = [(''/admin'', ''get''), (''/pets'', ''get''), (''/pets'', ''post'')]"
    using e unfolding sm by (simp add: endpointsOf_def)
  have 1: "BuildServiceModel listOrder noYaml (Some petStore) (Some sampleDoc) None []
      = BuildServiceModel reverseOrder noYaml (Some petStore) (Some sampleDoc) None []"
    using BuildServiceModel_deterministic[OF isOrder_listOrder isOrder_reverseOrder w d, of "[]"]
    by blast
  have 2: "sorted_wrt before (sm_Endpoints sm)"
    using BuildServiceModel_deterministic[OF isOrder_reverseOrder isOrder_listOrder w d, of "[]"] sm
    by blast
  show ?thesis
    by (intro conjI exI[of _ sm]) (fact isOrder_listOrder isOrder_reverseOrder w d 1 2 sm m)+
qed

subsection \<open>The key of a parameter\<close>

lemma sample_parameters:
  "parametersOf (BuildServiceModel reverseOrder noYaml None (Some sampleDoc) None []) ''get /pets''
     = [(''query'', ''limit'', True)]"
  by code_simp

text \<open>
  C4.  The maps of parameters are keyed by the string \<open>in + ":" + name\<close>, and two parameters
  that differ in \<open>in\<close> and in \<open>name\<close> can have the same key.  In \<open>collidingDoc\<close> the
  path declares the parameter \<open>b:c\<close> in \<open>a\<close> and the operation the parameter \<open>c\<close> in
  \<open>a:b\<close>; the endpoint has the second one only, where the overlay by \<open>(in, name)\<close>
  has both.
\<close>

theorem paramKey_collision:
  "(''a'', ''b:c'') \<noteq> (''a:b'', ''c'')
   \<and> paramKey ''a'' ''b:c'' = paramKey ''a:b'' ''c''
   \<and> parametersOf (BuildServiceModel listOrder noYaml None (Some collidingDoc) None []) ''get /x''
        = [(''a:b'', ''c'', True)]"
  by code_simp

end
